(* ===== verification/Prelude.thy ===== *)
theory Prelude
  imports Main "HOL-Library.Word" "HOL-Library.Char_ord" "HOL-Library.List_Lexorder"
begin

text \<open>
  Shared vocabulary of the development: Go strings as byte lists with the functions of
  the package \<open>strings\<close> the code calls, \<open>slices.Sort\<close> followed by
  \<open>slices.Compact\<close>, decimal printing, \<open>*uint32\<close> time-to-live values, and
  \<open>time.Time\<close> as a number of nanoseconds since Go's zero time. The lemmas about these are
  collected in \<open>go_simps\<close> (safe rewrite rules) and used by every component.
\<close>

named_theorems go_simps \<open>rewrite rules for the modelled part of Go's library\<close>

section \<open>Types\<close>

type_synonym uint32 = "32 word"

text \<open>A \<open>*uint32\<close>: \<open>None\<close> is the nil pointer.\<close>

type_synonym ttl = "32 word option"

text \<open>
  \<open>time.Time\<close> is an integer number of nanoseconds since the zero time (year 1), so that
  \<open>IsZero\<close> is equality with 0. \<open>time.Duration\<close> is a number of nanoseconds.
\<close>

type_synonym gotime = int
type_synonym duration = int

abbreviation second :: duration where
  "second \<equiv> 1000000000"

definition unix_epoch :: gotime where
  "unix_epoch = 62135596800 * second"

text \<open>\<open>t.Unix()\<close>, in whole seconds since 1970.\<close>

definition unix_seconds :: "gotime \<Rightarrow> int" where
  "unix_seconds t = (t - unix_epoch) div second"

text \<open>\<open>time.Duration(n) * time.Second\<close> for a \<open>uint32\<close>; it fits the 63-bit range.\<close>

definition seconds :: "uint32 \<Rightarrow> duration" where
  "seconds n = uint n * second"

lemma seconds_nonneg [simp]: "0 \<le> seconds n"
  by (simp add: seconds_def)

lemma seconds_fits: "seconds n < 2 ^ 63"
proof -
  have "uint n < 2 ^ 32" using uint_lt2p [of n] by simp
  then show ?thesis by (simp add: seconds_def)
qed

lemma seconds_mono [simp]: "seconds a \<le> seconds b \<longleftrightarrow> a \<le> b"
  by (simp add: seconds_def word_le_def)

text \<open>\<open>t.Sub(u)\<close> saturates at the bounds of \<open>time.Duration\<close>.\<close>

definition time_sub :: "gotime \<Rightarrow> gotime \<Rightarrow> duration" where
  "time_sub t u = max (- (2 ^ 63)) (min (2 ^ 63 - 1) (t - u))"

section \<open>Strings\<close>

definition ascii_lower :: "char \<Rightarrow> char" where
  "ascii_lower c = (let n = (of_char c :: nat) in if 65 \<le> n \<and> n \<le> 90 then char_of (n + 32) else c)"

text \<open>\<open>strings.ToLower\<close> on the ASCII strings the code passes to it.\<close>

definition to_lower :: "string \<Rightarrow> string" where
  "to_lower = map ascii_lower"

definition has_prefix :: "string \<Rightarrow> string \<Rightarrow> bool" where
  "has_prefix s p \<longleftrightarrow> take (length p) s = p"

definition has_suffix :: "string \<Rightarrow> string \<Rightarrow> bool" where
  "has_suffix s x \<longleftrightarrow> length x \<le> length s \<and> drop (length s - length x) s = x"

definition trim_prefix :: "string \<Rightarrow> string \<Rightarrow> string" where
  "trim_prefix s p = (if has_prefix s p then drop (length p) s else s)"

definition trim_suffix :: "string \<Rightarrow> string \<Rightarrow> string" where
  "trim_suffix s x = (if has_suffix s x then take (length s - length x) s else s)"

text \<open>\<open>strings.Cut(s, string(c))\<close>: before, after, found.\<close>

fun cut :: "char \<Rightarrow> string \<Rightarrow> string \<times> string \<times> bool" where
  "cut c [] = ([], [], False)"
| "cut c (x # xs) = (if x = c then ([], xs, True)
     else (case cut c xs of (b, a, f) \<Rightarrow> (x # b, a, f)))"

fun split_on :: "char \<Rightarrow> string \<Rightarrow> string list" where
  "split_on c [] = [[]]"
| "split_on c (x # xs) = (if x = c then [] # split_on c xs
     else (case split_on c xs of [] \<Rightarrow> [[x]] | l # ls \<Rightarrow> (x # l) # ls))"

fun join :: "string \<Rightarrow> string list \<Rightarrow> string" where
  "join sep [] = []"
| "join sep [x] = x"
| "join sep (x # y # ys) = x @ sep @ join sep (y # ys)"

text \<open>\<open>strings.ReplaceAll(s, old, new)\<close> for a nonempty \<open>old\<close>.\<close>

function replace_all :: "string \<Rightarrow> string \<Rightarrow> string \<Rightarrow> string" where
  "replace_all old new s =
     (if s = [] \<or> old = [] then s
      else if has_prefix s old then new @ replace_all old new (drop (length old) s)
      else hd s # replace_all old new (tl s))"
  by pat_completeness auto
termination
  by (relation "measure (\<lambda>(old, new, s). length s)") auto

declare replace_all.simps [simp del]

text \<open>Decimal digits, as \<open>%d\<close> and \<open>strconv\<close> print a natural number.\<close>

fun dec :: "nat \<Rightarrow> string" where
  "dec n = (if n < 10 then [char_of (48 + n)] else dec (n div 10) @ [char_of (48 + n mod 10)])"

declare dec.simps [simp del]

text \<open>\<open>strconv.Itoa\<close>.\<close>

definition itoa :: "int \<Rightarrow> string" where
  "itoa n = (if n < 0 then CHR ''-'' # dec (nat (- n)) else dec (nat n))"

definition digit_val :: "char \<Rightarrow> nat option" where
  "digit_val c = (let n = (of_char c :: nat) in if 48 \<le> n \<and> n \<le> 57 then Some (n - 48) else None)"

definition is_lower_alnum :: "char \<Rightarrow> bool" where
  "is_lower_alnum c \<longleftrightarrow> (let n = (of_char c :: nat) in (97 \<le> n \<and> n \<le> 122) \<or> (48 \<le> n \<and> n \<le> 57))"

subsection \<open>Facts about strings\<close>

lemma has_suffix_iff: "has_suffix s x \<longleftrightarrow> (\<exists>p. s = p @ x)"
proof
  assume "has_suffix s x"
  then have "s = take (length s - length x) s @ x"
    by (metis append_take_drop_id has_suffix_def)
  then show "\<exists>p. s = p @ x" by blast
qed (auto simp: has_suffix_def)

lemma has_prefix_iff: "has_prefix s p \<longleftrightarrow> (\<exists>q. s = p @ q)"
  by (metis append_eq_conv_conj append_take_drop_id has_prefix_def)

lemma has_suffix_append [simp, go_simps]: "has_suffix (p @ x) x"
  by (simp add: has_suffix_def)

lemma has_prefix_append [simp, go_simps]: "has_prefix (p @ x) p"
  by (simp add: has_prefix_def)

lemma trim_suffix_append [simp, go_simps]: "trim_suffix (p @ x) x = p"
  by (simp add: trim_suffix_def)

lemma trim_prefix_append [simp, go_simps]: "trim_prefix (p @ x) p = x"
  by (simp add: trim_prefix_def)

lemma has_suffix_trans: "has_suffix a b \<Longrightarrow> has_suffix b c \<Longrightarrow> has_suffix a c"
  by (auto simp: has_suffix_iff)

lemma length_trim_suffix: "length (trim_suffix s x) \<le> length s"
  by (simp add: trim_suffix_def)

lemma cut_length: "cut c s = (b, a, True) \<Longrightarrow> length a < length s"
  by (induction s arbitrary: b) (auto split: if_splits prod.splits)

lemma cut_found: "cut c s = (b, a, f) \<Longrightarrow> (f \<longrightarrow> s = b @ c # a) \<and> (\<not> f \<longrightarrow> b = s \<and> a = [])"
  by (induction s arbitrary: b) (auto split: if_splits prod.splits)

lemma ascii_lower_idem [simp]: "ascii_lower (ascii_lower c) = ascii_lower c"
  by (auto simp: ascii_lower_def Let_def of_char_of)

lemma to_lower_idem [simp, go_simps]: "to_lower (to_lower s) = to_lower s"
  by (simp add: to_lower_def)

lemma to_lower_append [simp, go_simps]: "to_lower (s @ t) = to_lower s @ to_lower t"
  by (simp add: to_lower_def)

lemma length_to_lower [simp, go_simps]: "length (to_lower s) = length s"
  by (simp add: to_lower_def)

section \<open>Sorting and removing duplicates\<close>

text \<open>\<open>slices.Sort(xs)\<close> followed by \<open>slices.Compact(xs)\<close>.\<close>

definition sort_compact :: "'a::linorder list \<Rightarrow> 'a list" where
  "sort_compact xs = remdups_adj (sort xs)"

lemma set_sort_compact [simp, go_simps]: "set (sort_compact xs) = set xs"
  by (simp add: sort_compact_def)

lemma sorted_sort_compact [simp]: "sorted (sort_compact xs)"
  by (simp add: sort_compact_def sorted_remdups_adj)

lemma sorted_distinct_remdups_adj: "sorted (xs :: 'a::linorder list) \<Longrightarrow> distinct (remdups_adj xs)"
proof (induction xs rule: remdups_adj.induct)
  case (3 x y xs)
  show ?case
  proof (cases "x = y")
    case True
    with 3 show ?thesis by simp
  next
    case False
    with "3.prems" have "\<forall>z \<in> set (y # xs). x < z"
      by (metis list.set_intros(1) order_le_less_trans order_less_le set_ConsD sorted_simps(2))
    then have "x \<notin> set (remdups_adj (y # xs))" by (metis less_irrefl remdups_adj_set)
    with False 3 show ?thesis by simp
  qed
qed simp_all

lemma distinct_sort_compact [simp]: "distinct (sort_compact xs)"
  by (simp add: sort_compact_def sorted_distinct_remdups_adj)

lemma sort_compact_eq_iff: "sort_compact xs = sort_compact ys \<longleftrightarrow> set xs = set ys"
  by (metis distinct_sort_compact set_sort_compact sorted_distinct_set_unique sorted_sort_compact)

lemma sort_compact_idem [simp, go_simps]: "sort_compact (sort_compact xs) = sort_compact xs"
  by (simp add: sort_compact_eq_iff)

lemma sort_compact_Nil_iff [simp]: "sort_compact xs = [] \<longleftrightarrow> xs = []"
  by (metis set_empty set_sort_compact)

lemma length_sort_compact: "length (sort_compact xs) \<le> length xs"
  by (metis remdups_adj_length length_sort sort_compact_def)

section \<open>Optional time-to-live values\<close>

fun min_ttl :: "ttl \<Rightarrow> ttl \<Rightarrow> ttl" where
  "min_ttl cur None = cur"
| "min_ttl None (Some n) = Some n"
| "min_ttl (Some c) (Some n) = (if n < c then Some n else Some c)"

fun max_ttl :: "ttl \<Rightarrow> ttl \<Rightarrow> ttl" where
  "max_ttl cur None = cur"
| "max_ttl None (Some n) = Some n"
| "max_ttl (Some c) (Some n) = (if n > c then Some n else Some c)"

definition ttl_upper :: "ttl \<Rightarrow> ttl \<Rightarrow> bool" where
  "ttl_upper bound x \<longleftrightarrow> (case x of None \<Rightarrow> True
     | Some v \<Rightarrow> (case bound of None \<Rightarrow> False | Some b \<Rightarrow> v \<le> b))"

lemma ttl_upper_refl [simp]: "ttl_upper x x"
  by (simp add: ttl_upper_def split: option.splits)

lemma ttl_upper_trans: "ttl_upper a b \<Longrightarrow> ttl_upper b c \<Longrightarrow> ttl_upper a c"
  by (auto simp: ttl_upper_def split: option.splits)

lemma max_ttl_upper_left [simp]: "ttl_upper (max_ttl a b) a"
  by (cases a; cases b) (auto simp: ttl_upper_def)

lemma max_ttl_upper_right [simp]: "ttl_upper (max_ttl a b) b"
  by (cases a; cases b) (auto simp: ttl_upper_def)

lemma max_ttl_None_iff [simp]: "max_ttl a b = None \<longleftrightarrow> a = None \<and> b = None"
  by (cases a; cases b) auto

lemma min_ttl_None_iff [simp]: "min_ttl a b = None \<longleftrightarrow> a = None \<and> b = None"
  by (cases a; cases b) auto

text \<open>\<open>strings.TrimSpace\<close> leaves nothing of a text of white space (of its ASCII part).\<close>

definition blank :: "string \<Rightarrow> bool" where
  "blank s \<longleftrightarrow> (\<forall>c \<in> set s. c \<in> {CHR '' '', CHR 0x09, CHR 0x0A, CHR 0x0B, CHR 0x0C, CHR 0x0D})"

section \<open>Go maps as association lists\<close>

text \<open>A missing key of a Go map reads as the zero value.\<close>

definition map_get :: "('k \<times> 'v::zero) list \<Rightarrow> 'k \<Rightarrow> 'v" where
  "map_get m k = (case map_of m k of None \<Rightarrow> 0 | Some v \<Rightarrow> v)"

fun map_put :: "('k \<times> 'v) list \<Rightarrow> 'k \<Rightarrow> 'v \<Rightarrow> ('k \<times> 'v) list" where
  "map_put [] k v = [(k, v)]"
| "map_put ((k', v') # m) k v = (if k' = k then (k, v) # m else (k', v') # map_put m k v)"

lemma map_get_put [simp, go_simps]: "map_get (map_put m k v) k' = (if k' = k then v else map_get m k')"
  by (induction m) (auto simp: map_get_def)

lemma map_get_simps [simp, go_simps]: "map_get [] k = 0" "map_get ((k', v) # m) k = (if k' = k then v else map_get m k)"
  by (simp_all add: map_get_def)

lemma map_of_map_put [simp, go_simps]: "map_of (map_put m k v) = (map_of m)(k \<mapsto> v)"
  by (induction m) (auto simp: fun_eq_iff)

lemma keys_map_put [simp, go_simps]: "fst ` set (map_put m k v) = insert k (fst ` set m)"
  unfolding dom_map_of_conv_image_fst [symmetric] by simp

definition map_del :: "('k \<times> 'v) list \<Rightarrow> 'k \<Rightarrow> ('k \<times> 'v) list" where
  "map_del m k = filter (\<lambda>p. fst p \<noteq> k) m"

lemma map_of_map_del [simp, go_simps]: "map_of (map_del m k) = (map_of m)(k := None)"
  by (induction m) (auto simp: map_del_def fun_eq_iff)

lemma keys_map_del [simp, go_simps]: "fst ` set (map_del m k) = fst ` set m - {k}"
  unfolding dom_map_of_conv_image_fst [symmetric] by simp

lemma distinct_map_del: "distinct (map fst m) \<Longrightarrow> distinct (map fst (map_del m k))"
  unfolding map_del_def by (rule distinct_map_filter)

lemma distinct_map_put: "distinct (map fst m) \<Longrightarrow> distinct (map fst (map_put m k v))"
proof (induction m)
  case (Cons p m)
  have "set (map fst (map_put m k v)) = insert k (set (map fst m))" by (simp only: set_map keys_map_put)
  with Cons show ?case by (cases p) auto
qed simp

end
