(* ===== verification/Netaddr.thy ===== *)
theory Netaddr
  imports Prelude
begin

text \<open>
  The part of Go's package \<open>net/netip\<close> that the code relies on: addresses with their
  scope (zone), \<open>ParseAddr\<close>, \<open>Addr.String\<close>, \<open>Unmap\<close>, \<open>ParseAddrPort\<close> and
  \<open>net.JoinHostPort\<close>. The functions follow the library's algorithms character by
  character, so that the canonical-form tests of the repository (\<open>addr.String() == s\<close>)
  can be evaluated and reasoned about.
\<close>

section \<open>Addresses\<close>

text \<open>An IPv6 address has eight 16-bit groups and a scope, empty when there is none.\<close>

datatype addr = V4 "8 word" "8 word" "8 word" "8 word" | V6 "16 word list" string

fun is4 :: "addr \<Rightarrow> bool" where
  "is4 (V4 _ _ _ _) = True"
| "is4 (V6 _ _) = False"

definition is6 :: "addr \<Rightarrow> bool" where
  "is6 a \<longleftrightarrow> \<not> is4 a"

fun addr_zone :: "addr \<Rightarrow> string" where
  "addr_zone (V4 _ _ _ _) = []"
| "addr_zone (V6 _ z) = z"

fun mapped_groups :: "16 word list \<Rightarrow> (16 word \<times> 16 word) option" where
  "mapped_groups [g0, g1, g2, g3, g4, g5, g6, g7] =
     (if g0 = 0 \<and> g1 = 0 \<and> g2 = 0 \<and> g3 = 0 \<and> g4 = 0 \<and> g5 = 65535 then Some (g6, g7) else None)"
| "mapped_groups _ = None"

fun is4in6 :: "addr \<Rightarrow> bool" where
  "is4in6 (V4 _ _ _ _) = False"
| "is4in6 (V6 gs _) = (mapped_groups gs \<noteq> None)"

definition hi_byte :: "16 word \<Rightarrow> 8 word" where
  "hi_byte g = ucast (drop_bit 8 g)"

definition lo_byte :: "16 word \<Rightarrow> 8 word" where
  "lo_byte g = ucast g"

fun unmap :: "addr \<Rightarrow> addr" where
  "unmap (V4 a b c d) = V4 a b c d"
| "unmap (V6 gs z) = (case mapped_groups gs of None \<Rightarrow> V6 gs z
     | Some (g6, g7) \<Rightarrow> V4 (hi_byte g6) (lo_byte g6) (hi_byte g7) (lo_byte g7))"

lemma unmap_idem [simp, go_simps]: "unmap (unmap a) = unmap a"
  by (cases a) (auto split: option.splits)

lemma unmap_not_4in6 [simp, go_simps]: "\<not> is4in6 (unmap a)"
  by (cases a) (auto split: option.splits)

section \<open>Printing\<close>

definition byte_string :: "8 word \<Rightarrow> string" where
  "byte_string b = dec (unat b)"

definition hex_digit :: "nat \<Rightarrow> char" where
  "hex_digit n = (if n < 10 then char_of (48 + n) else char_of (87 + n))"

fun hex :: "nat \<Rightarrow> string" where
  "hex n = (if n < 16 then [hex_digit n] else hex (n div 16) @ [hex_digit (n mod 16)])"

declare hex.simps [simp del]

definition v4_string :: "8 word \<Rightarrow> 8 word \<Rightarrow> 8 word \<Rightarrow> 8 word \<Rightarrow> string" where
  "v4_string a b c d = byte_string a @ ''.'' @ byte_string b @ ''.'' @ byte_string c @ ''.'' @ byte_string d"

text \<open>The first longest run of at least two zero groups: start and length (0 for none).\<close>

fun zero_len :: "16 word list \<Rightarrow> nat" where
  "zero_len [] = 0"
| "zero_len (g # gs) = (if g = 0 then Suc (zero_len gs) else 0)"

fun best_run :: "nat \<Rightarrow> 16 word list \<Rightarrow> nat \<times> nat \<Rightarrow> nat \<times> nat" where
  "best_run i [] b = b"
| "best_run i (g # gs) (s, l) =
     (let n = zero_len (g # gs) in best_run (Suc i) gs (if 2 \<le> n \<and> l < n then (i, n) else (s, l)))"

definition v6_groups_string :: "16 word list \<Rightarrow> string" where
  "v6_groups_string gs =
     (let (s, l) = best_run 0 gs (255, 0); hs = map (\<lambda>g. hex (unat g)) gs in
      if l = 0 then join '':'' hs
      else join '':'' (take s hs) @ ''::'' @ join '':'' (drop (s + l) hs))"

definition zone_string :: "string \<Rightarrow> string" where
  "zone_string z = (if z = [] then [] else CHR ''%'' # z)"

fun addr_string :: "addr \<Rightarrow> string" where
  "addr_string (V4 a b c d) = v4_string a b c d"
| "addr_string (V6 gs z) = (case mapped_groups gs of
       Some (g6, g7) \<Rightarrow> ''::ffff:'' @ v4_string (hi_byte g6) (lo_byte g6) (hi_byte g7) (lo_byte g7) @ zone_string z
     | None \<Rightarrow> v6_groups_string gs @ zone_string z)"

text \<open>
  \<open>net.IP.String()\<close> of the address of an \<open>A\<close> or \<open>AAAA\<close> record: a mapped
  address prints in dotted form, a nil address as \<open><nil>\<close>.
\<close>

definition ip_string :: "addr option \<Rightarrow> string" where
  "ip_string ip = (case ip of None \<Rightarrow> ''<nil>'' | Some a \<Rightarrow> addr_string (unmap a))"

section \<open>Parsing\<close>

text \<open>
  \<open>parseIPv4Fields\<close>: the fields so far, the value and the number of digits of the
  current field, and the rest of the input.
\<close>

fun parse_v4_fields :: "8 word list \<Rightarrow> nat \<Rightarrow> nat \<Rightarrow> string \<Rightarrow> (8 word list) option" where
  "parse_v4_fields fs val n [] =
     (if length fs < 3 then None else Some (fs @ [word_of_nat val]))"
| "parse_v4_fields fs val n (c # cs) =
     (case digit_val c of
        Some d \<Rightarrow> if n = 1 \<and> val = 0 then None
                  else if 255 < val * 10 + d then None
                  else parse_v4_fields fs (val * 10 + d) (Suc n) cs
      | None \<Rightarrow> if c = CHR ''.'' then
                  (if n = 0 \<or> cs = [] then None
                   else if length fs = 3 then None
                   else parse_v4_fields (fs @ [word_of_nat val]) 0 0 cs)
                else None)"

fun v4_of_fields :: "8 word list \<Rightarrow> addr option" where
  "v4_of_fields [a, b, c, d] = Some (V4 a b c d)"
| "v4_of_fields _ = None"

definition parse_v4 :: "string \<Rightarrow> addr option" where
  "parse_v4 s = Option.bind (parse_v4_fields [] 0 0 s) v4_of_fields"

definition hex_val :: "char \<Rightarrow> nat option" where
  "hex_val c = (let n = (of_char c :: nat) in
     if 48 \<le> n \<and> n \<le> 57 then Some (n - 48)
     else if 97 \<le> n \<and> n \<le> 102 then Some (n - 87)
     else if 65 \<le> n \<and> n \<le> 70 then Some (n - 55) else None)"

text \<open>One hexadecimal group: digits read, value, rest; \<open>None\<close> for more than four digits.\<close>

fun scan_hex :: "nat \<Rightarrow> nat \<Rightarrow> string \<Rightarrow> (nat \<times> nat \<times> string) option" where
  "scan_hex off val [] = Some (off, val, [])"
| "scan_hex off val (c # cs) = (case hex_val c of
     None \<Rightarrow> Some (off, val, c # cs)
   | Some d \<Rightarrow> if 3 < off then None else scan_hex (Suc off) (val * 16 + d) cs)"

text \<open>
  The loop of \<open>parseIPv6\<close>: \<open>room\<close> is the number of groups still to fill, \<open>gs\<close> the
  groups read, \<open>ell\<close> the position of the ellipsis. It yields the unread rest, the groups
  and the ellipsis.
\<close>

fun parse_v6_groups :: "nat \<Rightarrow> 16 word list \<Rightarrow> nat option \<Rightarrow> string
    \<Rightarrow> (string \<times> 16 word list \<times> nat option) option" where
  "parse_v6_groups 0 gs ell s = Some (s, gs, ell)"
| "parse_v6_groups (Suc room) gs ell s =
     (case scan_hex 0 0 s of None \<Rightarrow> None
      | Some (off, val, rest) \<Rightarrow>
        if off = 0 then None
        else (case rest of
          [] \<Rightarrow> Some ([], gs @ [word_of_nat val], ell)
        | c # cs \<Rightarrow>
          if c = CHR ''.'' then
            (if ell = None \<and> length gs \<noteq> 6 then None
             else if room = 0 then None
             else (case parse_v4_fields [] 0 0 s of
                 Some [w, x, y, z] \<Rightarrow>
                   Some ([], gs @ [word_of_nat (unat w * 256 + unat x), word_of_nat (unat y * 256 + unat z)], ell)
               | _ \<Rightarrow> None))
          else if c \<noteq> CHR '':'' then None
          else (case cs of
              [] \<Rightarrow> None
            | d # ds \<Rightarrow>
              let gs' = gs @ [word_of_nat val] in
              if d = CHR '':'' then
                (if ell \<noteq> None then None
                 else if ds = [] then Some ([], gs', Some (length gs'))
                 else parse_v6_groups room gs' (Some (length gs')) ds)
              else parse_v6_groups room gs' ell cs)))"

definition expand_ellipsis :: "16 word list \<Rightarrow> nat option \<Rightarrow> (16 word list) option" where
  "expand_ellipsis gs ell =
     (if length gs < 8 then
        (case ell of None \<Rightarrow> None
         | Some e \<Rightarrow> Some (take e gs @ replicate (8 - length gs) 0 @ drop e gs))
      else if ell \<noteq> None then None else Some gs)"

definition parse_v6 :: "string \<Rightarrow> addr option" where
  "parse_v6 inp =
     (let (s, zone, scoped) = cut (CHR ''%'') inp in
      if scoped \<and> zone = [] then None
      else if s = ''::'' then Some (V6 (replicate 8 0) zone)
      else let (ell, body) = (if has_prefix s ''::'' then (Some 0, drop 2 s) else (None, s)) in
        (case parse_v6_groups 8 [] ell body of None \<Rightarrow> None
         | Some (rest, gs, ell') \<Rightarrow>
           if rest \<noteq> [] then None
           else map_option (\<lambda>g. V6 g zone) (expand_ellipsis gs ell')))"

fun parse_dispatch :: "string \<Rightarrow> string \<Rightarrow> addr option" where
  "parse_dispatch s [] = None"
| "parse_dispatch s (c # cs) =
     (if c = CHR ''.'' then parse_v4 s
      else if c = CHR '':'' then parse_v6 s
      else if c = CHR ''%'' then None
      else parse_dispatch s cs)"

definition parse_addr :: "string \<Rightarrow> addr option" where
  "parse_addr s = parse_dispatch s s"

section \<open>Endpoints\<close>

text \<open>The index of the last colon splits host and port.\<close>

definition split_addr_port :: "string \<Rightarrow> (string \<times> string \<times> bool) option" where
  "split_addr_port s =
     (let (rport, rip, found) = cut (CHR '':'') (rev s); ip = rev rip; port = rev rport in
      if \<not> found \<or> ip = [] \<or> port = [] then None
      else if hd ip = CHR ''['' then
        (if length ip < 2 \<or> last ip \<noteq> CHR '']'' then None
         else Some (butlast (tl ip), port, True))
      else Some (ip, port, False))"

fun parse_uint16 :: "nat \<Rightarrow> string \<Rightarrow> nat option" where
  "parse_uint16 v [] = Some v"
| "parse_uint16 v (c # cs) = (case digit_val c of None \<Rightarrow> None
     | Some d \<Rightarrow> if 65535 < v * 10 + d then None else parse_uint16 (v * 10 + d) cs)"

definition parse_addr_port :: "string \<Rightarrow> (addr \<times> nat) option" where
  "parse_addr_port s =
     (case split_addr_port s of None \<Rightarrow> None
      | Some (ip, port, v6) \<Rightarrow>
        (case (parse_uint16 0 port, parse_addr ip) of
           (Some p, Some a) \<Rightarrow> if v6 \<and> is4 a \<or> \<not> v6 \<and> is6 a then None else Some (a, p)
         | _ \<Rightarrow> None))"

definition addr_port_string :: "addr \<times> nat \<Rightarrow> string" where
  "addr_port_string ap =
     (if is4 (fst ap) then addr_string (fst ap) @ '':'' @ dec (snd ap)
      else ''['' @ addr_string (fst ap) @ '']:'' @ dec (snd ap))"

definition join_host_port :: "string \<Rightarrow> string \<Rightarrow> string" where
  "join_host_port host port =
     (if CHR '':'' \<in> set host then ''['' @ host @ '']:'' @ port else host @ '':'' @ port)"

end
