(* ===== verification/Api_Types.thy ===== *)
theory Api_Types
  imports Netaddr
begin

text \<open>
  The resources of \<open>pkg/go/api/dns/v1alpha1\<close> and \<open>pkg/go/api/hosted/v1alpha1\<close> as
  records, field by field: references, record sets, the zone unit with its status, withdrawal
  claims and waivers, and the hosted snapshot. Of the Kubernetes metadata the fields the code
  reads are kept. An optional field (pointer) is an \<open>option\<close>, a raw extension is its bytes.
\<close>

section \<open>Kubernetes metadata\<close>

type_synonym uid = string
type_synonym raw = string

datatype condition_status = ConditionTrue | ConditionFalse | ConditionUnknown

record condition =
  c_type :: string
  c_status :: condition_status
  c_reason :: string
  c_message :: string
  c_observed :: int
  c_transition :: gotime

record owner_reference =
  or_api_version :: string
  or_kind :: string
  or_name :: string
  or_uid :: uid
  or_controller :: "bool option"

record object_meta =
  om_namespace :: string
  om_name :: string
  om_uid :: uid
  om_generation :: int
  om_creation :: gotime
  om_deletion :: "gotime option"
  om_labels :: "(string \<times> string) list"
  om_annotations :: "(string \<times> string) list"
  om_finalizers :: "string list"
  om_owners :: "owner_reference list"

definition deleting :: "object_meta \<Rightarrow> bool" where
  "deleting m \<longleftrightarrow> (case om_deletion m of None \<Rightarrow> False | Some t \<Rightarrow> t \<noteq> 0)"

text \<open>Go's lookup of a missing key in a string map yields the empty string.\<close>

definition label_value :: "(string \<times> string) list \<Rightarrow> string \<Rightarrow> string" where
  "label_value m k = (case map_of m k of None \<Rightarrow> [] | Some v \<Rightarrow> v)"

section \<open>References and policies (common\_types.go)\<close>

record zone_reference =
  zr_namespace :: "string option"
  zr_name :: string

record object_reference =
  obr_namespace :: string
  obr_name :: string

record provider_reference =
  pr_name :: string
  pr_version :: string

record provider_status =
  ps_data :: raw
  ps_state :: raw

text \<open>The string types of record types and namespace policies, with their declared constants.\<close>

type_synonym record_type = string

abbreviation TypeA :: record_type where "TypeA \<equiv> ''A''"
abbreviation TypeAAAA :: record_type where "TypeAAAA \<equiv> ''AAAA''"
abbreviation TypeCNAME :: record_type where "TypeCNAME \<equiv> ''CNAME''"
abbreviation TypeNS :: record_type where "TypeNS \<equiv> ''NS''"
abbreviation TypeTXT :: record_type where "TypeTXT \<equiv> ''TXT''"
abbreviation TypeMX :: record_type where "TypeMX \<equiv> ''MX''"
abbreviation TypeCAA :: record_type where "TypeCAA \<equiv> ''CAA''"

type_synonym namespaces_from = string

abbreviation FromSame :: namespaces_from where "FromSame \<equiv> ''Same''"
abbreviation FromSelector :: namespaces_from where "FromSelector \<equiv> ''Selector''"
abbreviation FromAll :: namespaces_from where "FromAll \<equiv> ''All''"

text \<open>A label selector is opaque here: only its emptiness and its matches are used.\<close>

record label_selector =
  ls_match_labels :: "(string \<times> string) list"
  ls_match_expressions :: "string list"

record namespace_policy =
  np_from :: namespaces_from
  np_selector :: "label_selector option"

record allowed_record =
  ar_pattern :: string
  ar_types :: "record_type list"

record allowed_record_set =
  ars_selector :: label_selector
  ars_records :: "allowed_record list"

section \<open>Record sets (recordset\_types.go)\<close>

record mx_record =
  mx_preference :: int
  mx_exchange :: string

record caa_record =
  caa_flags :: int
  caa_tag :: string
  caa_value :: string

text \<open>The typed payload shared by a record set and by its item in the zone unit.\<close>

record rr_payload =
  rp_a :: "string list option"
  rp_aaaa :: "string list option"
  rp_txt :: "string list option"
  rp_cname :: "string option"
  rp_mx :: "mx_record list option"
  rp_caa :: "caa_record list option"
  rp_ns :: "string list option"

record record_set_spec =
  rs_zone_ref :: zone_reference
  rs_provider :: provider_reference
  rs_type :: record_type
  rs_name :: string
  rs_ttl :: "int option"
  rs_payload :: rr_payload
  rs_options :: raw
  rs_adoption :: raw

record record_set =
  rset_meta :: object_meta
  rset_spec :: record_set_spec

section \<open>Withdrawal claims and waivers (recordwithdrawal\_types.go)\<close>

record withdrawal_ref =
  wr_namespace :: string
  wr_name :: string
  wr_uid :: uid

record withdrawal_spec =
  ws_zone_ref :: zone_reference
  ws_name :: string
  ws_address :: string

record record_withdrawal =
  rw_meta :: object_meta
  rw_spec :: withdrawal_spec

record waiver_spec =
  wv_withdrawal_ref :: withdrawal_ref
  wv_claim_digest :: string
  wv_address :: string
  wv_reservation_ref :: withdrawal_ref
  wv_reason :: string
  wv_ticket_ref :: string
  wv_accept_risk :: bool

record withdrawal_waiver =
  ww_meta :: object_meta
  ww_spec :: waiver_spec

record waiver_reference =
  wvr_name :: string
  wvr_uid :: uid
  wvr_digest :: string
  wvr_reservation_ref :: withdrawal_ref

record unit_withdrawal =
  uw_claim_namespace :: string
  uw_claim_name :: string
  uw_claim :: withdrawal_ref
  uw_observed :: int
  uw_name :: string
  uw_address :: string
  uw_allowed :: bool
  uw_waiver :: "waiver_reference option"

section \<open>Zones and zone units (zone\_types.go, zoneunit\_types.go)\<close>

record zone_spec =
  zs_domain :: string
  zs_provider :: provider_reference
  zs_class_ref :: zone_reference
  zs_allowed :: "allowed_record_set list"
  zs_adoption :: raw

record zone_res =
  zone_meta :: object_meta
  zone_rspec :: zone_spec

record zone_class =
  zc_meta :: object_meta
  zc_provider :: provider_reference
  zc_controller :: string
  zc_identity :: "string option"
  zc_parameters :: raw
  zc_allowed_zones :: namespace_policy
  zc_conditions :: "condition list"

record unit_record_set =
  ur_namespace :: string
  ur_name :: string
  ur_uid :: uid
  ur_observed :: int
  ur_owner :: string
  ur_type :: record_type
  ur_ttl :: "int option"
  ur_payload :: rr_payload
  ur_options :: raw
  ur_adoption :: raw
  ur_allowed :: "bool option"
  ur_deletion :: bool

text \<open>\<open>ZoneUnitRecordSetSpec.IsAllowed\<close>: an unset permission is permission.\<close>

definition is_allowed :: "unit_record_set \<Rightarrow> bool" where
  "is_allowed i \<longleftrightarrow> (case ur_allowed i of None \<Rightarrow> True | Some b \<Rightarrow> b)"

record unit_record_set_status =
  us_namespace :: string
  us_name :: string
  us_uid :: uid
  us_observed :: int
  us_provider :: "provider_status option"
  us_deletion_completed :: bool
  us_conditions :: "condition list"

section \<open>Hosted snapshots (hosted/v1alpha1/types.go)\<close>

record name_server =
  nsv_name :: string
  nsv_addresses :: "string list"

record soa =
  soa_mname :: string
  soa_rname :: string
  soa_refresh :: uint32
  soa_retry :: uint32
  soa_expire :: uint32
  soa_minimum :: uint32

record soa_parameters =
  sp_rname :: string
  sp_refresh :: uint32
  sp_retry :: uint32
  sp_expire :: uint32
  sp_minimum :: uint32

record class_parameters =
  cp_name_servers :: "name_server list"
  cp_soa :: soa_parameters
  cp_default_ttl :: uint32
  cp_views :: "string list"
  cp_resolver_mode :: string
  cp_resolver_servers :: "string list"

record hosted_record =
  hr_name :: string
  hr_type :: record_type
  hr_ttl :: uint32
  hr_values :: "string list"

record hosted_spec =
  hs_domain :: string
  hs_serial :: uint32
  hs_soa :: soa
  hs_name_servers :: "name_server list"
  hs_records :: "hosted_record list"
  hs_digest :: string

record server_status =
  ss_endpoint :: string
  ss_serial :: uint32
  ss_digest :: string
  ss_observed :: gotime

record hosted_zone =
  hz_meta :: object_meta
  hz_spec :: hosted_spec
  hz_servers :: "server_status list"

definition default_ttl :: uint32 where "default_ttl = 60"
definition default_soa_refresh :: uint32 where "default_soa_refresh = 3600"
definition default_soa_retry :: uint32 where "default_soa_retry = 900"
definition default_soa_expire :: uint32 where "default_soa_expire = 1209600"
definition default_soa_minimum :: uint32 where "default_soa_minimum = 300"

end
