(* ===== verification/Probe_Types.thy ===== *)
theory Probe_Types
  imports Api_Types
begin

text \<open>
  \<open>internal/go/core/dnsprobe/types.go\<close> and \<open>policy.go\<close>: the observation types of the
  DNS probe and the canonical forms of names, address sets and resolver endpoints. A view is
  what one resolver, or one authority reached through a resolver, answered for a name.
\<close>

section \<open>Observations\<close>

record policy =
  p_mode :: string
  p_servers :: "string list"
  p_expected_ns :: "string list"

record rrsets =
  rr_a :: "string list"
  rr_aaaa :: "string list"
  rr_cname :: string

record answer_evidence =
  ae_name :: string
  ae_qtype :: string
  ae_rcode :: int
  ae_addresses :: "string list"
  ae_cname :: string
  ae_positive :: ttl
  ae_negative :: ttl
  ae_failure :: string

record view =
  v_id :: string
  v_rcode :: int
  v_a :: "string list"
  v_aaaa :: "string list"
  v_chain :: "string list"
  v_authoritative :: bool
  v_ttl :: ttl
  v_negative :: ttl
  v_failure :: string
  v_mismatch :: bool
  v_answers :: "answer_evidence list"

record authority_observation =
  ao_id :: string
  ao_nameservers :: "string list"
  ao_soa_owner :: string
  ao_authoritative :: bool
  ao_ttl :: ttl
  ao_negative :: ttl
  ao_failure :: string

record zone_evidence =
  ze_fingerprint :: string
  ze_zone :: string
  ze_views :: "authority_observation list"
  ze_authorities :: "string list"

record probe_request =
  q_name :: string
  q_zone :: string
  q_expected :: rrsets
  q_policy :: policy
  q_due :: gotime
  q_zone_only :: bool
  q_evidence :: "zone_evidence option"
  q_withdrawal :: string

record probe_result =
  r_views :: "view list"
  r_zone :: "zone_evidence option"

definition empty_view :: "string \<Rightarrow> view" where
  "empty_view i = \<lparr>v_id = i, v_rcode = 0, v_a = [], v_aaaa = [], v_chain = [], v_authoritative = False,
     v_ttl = None, v_negative = None, v_failure = [], v_mismatch = False, v_answers = []\<rparr>"

definition empty_observation :: "string \<Rightarrow> authority_observation" where
  "empty_observation i = \<lparr>ao_id = i, ao_nameservers = [], ao_soa_owner = [], ao_authoritative = False,
     ao_ttl = None, ao_negative = None, ao_failure = []\<rparr>"

section \<open>Canonical names and address sets\<close>

definition canonical_name :: "string \<Rightarrow> string" where
  "canonical_name s = trim_suffix (to_lower s) ''.''"

definition names :: "string list \<Rightarrow> string list" where
  "names vs = sort_compact (map canonical_name vs)"

definition canonical_address :: "string \<Rightarrow> string" where
  "canonical_address s = (case parse_addr s of None \<Rightarrow> s | Some ip \<Rightarrow> addr_string (unmap ip))"

definition addresses :: "string list \<Rightarrow> string list" where
  "addresses vs = sort_compact (map canonical_address vs)"

text \<open>\<open>MinTTL\<close> and \<open>maxTTL\<close> are \<open>min_ttl\<close> and \<open>max_ttl\<close> of the prelude.\<close>

section \<open>Policy\<close>

abbreviation mode_cluster :: string where "mode_cluster \<equiv> ''Cluster''"
abbreviation mode_recursive :: string where "mode_recursive \<equiv> ''Recursive''"

text \<open>One label of the name pattern: 1 to 63 characters, a letter or digit at both ends.\<close>

definition valid_label :: "string \<Rightarrow> bool" where
  "valid_label l \<longleftrightarrow> l \<noteq> [] \<and> length l \<le> 63 \<and> is_lower_alnum (hd l) \<and> is_lower_alnum (last l)
     \<and> (\<forall>c \<in> set l. is_lower_alnum c \<or> c = CHR ''-'')"

definition valid_name :: "string \<Rightarrow> bool" where
  "valid_name name \<longleftrightarrow> 0 < length name \<and> length name \<le> 253
     \<and> list_all valid_label (split_on (CHR ''.'') name) \<and> parse_addr name = None"

definition valid_server :: "string \<Rightarrow> bool" where
  "valid_server s = (case parse_addr_port s of None \<Rightarrow> False
     | Some ap \<Rightarrow> snd ap \<noteq> 0 \<and> addr_zone (fst ap) = [] \<and> addr_port_string ap = s \<and> CHR ''%'' \<notin> set s)"

fun distinct_servers :: "string list \<Rightarrow> string list \<Rightarrow> bool" where
  "distinct_servers seen [] = True"
| "distinct_servers seen (s # ss) = (valid_server s \<and> s \<notin> set seen \<and> distinct_servers (seen @ [s]) ss)"

definition validate_servers :: "string list \<Rightarrow> bool" where
  "validate_servers servers \<longleftrightarrow> servers \<noteq> [] \<and> length servers \<le> 3 \<and> distinct_servers [] servers"

record values_preview =
  vp_values :: "string list"
  vp_total :: int
  vp_truncated :: bool

section \<open>Canonical lists\<close>

text \<open>
  What \<open>Names\<close> and \<open>Addresses\<close> promise their clients: the sorted, duplicate-free list of
  the normal forms. Every comparison of observed and expected sets goes through this contract.
\<close>

locale canonical_list =
  fixes norm :: "'a \<Rightarrow> 'b::linorder"
    and canon :: "'a list \<Rightarrow> 'b list"
  assumes set_canon: "set (canon xs) = norm ` set xs"
    and sorted_canon: "sorted (canon xs)"
    and distinct_canon: "distinct (canon xs)"
begin

lemma canon_eq_iff: "canon xs = canon ys \<longleftrightarrow> norm ` set xs = norm ` set ys"
  by (metis distinct_canon set_canon sorted_canon sorted_distinct_set_unique)

lemma canon_Nil_iff: "canon xs = [] \<longleftrightarrow> xs = []"
  by (metis image_is_empty set_canon set_empty)

lemma canon_mem: "x \<in> set xs \<Longrightarrow> norm x \<in> set (canon xs)"
  by (simp add: set_canon)

end

interpretation nm: canonical_list canonical_name names
  by unfold_locales (auto simp: names_def)

interpretation ad: canonical_list canonical_address addresses
  by unfold_locales (auto simp: addresses_def)

section \<open>Facts\<close>

lemma distinct_servers_iff:
  "distinct_servers seen ss \<longleftrightarrow> (\<forall>s \<in> set ss. valid_server s \<and> s \<notin> set seen) \<and> distinct ss"
  by (induction ss arbitrary: seen) auto

lemma validate_servers_iff:
  "validate_servers ss \<longleftrightarrow> 1 \<le> length ss \<and> length ss \<le> 3 \<and> distinct ss \<and> (\<forall>s \<in> set ss. valid_server s)"
  by (cases ss) (auto simp: validate_servers_def distinct_servers_iff)

end
