(* ===== verification/Dns_Msg.thy ===== *)
theory Dns_Msg
  imports Probe_Types
begin

text \<open>
  The DNS messages the prober and the server exchange with the library
  \<open>github.com/miekg/dns\<close>: headers, the resource record types the code distinguishes, and
  messages. Code points are those of the DNS parameter registry. The functions of the library
  (parsing, packing, name comparison, transport) are parameters of the definitions that use
  them.
\<close>

section \<open>Code points\<close>

definition qtype_A :: nat where "qtype_A = 1"
definition qtype_NS :: nat where "qtype_NS = 2"
definition qtype_CNAME :: nat where "qtype_CNAME = 5"
definition qtype_SOA :: nat where "qtype_SOA = 6"
definition qtype_HINFO :: nat where "qtype_HINFO = 13"
definition qtype_MX :: nat where "qtype_MX = 15"
definition qtype_TXT :: nat where "qtype_TXT = 16"
definition qtype_AAAA :: nat where "qtype_AAAA = 28"
definition qtype_IXFR :: nat where "qtype_IXFR = 251"
definition qtype_AXFR :: nat where "qtype_AXFR = 252"
definition qtype_ANY :: nat where "qtype_ANY = 255"
definition qtype_CAA :: nat where "qtype_CAA = 257"

definition class_INET :: nat where "class_INET = 1"
definition opcode_query :: nat where "opcode_query = 0"

definition rcode_success :: int where "rcode_success = 0"
definition rcode_format_error :: int where "rcode_format_error = 1"
definition rcode_server_failure :: int where "rcode_server_failure = 2"
definition rcode_name_error :: int where "rcode_name_error = 3"
definition rcode_not_implemented :: int where "rcode_not_implemented = 4"
definition rcode_refused :: int where "rcode_refused = 5"
definition rcode_bad_vers :: int where "rcode_bad_vers = 16"

lemmas dns_codes = qtype_A_def qtype_NS_def qtype_CNAME_def qtype_SOA_def qtype_HINFO_def qtype_MX_def
  qtype_TXT_def qtype_AAAA_def qtype_IXFR_def qtype_AXFR_def qtype_ANY_def qtype_CAA_def class_INET_def
  opcode_query_def rcode_success_def rcode_format_error_def rcode_server_failure_def rcode_name_error_def
  rcode_not_implemented_def rcode_refused_def rcode_bad_vers_def

text \<open>\<open>dns.TypeToString\<close> for the two types the prober asks for.\<close>

definition qtype_string :: "nat \<Rightarrow> string" where
  "qtype_string t = (if t = qtype_A then ''A'' else if t = qtype_AAAA then ''AAAA'' else [])"

section \<open>Records and messages\<close>

record rr_header =
  rh_name :: string
  rh_class :: nat
  rh_ttl :: uint32

record soa_data =
  sd_ns :: string
  sd_mbox :: string
  sd_serial :: uint32
  sd_refresh :: uint32
  sd_retry :: uint32
  sd_expire :: uint32
  sd_minttl :: uint32

datatype rr =
    RR_A rr_header "addr option"
  | RR_AAAA rr_header "addr option"
  | RR_CNAME rr_header string
  | RR_NS rr_header string
  | RR_SOA rr_header soa_data
  | RR_MX rr_header nat string
  | RR_HINFO rr_header string string
  | RR_Other nat rr_header string

primrec rr_hdr :: "rr \<Rightarrow> rr_header" where
  "rr_hdr (RR_A h _) = h"
| "rr_hdr (RR_AAAA h _) = h"
| "rr_hdr (RR_CNAME h _) = h"
| "rr_hdr (RR_NS h _) = h"
| "rr_hdr (RR_SOA h _) = h"
| "rr_hdr (RR_MX h _ _) = h"
| "rr_hdr (RR_HINFO h _ _) = h"
| "rr_hdr (RR_Other _ h _) = h"

record question =
  qn_name :: string
  qn_type :: nat
  qn_class :: nat

record dns_msg =
  m_response :: bool
  m_opcode :: nat
  m_rcode :: int
  m_authoritative :: bool
  m_truncated :: bool
  m_question :: "question list"
  m_answer :: "rr list"
  m_ns :: "rr list"
  m_extra :: "rr list"

text \<open>
  A Go error as the code observes it: whether it is the context's deadline, whether it is a
  network timeout, and its text.
\<close>

datatype go_error = GoError (is_deadline: bool) (is_net_timeout: bool) (error_text: string)

end
