(* ===== verification/Probe_Evaluate.thy ===== *)
theory Probe_Evaluate
  imports Probe_Types
begin

text \<open>
  \<open>internal/go/core/dnsprobe/evaluate.go\<close>: bounded diagnostics and the evaluation of the
  zone's delegation. \<open>evaluate_zone\<close> returns \<open>True\<close> only for complete, agreeing and
  expected evidence, which the lemmas at the end make precise.
\<close>

section \<open>Decisions and diagnostics\<close>

record decision =
  d_status :: condition_status
  d_reason :: string
  d_message :: string
  d_actual :: "string list"
  d_missing :: "string list"
  d_extra :: "string list"
  d_chain :: "string list"
  d_views :: "string list"
  d_nameservers :: "string list"
  d_ttl :: ttl
  d_negative :: ttl

definition new_decision :: "condition_status \<Rightarrow> string \<Rightarrow> string \<Rightarrow> decision" where
  "new_decision st reason msg = \<lparr>d_status = st, d_reason = reason, d_message = msg, d_actual = [],
     d_missing = [], d_extra = [], d_chain = [], d_views = [], d_nameservers = [], d_ttl = None,
     d_negative = None\<rparr>"

definition bounded :: "string \<Rightarrow> string" where
  "bounded value = (if length value > 2048 then take 2032 value @ '' (truncated)'' else value)"

definition preview :: "string list \<Rightarrow> values_preview" where
  "preview values =
     (let shown = take 16 values in
      \<lparr>vp_values = map (\<lambda>v. if length v > 512 then take 512 v else v) shown,
       vp_total = int (length values),
       vp_truncated = (length values > 16 \<or> (\<exists>v \<in> set shown. length v > 512))\<rparr>)"

definition message_preview :: "string list \<Rightarrow> string" where
  "message_preview values =
     (let shown = take 4 values;
          base = ''['' @ join '', '' shown @ '']'';
          full = (if length values > length shown
                  then base @ '' (+'' @ dec (length values - length shown) @ '' omitted)'' else base)
      in if length full > 700 then take 680 full @ '' (truncated)'' else full)"

definition typed :: "string \<Rightarrow> string list \<Rightarrow> string list" where
  "typed kind = map (\<lambda>v. kind @ '' '' @ v)"

definition difference :: "string list \<Rightarrow> string list \<Rightarrow> string list \<times> string list" where
  "difference expected actual =
     (sort (filter (\<lambda>v. v \<notin> set actual) expected), sort (filter (\<lambda>v. v \<notin> set expected) actual))"

definition failure_codes :: "string list" where
  "failure_codes = [''timeout'', ''SERVFAIL'', ''REFUSED'', ''transport'', ''invalid-response'',
     ''resolver-config'', ''chain-limit'', ''probe-limit'']"

definition failed :: "string \<Rightarrow> string \<Rightarrow> string \<Rightarrow> decision" where
  "failed name vw failure =
     (let code = (if failure \<in> set failure_codes then failure else ''transport'') in
      new_decision ConditionUnknown ''DNSProbeFailed''
        (bounded (''DNS verification unavailable for '' @ name @ '' from '' @ vw @ '': '' @ code @ ''.'')))"

definition inconsistent :: "string \<Rightarrow> decision \<Rightarrow> decision" where
  "inconsistent name d = d\<lparr>d_status := ConditionFalse, d_reason := ''ResolutionInconsistent'',
     d_message := bounded (''DNS '' @ name @ '' differs between required resolver/authority views ''
       @ message_preview (d_views d) @ ''.'')\<rparr>"

section \<open>Zone evaluation\<close>

abbreviation recursive_id :: "string \<Rightarrow> string" where
  "recursive_id s \<equiv> ''recursive/'' @ s"

abbreviation authority_id :: "string \<Rightarrow> string" where
  "authority_id s \<equiv> ''authority/'' @ s"

text \<open>The first loop over the sorted views: \<open>Inl\<close> is an early return.\<close>

fun zone_scan :: "string \<Rightarrow> authority_observation list \<Rightarrow> decision \<Rightarrow> decision + decision" where
  "zone_scan zone [] d = Inr d"
| "zone_scan zone (v # vs) d =
     (let d1 = d\<lparr>d_views := d_views d @ [ao_id v]\<rparr> in
      if ao_failure v \<noteq> [] then Inl (failed zone (ao_id v) (ao_failure v))
      else if \<exists>n \<in> set (ao_nameservers v). \<not> valid_name (canonical_name n)
      then Inl (failed zone (ao_id v) ''invalid-response'')
      else zone_scan zone vs (d1\<lparr>d_ttl := min_ttl (d_ttl d1) (ao_ttl v),
             d_negative := min_ttl (d_negative d1) (ao_negative v)\<rparr>))"

definition zone_disagrees :: "decision \<Rightarrow> authority_observation \<Rightarrow> authority_observation \<Rightarrow> bool" where
  "zone_disagrees d first v \<longleftrightarrow> d_nameservers d \<noteq> names (ao_nameservers v)
     \<or> canonical_name (ao_soa_owner v) \<noteq> canonical_name (ao_soa_owner first)"

definition authority_seen :: "authority_observation list \<Rightarrow> string \<Rightarrow> bool" where
  "authority_seen views auth = (\<exists>v \<in> set views. ao_id v = authority_id auth \<and> ao_authoritative v)"

definition zone_mismatch :: "probe_request \<Rightarrow> decision \<Rightarrow> decision" where
  "zone_mismatch req d =
     (let expected = names (p_expected_ns (q_policy req));
          diff = difference (typed ''NS'' expected) (d_actual d)
      in d\<lparr>d_status := ConditionFalse, d_reason := ''NameserverMismatch'',
           d_missing := fst diff, d_extra := snd diff,
           d_message := bounded (''DNS '' @ q_zone req @ '' nameservers differ: expected ''
             @ message_preview expected @ ''; observed '' @ message_preview (d_nameservers d) @ ''.'')\<rparr>)"

definition evaluate_zone_with :: "probe_request \<Rightarrow> zone_evidence option \<Rightarrow> bool \<Rightarrow> decision" where
  "evaluate_zone_with req evidence require_authorities =
     (let pol = q_policy req; zone = q_zone req in
      if p_expected_ns pol = [] then new_decision ConditionTrue ''VerificationConfigured''
        (bounded (''DNS verifier configured for '' @ zone
           @ ''; authoritative nameserver checks were not requested.''))
      else (case evidence of None \<Rightarrow> failed zone ''required-views'' ''invalid-response''
        | Some ev \<Rightarrow>
          if length (ze_views ev) < length (p_servers pol) \<or> ze_views ev = []
          then failed zone ''required-views'' ''invalid-response''
          else (case find (\<lambda>s. \<not> (\<exists>v \<in> set (ze_views ev). ao_id v = recursive_id s)) (p_servers pol) of
            Some s \<Rightarrow> failed zone (recursive_id s) ''invalid-response''
          | None \<Rightarrow>
            let views = sort_key ao_id (ze_views ev) in
            (case zone_scan zone views (new_decision ConditionTrue ''NameserversVerified'' []) of
              Inl d \<Rightarrow> d
            | Inr d0 \<Rightarrow>
              let first = hd views;
                  d1 = d0\<lparr>d_nameservers := names (ao_nameservers first)\<rparr>;
                  d = d1\<lparr>d_actual := typed ''NS'' (d_nameservers d1)\<rparr> in
              if \<exists>v \<in> set (tl views). zone_disagrees d first v then inconsistent zone d
              else if canonical_name (ao_soa_owner first) \<noteq> zone \<or> d_nameservers d \<noteq> names (p_expected_ns pol)
              then zone_mismatch req d
              else if require_authorities \<and> ze_authorities ev = []
              then failed zone ''required-authorities'' ''invalid-response''
              else (case (if require_authorities
                          then find (\<lambda>a. \<not> authority_seen views a) (ze_authorities ev) else None) of
                  Some a \<Rightarrow> failed zone (authority_id a) ''invalid-response''
                | None \<Rightarrow> d\<lparr>d_message := bounded (''DNS '' @ zone
                    @ '' nameservers match expectations in every required view; no DNS changes were made.'')\<rparr>)))))"

definition evaluate_zone :: "probe_request \<Rightarrow> zone_evidence option \<Rightarrow> decision" where
  "evaluate_zone req evidence = evaluate_zone_with req evidence True"

section \<open>Lemmas\<close>

lemma length_bounded: "length (bounded s) \<le> 2048"
  by (simp add: bounded_def)

lemma length_message_preview: "length (message_preview vs) \<le> 700"
  by (simp add: message_preview_def Let_def)

lemma new_decision_simps [simp, go_simps]:
  "d_status (new_decision st r m) = st" "d_reason (new_decision st r m) = r"
  "d_message (new_decision st r m) = m" "d_views (new_decision st r m) = []"
  "d_ttl (new_decision st r m) = None" "d_negative (new_decision st r m) = None"
  by (simp_all add: new_decision_def)

lemma failed_simps [simp, go_simps]:
  "d_status (failed n v f) = ConditionUnknown" "d_reason (failed n v f) = ''DNSProbeFailed''"
  by (simp_all add: failed_def Let_def)

lemma inconsistent_status [simp, go_simps]: "d_status (inconsistent n d) = ConditionFalse"
  by (simp add: inconsistent_def)

lemma zone_mismatch_status [simp, go_simps]: "d_status (zone_mismatch r d) = ConditionFalse"
  by (simp add: zone_mismatch_def Let_def)

lemma difference_empty_iff:
  "difference expected actual = ([], []) \<longleftrightarrow> set expected = set actual"
  by (auto simp: difference_def filter_empty_conv
    simp flip: set_empty)

lemma difference_sets:
  "set (fst (difference e a)) = set e - set a" "set (snd (difference e a)) = set a - set e"
  by (auto simp: difference_def)

lemma zone_scan_Inl: "zone_scan zone vs d = Inl d' \<Longrightarrow> d_status d' = ConditionUnknown"
  by (induction zone vs d rule: zone_scan.induct) (auto simp: Let_def split: if_splits)

lemma zone_scan_Inr:
  "zone_scan zone vs d = Inr d' \<Longrightarrow>
     d_status d' = d_status d \<and> d_views d' = d_views d @ map ao_id vs \<and> (\<forall>v \<in> set vs. ao_failure v = [])"
  by (induction zone vs d rule: zone_scan.induct) (auto simp: Let_def split: if_splits)

lemma find_None_all: "find P xs = None \<Longrightarrow> x \<in> set xs \<Longrightarrow> \<not> P x"
  by (auto simp: find_None_iff)

section \<open>What a verified zone is\<close>

text \<open>
  The specification of a successful evaluation: every required resolver is among the views,
  every view succeeded with valid name servers, all of them equal to the expected set, every
  SOA owner is the zone, and (when authorities are required) each authority answered
  authoritatively.
\<close>

definition zone_verified :: "probe_request \<Rightarrow> bool \<Rightarrow> zone_evidence \<Rightarrow> bool" where
  "zone_verified req require_authorities ev \<longleftrightarrow>
     length (p_servers (q_policy req)) \<le> length (ze_views ev) \<and> ze_views ev \<noteq> []
   \<and> (\<forall>s \<in> set (p_servers (q_policy req)). \<exists>v \<in> set (ze_views ev). ao_id v = recursive_id s)
   \<and> (\<forall>v \<in> set (ze_views ev). ao_failure v = []
        \<and> (\<forall>n \<in> set (ao_nameservers v). valid_name (canonical_name n))
        \<and> names (ao_nameservers v) = names (p_expected_ns (q_policy req))
        \<and> canonical_name (ao_soa_owner v) = q_zone req)
   \<and> (require_authorities \<longrightarrow> ze_authorities ev \<noteq> []
        \<and> (\<forall>a \<in> set (ze_authorities ev). \<exists>v \<in> set (ze_views ev). ao_id v = authority_id a \<and> ao_authoritative v))"

lemma zone_scan_ok:
  "(\<forall>v \<in> set vs. ao_failure v = [] \<and> (\<forall>n \<in> set (ao_nameservers v). valid_name (canonical_name n)))
     \<longleftrightarrow> (\<exists>d'. zone_scan zone vs d = Inr d')"
  by (induction zone vs d rule: zone_scan.induct) (auto simp: Let_def)

lemma zone_agreement:
  assumes "views \<noteq> []" "d_nameservers d = names (ao_nameservers (hd views))"
  shows "\<not> (\<exists>v \<in> set (tl views). zone_disagrees d (hd views) v)
      \<and> canonical_name (ao_soa_owner (hd views)) = zone \<and> d_nameservers d = e
    \<longleftrightarrow> (\<forall>v \<in> set views. names (ao_nameservers v) = e \<and> canonical_name (ao_soa_owner v) = zone)"
  using assms by (cases views) (auto simp: zone_disagrees_def)

lemma evaluate_zone_with_true_iff:
  assumes expected: "p_expected_ns (q_policy req) \<noteq> []"
  shows "d_status (evaluate_zone_with req evidence ra) = ConditionTrue
     \<longleftrightarrow> (\<exists>ev. evidence = Some ev \<and> zone_verified req ra ev)"
proof (cases evidence)
  case None
  then show ?thesis using expected by (simp add: evaluate_zone_with_def Let_def)
next
  case (Some ev)
  define views where "views = sort_key ao_id (ze_views ev)"
  have set_views: "set views = set (ze_views ev)" by (simp add: views_def)
  define d0 where "d0 = new_decision ConditionTrue ''NameserversVerified'' []"
  show ?thesis
  proof (cases "length (p_servers (q_policy req)) \<le> length (ze_views ev) \<and> ze_views ev \<noteq> []
      \<and> (\<forall>s \<in> set (p_servers (q_policy req)). \<exists>v \<in> set (ze_views ev). ao_id v = recursive_id s)")
    case False
    then show ?thesis using expected Some
      by (auto simp: evaluate_zone_with_def Let_def zone_verified_def find_None_iff split: option.splits)
  next
    case pre: True
    then have find: "find (\<lambda>s. \<not> (\<exists>v \<in> set (ze_views ev). ao_id v = recursive_id s)) (p_servers (q_policy req)) = None"
      by (auto simp: find_None_iff)
    have ne: "views \<noteq> []" using pre by (simp add: views_def) (metis length_0_conv length_sort)
    show ?thesis
    proof (cases "zone_scan (q_zone req) views d0")
      case (Inl d)
      then have "\<not> (\<forall>v \<in> set views. ao_failure v = [] \<and> (\<forall>n \<in> set (ao_nameservers v). valid_name (canonical_name n)))"
        using zone_scan_ok [of views "q_zone req" d0] by auto
      moreover have "d_status d = ConditionUnknown" using Inl by (rule zone_scan_Inl)
      ultimately show ?thesis using expected Some pre find Inl set_views
        by (auto simp: evaluate_zone_with_def Let_def zone_verified_def d0_def views_def)
    next
      case (Inr d1)
      then have ok: "\<forall>v \<in> set views. ao_failure v = [] \<and> (\<forall>n \<in> set (ao_nameservers v). valid_name (canonical_name n))"
        using zone_scan_ok [of views "q_zone req" d0] by auto
      have st: "d_status d1 = ConditionTrue"
        using zone_scan_Inr [OF Inr] by (simp add: d0_def)
      let ?d = "d1\<lparr>d_nameservers := names (ao_nameservers (hd views)),
                   d_actual := typed ''NS'' (names (ao_nameservers (hd views)))\<rparr>"
      note agree = zone_agreement [OF ne, of ?d "q_zone req" "names (p_expected_ns (q_policy req))"]
      show ?thesis using expected Some pre find Inr ok st set_views agree
        by (auto simp: evaluate_zone_with_def Let_def zone_verified_def authority_seen_def find_None_iff find_Some_iff
              simp flip: d0_def views_def split: option.splits if_splits)
    qed
  qed
qed

section \<open>Properties\<close>

text \<open>
  C40. With expected name servers, the delegation of a zone is verified exactly when the evidence
  is present and complete, agrees in every view with the expected set and the zone's SOA, and
  every listed authority has answered authoritatively.
\<close>

theorem evaluate_zone_exact:
  assumes "p_expected_ns (q_policy req) \<noteq> []"
  shows "d_status (evaluate_zone req evidence) = ConditionTrue
     \<longleftrightarrow> (\<exists>ev. evidence = Some ev \<and> zone_verified req True ev)"
  unfolding evaluate_zone_def by (rule evaluate_zone_with_true_iff [OF assms])

definition demo_observation :: "string \<Rightarrow> authority_observation" where
  "demo_observation i = (empty_observation i)\<lparr>ao_nameservers := [''ns1.example.com'', ''ns2.example.com''],
     ao_soa_owner := ''example.com'', ao_authoritative := True\<rparr>"

definition demo_zone_request :: probe_request where
  "demo_zone_request = \<lparr>q_name = ''example.com'', q_zone = ''example.com'',
     q_expected = \<lparr>rr_a = [], rr_aaaa = [], rr_cname = []\<rparr>,
     q_policy = \<lparr>p_mode = ''Recursive'', p_servers = [''10.0.0.1:53''],
                 p_expected_ns = [''NS2.example.com.'', ''ns1.example.com'']\<rparr>,
     q_due = 0, q_zone_only = True, q_evidence = None, q_withdrawal = []\<rparr>"

definition demo_zone_evidence :: zone_evidence where
  "demo_zone_evidence = \<lparr>ze_fingerprint = [], ze_zone = ''example.com'',
     ze_views = [demo_observation ''recursive/10.0.0.1:53'', demo_observation ''authority/192.0.2.53:53''],
     ze_authorities = [''192.0.2.53:53'']\<rparr>"

theorem evaluate_zone_exact_witness: "zone_verified demo_zone_request True demo_zone_evidence"
proof -
  have "p_expected_ns (q_policy demo_zone_request) \<noteq> []" by (simp add: demo_zone_request_def)
  moreover have "d_status (evaluate_zone demo_zone_request (Some demo_zone_evidence)) = ConditionTrue" by code_simp
  ultimately show ?thesis using evaluate_zone_exact [of demo_zone_request "Some demo_zone_evidence"] by simp
qed

end
