(* ===== verification/Probe_Wire.thy ===== *)
theory Probe_Wire
  imports Dns_Msg Probe_Evaluate
begin

text \<open>
  \<open>internal/go/core/dnsprobe/wire.go\<close>: one probe session over the network, and the query
  evidence of \<open>withdrawal.go\<close> it collects. The transport, the rate limiter and the digest are
  parameters (\<open>wire_env\<close>); each use of the network or the limiter is numbered by the
  session, so the environment may answer differently every time.
\<close>

section \<open>Session and environment\<close>

datatype transport = UDP | TCP

record wire_env =
  we_fqdn :: "string \<Rightarrow> string"
  we_slot :: "go_error option"
  we_wait :: "nat \<Rightarrow> go_error option"
  we_send :: "nat \<Rightarrow> transport \<Rightarrow> string \<Rightarrow> question \<Rightarrow> bool \<Rightarrow> dns_msg option \<times> go_error option"
  we_fingerprint :: "policy \<Rightarrow> string"

type_synonym question_key = "string \<times> string \<times> nat"

record wire_session =
  sn_first_token :: bool
  sn_answers :: "(question_key \<times> dns_msg) list"
  sn_qtypes :: "nat \<Rightarrow> nat"
  sn_tick :: nat

definition new_session :: "nat \<Rightarrow> wire_session" where
  "new_session n = \<lparr>sn_first_token = True, sn_answers = [], sn_qtypes = (\<lambda>_. 0), sn_tick = n\<rparr>"

definition max_cnames :: nat where "max_cnames = 8"

section \<open>Query evidence (answerEvidence)\<close>

definition evidence_rr :: "string \<Rightarrow> nat \<Rightarrow> rr \<Rightarrow> answer_evidence \<Rightarrow> answer_evidence" where
  "evidence_rr name qtype r ans =
     (let finish = (\<lambda>an. an\<lparr>ae_failure := (if rh_class (rr_hdr r) \<noteq> class_INET then ''invalid-response'' else ae_failure an),
                          ae_positive := max_ttl (ae_positive an) (Some (rh_ttl (rr_hdr r)))\<rparr>) in
      if canonical_name (rh_name (rr_hdr r)) \<noteq> name then ans
      else (case r of
        RR_CNAME _ t \<Rightarrow>
          (let target = canonical_name t in
           finish (ans\<lparr>ae_failure := (if ae_cname ans \<noteq> [] \<and> ae_cname ans \<noteq> target then ''invalid-response'' else ae_failure ans),
                       ae_cname := target\<rparr>))
      | RR_A _ ip \<Rightarrow>
          finish (ans\<lparr>ae_failure := (if qtype \<noteq> qtype_A then ''invalid-response'' else ae_failure ans),
                      ae_addresses := ae_addresses ans @ [ip_string ip]\<rparr>)
      | RR_AAAA _ ip \<Rightarrow>
          finish (ans\<lparr>ae_failure := (if qtype \<noteq> qtype_AAAA then ''invalid-response'' else ae_failure ans),
                      ae_addresses := ae_addresses ans @ [ip_string ip]\<rparr>)
      | _ \<Rightarrow> ans))"

definition evidence_soa :: "string \<Rightarrow> rr \<Rightarrow> answer_evidence \<Rightarrow> answer_evidence" where
  "evidence_soa name r ans =
     (case r of RR_SOA h sd \<Rightarrow>
        (let owner = canonical_name (rh_name h) in
         if (owner \<noteq> [] \<and> owner \<noteq> name \<and> \<not> has_suffix name (''.'' @ owner)) \<or> rh_class h \<noteq> class_INET
            \<or> \<not> valid_name (canonical_name (sd_ns sd)) \<or> \<not> valid_name (canonical_name (sd_mbox sd))
         then ans\<lparr>ae_failure := ''invalid-response''\<rparr>
         else ans\<lparr>ae_negative := max_ttl (ae_negative ans) (Some (min (rh_ttl h) (sd_minttl sd)))\<rparr>)
      | _ \<Rightarrow> ans)"

definition answer_evidence_of :: "dns_msg \<Rightarrow> string \<Rightarrow> nat \<Rightarrow> answer_evidence" where
  "answer_evidence_of reply name qtype =
     (let a0 = \<lparr>ae_name = name, ae_qtype = qtype_string qtype, ae_rcode = m_rcode reply, ae_addresses = [],
                ae_cname = [], ae_positive = None, ae_negative = None, ae_failure = []\<rparr>;
          a1 = fold (evidence_rr name qtype) (m_answer reply) a0;
          a2 = (if ae_cname a1 \<noteq> [] \<and> ae_addresses a1 \<noteq> [] then a1\<lparr>ae_failure := ''invalid-response''\<rparr> else a1)
      in if m_rcode reply = rcode_name_error \<or> (ae_cname a2 = [] \<and> ae_addresses a2 = [])
         then fold (evidence_soa name) (m_ns reply) a2 else a2)"

section \<open>One exchange\<close>

text \<open>The rate limiter and the network each consume one tick of the environment.\<close>

definition tick :: "wire_session \<Rightarrow> wire_session" where
  "tick s = s\<lparr>sn_tick := Suc (sn_tick s)\<rparr>"

definition send_query :: "wire_env \<Rightarrow> wire_session \<Rightarrow> string \<Rightarrow> question \<Rightarrow> bool
    \<Rightarrow> wire_session \<times> dns_msg option \<times> go_error option" where
  "send_query env s server q rd =
     (case we_send env (sn_tick s) UDP server q rd of (reply, err) \<Rightarrow>
        let s1 = tick s in
        if err = None \<and> (case reply of None \<Rightarrow> False | Some m \<Rightarrow> m_truncated m) then
          (case we_wait env (sn_tick s1) of
             Some e \<Rightarrow> (tick s1, reply, Some e)
           | None \<Rightarrow> (case we_send env (sn_tick (tick s1)) TCP server q rd of (r, e) \<Rightarrow> (tick (tick s1), r, e)))
        else (s1, reply, err))"

definition classify :: "question \<Rightarrow> dns_msg option \<Rightarrow> go_error option \<Rightarrow> string" where
  "classify q reply err =
     (case err of
        Some e \<Rightarrow> if is_deadline e \<or> is_net_timeout e then ''timeout'' else ''transport''
      | None \<Rightarrow> (case reply of None \<Rightarrow> ''invalid-response''
          | Some m \<Rightarrow>
            if m_truncated m \<or> \<not> m_response m \<or> m_opcode m \<noteq> opcode_query \<or> m_question m \<noteq> [q]
            then ''invalid-response''
            else if m_rcode m = rcode_success \<or> m_rcode m = rcode_name_error then []
            else if m_rcode m = rcode_server_failure then ''SERVFAIL''
            else if m_rcode m = rcode_refused then ''REFUSED''
            else ''invalid-response''))"

definition exchange :: "wire_env \<Rightarrow> wire_session \<Rightarrow> string \<Rightarrow> string \<Rightarrow> nat \<Rightarrow> bool
    \<Rightarrow> wire_session \<times> dns_msg option \<times> string" where
  "exchange env s server name qtype recursive =
     (let key = (server, name, qtype) in
      case (if recursive then None else map_of (sn_answers s) key) of
        Some reply \<Rightarrow> (s, Some reply, [])
      | None \<Rightarrow>
        (case (if sn_first_token s then (s\<lparr>sn_first_token := False\<rparr>, None)
               else (tick s, we_wait env (sn_tick s))) of
           (s1, Some e) \<Rightarrow> (s1, None, ''timeout'')
         | (s1, None) \<Rightarrow>
           (let q = \<lparr>qn_name = we_fqdn env name, qn_type = qtype, qn_class = class_INET\<rparr>;
                s2 = s1\<lparr>sn_qtypes := (sn_qtypes s1)(qtype := Suc (sn_qtypes s1 qtype))\<rparr> in
            case send_query env s2 server q recursive of (s3, reply, err) \<Rightarrow>
              let failure = classify q reply err in
              if failure = [] \<and> \<not> recursive
              then (s3\<lparr>sn_answers := (case reply of None \<Rightarrow> sn_answers s3 | Some m \<Rightarrow> (key, m) # sn_answers s3)\<rparr>,
                    reply, failure)
              else (s3, reply, failure))))"

section \<open>Resolving a name in one view\<close>

definition in_zone :: "string \<Rightarrow> string \<Rightarrow> bool" where
  "in_zone name zone \<longleftrightarrow> name = zone \<or> has_suffix name (''.'' @ zone)"

definition negative_ttl :: "dns_msg \<Rightarrow> ttl" where
  "negative_ttl reply = fold (\<lambda>r t. case r of RR_SOA h sd \<Rightarrow> min_ttl t (Some (min (rh_ttl h) (sd_minttl sd)))
     | _ \<Rightarrow> t) (m_ns reply) None"

text \<open>The records of the current owner: CNAME targets, addresses and the count of both.\<close>

record owner_answers =
  oa_targets :: "string list"
  oa_a :: "string list"
  oa_aaaa :: "string list"
  oa_count :: nat
  oa_ttl :: ttl

definition scan_rr :: "string \<Rightarrow> rr \<Rightarrow> owner_answers \<Rightarrow> owner_answers" where
  "scan_rr current r acc =
     (let bump = (\<lambda>x. x\<lparr>oa_count := Suc (oa_count x), oa_ttl := min_ttl (oa_ttl x) (Some (rh_ttl (rr_hdr r)))\<rparr>) in
      if canonical_name (rh_name (rr_hdr r)) \<noteq> current then acc
      else (case r of
        RR_CNAME _ t \<Rightarrow> bump (acc\<lparr>oa_targets := oa_targets acc @ [canonical_name t]\<rparr>)
      | RR_A _ ip \<Rightarrow> bump (acc\<lparr>oa_a := oa_a acc @ [ip_string ip]\<rparr>)
      | RR_AAAA _ ip \<Rightarrow> bump (acc\<lparr>oa_aaaa := oa_aaaa acc @ [ip_string ip]\<rparr>)
      | _ \<Rightarrow> acc))"

text \<open>One query of the inner loop; \<open>None\<close> in the last component is its early return.\<close>

definition resolve_query :: "wire_env \<Rightarrow> wire_session \<Rightarrow> view \<Rightarrow> string \<Rightarrow> bool \<Rightarrow> string \<Rightarrow> nat
    \<Rightarrow> owner_answers \<Rightarrow> wire_session \<times> view \<times> (int \<times> owner_answers) option" where
  "resolve_query env s v server rd current qtype acc =
     (case exchange env s server current qtype rd of (s1, reply, failure) \<Rightarrow>
        (case reply of
           None \<Rightarrow> (s1, v\<lparr>v_failure := failure\<rparr>, None)
         | Some m \<Rightarrow>
           if failure \<noteq> [] then (s1, v\<lparr>v_failure := failure\<rparr>, None)
           else if \<not> rd \<and> \<not> m_authoritative m then (s1, v\<lparr>v_failure := ''invalid-response''\<rparr>, None)
           else
             let v1 = (if rd then v else v\<lparr>v_authoritative := True\<rparr>);
                 v2 = v1\<lparr>v_answers := v_answers v1 @ [answer_evidence_of m current qtype]\<rparr>;
                 acc1 = fold (scan_rr current) (m_answer m) (acc\<lparr>oa_count := 0, oa_ttl := v_ttl v2\<rparr>);
                 v3 = v2\<lparr>v_ttl := oa_ttl acc1\<rparr>;
                 v4 = (if m_rcode m = rcode_name_error \<or> oa_count acc1 = 0
                       then v3\<lparr>v_negative := min_ttl (v_negative v3) (negative_ttl m)\<rparr> else v3)
             in (s1, v4, Some (m_rcode m, acc1))))"

definition empty_owner :: owner_answers where
  "empty_owner = \<lparr>oa_targets = [], oa_a = [], oa_aaaa = [], oa_count = 0, oa_ttl = None\<rparr>"

text \<open>Both queries for the current owner; \<open>None\<close> when one of them ended the resolution.\<close>

definition resolve_owner :: "wire_env \<Rightarrow> wire_session \<Rightarrow> view \<Rightarrow> string \<Rightarrow> bool \<Rightarrow> string
    \<Rightarrow> wire_session \<times> view \<times> (int \<times> int \<times> owner_answers) option" where
  "resolve_owner env s v server rd current =
     (case resolve_query env s v server rd current qtype_A empty_owner of
        (s1, v1, None) \<Rightarrow> (s1, v1, None)
      | (s1, v1, Some (rc1, acc1)) \<Rightarrow>
        (case resolve_query env s1 v1 server rd current qtype_AAAA acc1 of
           (s2, v2, None) \<Rightarrow> (s2, v2, None)
         | (s2, v2, Some (rc2, acc2)) \<Rightarrow> (s2, v2, Some (rc1, rc2, acc2))))"

lemma resolve_query_chain [simp]:
  "resolve_query env s v server rd current qt acc = (s', v', r) \<Longrightarrow> v_chain v' = v_chain v"
  by (auto simp: resolve_query_def Let_def split: prod.splits option.splits if_splits)

lemma resolve_owner_chain:
  "resolve_owner env s v server rd current = (s', v', r) \<Longrightarrow> v_chain v' = v_chain v"
  by (auto simp: resolve_owner_def split: prod.splits option.splits)

text \<open>
  What follows the two queries: the resolution ends (\<open>Inl\<close>) or goes on at the single
  CNAME target (\<open>Inr\<close>).
\<close>

definition owner_next :: "view \<Rightarrow> int \<Rightarrow> int \<Rightarrow> owner_answers \<Rightarrow> view + (view \<times> string)" where
  "owner_next v1 rc1 rc2 acc =
     (if rc1 \<noteq> rc2 then Inl (v1\<lparr>v_failure := ''invalid-response''\<rparr>)
      else
        let v2 = v1\<lparr>v_rcode := rc1\<rparr>; targets = names (oa_targets acc) in
        if targets = [] then Inl (v2\<lparr>v_a := addresses (oa_a acc), v_aaaa := addresses (oa_aaaa acc)\<rparr>)
        else if length targets \<noteq> 1 \<or> length (oa_a acc) + length (oa_aaaa acc) \<noteq> 0
        then Inl (v2\<lparr>v_mismatch := True, v_chain := v_chain v2 @ targets\<rparr>)
        else
          let v3 = v2\<lparr>v_chain := v_chain v2 @ [hd targets]\<rparr> in
          if length (v_chain v3) > max_cnames then Inl (v3\<lparr>v_failure := ''chain-limit''\<rparr>)
          else Inr (v3, hd targets))"

lemma owner_next_Inr:
  "owner_next v1 rc1 rc2 acc = Inr (v3, t) \<Longrightarrow>
     rc1 = rc2 \<and> v3 = v1\<lparr>v_rcode := rc1, v_chain := v_chain v1 @ [t]\<rparr> \<and> length (v_chain v1) < max_cnames"
  by (auto simp: owner_next_def Let_def split: if_splits)

definition at_authority :: "string \<Rightarrow> string \<Rightarrow> string \<Rightarrow> bool" where
  "at_authority authority zone current \<longleftrightarrow> authority \<noteq> [] \<and> in_zone current zone"

function resolve_loop :: "wire_env \<Rightarrow> string \<Rightarrow> string \<Rightarrow> string \<Rightarrow> wire_session \<Rightarrow> view \<Rightarrow> string
    \<Rightarrow> string list \<Rightarrow> wire_session \<times> view" where
  "resolve_loop env recursive authority zone s v current seen =
     (if current \<in> set seen then (s, v\<lparr>v_mismatch := True\<rparr>)
      else
        (case resolve_owner env s v (if at_authority authority zone current then authority else recursive)
                (\<not> at_authority authority zone current) current of
           (s1, v1, None) \<Rightarrow> (s1, v1)
         | (s1, v1, Some (rc1, rc2, acc)) \<Rightarrow>
           (case owner_next v1 rc1 rc2 acc of
              Inl v2 \<Rightarrow> (s1, v2)
            | Inr (v2, target) \<Rightarrow>
              resolve_loop env recursive authority zone s1 v2 target (current # seen))))"
  by pat_completeness auto
termination
  by (relation "measure (\<lambda>(env, recursive, authority, zone, s, v, current, seen). max_cnames - length (v_chain v))")
     (auto dest!: resolve_owner_chain [OF sym] owner_next_Inr)

declare resolve_loop.simps [simp del]

definition view_id :: "string \<Rightarrow> string \<Rightarrow> string" where
  "view_id recursive authority =
     (if authority = [] then recursive_id recursive else authority_id authority @ ''/via/'' @ recursive)"

definition resolve :: "wire_env \<Rightarrow> wire_session \<Rightarrow> string \<Rightarrow> string \<Rightarrow> string \<Rightarrow> string
    \<Rightarrow> wire_session \<times> view" where
  "resolve env s name recursive authority zone =
     resolve_loop env recursive authority zone s (empty_view (view_id recursive authority)) (canonical_name name) []"

section \<open>Delegation of the zone\<close>

text \<open>One apex query; the last component says whether the loop goes on.\<close>

definition apex_rr :: "string \<Rightarrow> rr \<Rightarrow> authority_observation \<Rightarrow> authority_observation" where
  "apex_rr zone r ob =
     (let bump = (\<lambda>o1. o1\<lparr>ao_ttl := min_ttl (ao_ttl o1) (Some (rh_ttl (rr_hdr r)))\<rparr>) in
      if canonical_name (rh_name (rr_hdr r)) \<noteq> zone then ob
      else (case r of
        RR_NS _ ns \<Rightarrow> bump (ob\<lparr>ao_nameservers := ao_nameservers ob @ [canonical_name ns]\<rparr>)
      | RR_SOA h _ \<Rightarrow> bump (ob\<lparr>ao_soa_owner := canonical_name (rh_name h)\<rparr>)
      | _ \<Rightarrow> ob))"

definition apex_query :: "wire_env \<Rightarrow> wire_session \<Rightarrow> string \<Rightarrow> string \<Rightarrow> bool \<Rightarrow> authority_observation
    \<Rightarrow> nat \<Rightarrow> wire_session \<times> authority_observation \<times> bool" where
  "apex_query env s server zone rd ob qtype =
     (case exchange env s server zone qtype rd of (s1, reply, failure) \<Rightarrow>
        (case reply of
           None \<Rightarrow> (s1, ob\<lparr>ao_failure := failure\<rparr>, False)
         | Some m \<Rightarrow>
           if failure \<noteq> [] then (s1, ob\<lparr>ao_failure := failure\<rparr>, False)
           else if \<not> rd \<and> \<not> m_authoritative m then (s1, ob\<lparr>ao_failure := ''invalid-response''\<rparr>, False)
           else (s1, fold (apex_rr zone) (m_answer m)
                  (ob\<lparr>ao_authoritative := m_authoritative m,
                      ao_negative := min_ttl (ao_negative ob) (negative_ttl m)\<rparr>), True)))"

definition apex :: "wire_env \<Rightarrow> wire_session \<Rightarrow> string \<Rightarrow> string \<Rightarrow> bool
    \<Rightarrow> wire_session \<times> authority_observation" where
  "apex env s server zone rd =
     (case apex_query env s server zone rd
             (empty_observation (if rd then recursive_id server else authority_id server)) qtype_NS of
        (s1, ob1, False) \<Rightarrow> (s1, ob1)
      | (s1, ob1, True) \<Rightarrow>
        (case apex_query env s1 server zone rd ob1 qtype_SOA of
           (s2, ob2, False) \<Rightarrow> (s2, ob2)
         | (s2, ob2, True) \<Rightarrow> (s2, ob2\<lparr>ao_nameservers := names (ao_nameservers ob2)\<rparr>)))"

fun apex_all :: "wire_env \<Rightarrow> wire_session \<Rightarrow> string \<Rightarrow> bool \<Rightarrow> string list
    \<Rightarrow> wire_session \<times> authority_observation list" where
  "apex_all env s zone rd [] = (s, [])"
| "apex_all env s zone rd (server # ss) =
     (case apex env s server zone rd of (s1, ob) \<Rightarrow>
      case apex_all env s1 zone rd ss of (s2, obs) \<Rightarrow> (s2, ob # obs))"

definition add_view :: "zone_evidence \<Rightarrow> string \<Rightarrow> string \<Rightarrow> zone_evidence" where
  "add_view ev i failure = ev\<lparr>ze_views := ze_views ev @ [(empty_observation i)\<lparr>ao_failure := failure\<rparr>]\<rparr>"

text \<open>
  The addresses of one expected name server in every resolver; \<open>None\<close> is the early return.
\<close>

fun zone_servers :: "wire_env \<Rightarrow> wire_session \<Rightarrow> string \<Rightarrow> nat \<Rightarrow> string list \<Rightarrow> zone_evidence \<Rightarrow> string list
    \<Rightarrow> wire_session \<times> zone_evidence \<times> string list option" where
  "zone_servers env s host i [] ev addrs = (s, ev, Some addrs)"
| "zone_servers env s host i (server # ss) ev addrs =
     (case resolve env s host server [] [] of (s1, v) \<Rightarrow>
        if v_failure v \<noteq> [] \<or> v_mismatch v \<or> v_rcode v \<noteq> rcode_success \<or> length (v_a v) + length (v_aaaa v) = 0
        then (s1, add_view ev (v_id v) (if v_failure v = [] then ''invalid-response'' else v_failure v), None)
        else zone_servers env s1 host (Suc i) ss
               (ev\<lparr>ze_views := (ze_views ev)[i := (ze_views ev ! i)\<lparr>ao_ttl := min_ttl (ao_ttl (ze_views ev ! i)) (v_ttl v)\<rparr>]\<rparr>)
               (addrs @ v_a v @ v_aaaa v))"

fun zone_hosts :: "wire_env \<Rightarrow> wire_session \<Rightarrow> string list \<Rightarrow> string list \<Rightarrow> zone_evidence
    \<Rightarrow> wire_session \<times> zone_evidence \<times> bool" where
  "zone_hosts env s servers [] ev = (s, ev, True)"
| "zone_hosts env s servers (host # hs) ev =
     (case zone_servers env s host 0 servers ev [] of
        (s1, ev1, None) \<Rightarrow> (s1, ev1, False)
      | (s1, ev1, Some addrs) \<Rightarrow>
        let as = addresses addrs in
        if length as > 2 then (s1, add_view ev1 (authority_id host) ''probe-limit'', False)
        else zone_hosts env s1 servers hs
               (ev1\<lparr>ze_authorities := ze_authorities ev1 @ map (\<lambda>a. join_host_port a ''53'') as\<rparr>))"

definition zone_probe :: "wire_env \<Rightarrow> wire_session \<Rightarrow> probe_request \<Rightarrow> wire_session \<times> zone_evidence" where
  "zone_probe env s req =
     (let pol = q_policy req;
          ev0 = \<lparr>ze_fingerprint = we_fingerprint env pol, ze_zone = q_zone req, ze_views = [], ze_authorities = []\<rparr> in
      if p_expected_ns pol = [] then (s, ev0)
      else (case apex_all env s (q_zone req) True (p_servers pol) of (s1, obs) \<Rightarrow>
        let ev1 = ev0\<lparr>ze_views := obs\<rparr> in
        if d_status (evaluate_zone_with req (Some ev1) False) \<noteq> ConditionTrue then (s1, ev1)
        else (case zone_hosts env s1 (p_servers pol) (p_expected_ns pol) ev1 of
            (s2, ev2, False) \<Rightarrow> (s2, ev2)
          | (s2, ev2, True) \<Rightarrow>
            let ev3 = ev2\<lparr>ze_authorities := sort_compact (ze_authorities ev2)\<rparr> in
            (case apex_all env s2 (q_zone req) False (ze_authorities ev3) of (s3, obs3) \<Rightarrow>
              (s3, ev3\<lparr>ze_views := ze_views ev3 @ obs3\<rparr>)))))"

section \<open>Probe\<close>

definition error_new :: "string \<Rightarrow> go_error" where
  "error_new t = GoError False False t"

fun resolve_each :: "wire_env \<Rightarrow> wire_session \<Rightarrow> string \<Rightarrow> string list \<Rightarrow> string \<Rightarrow> string
    \<Rightarrow> wire_session \<times> view list" where
  "resolve_each env s name [] authority zone = (s, [])"
| "resolve_each env s name (server # ss) authority zone =
     (case resolve env s name server authority zone of (s1, v) \<Rightarrow>
      case resolve_each env s1 name ss authority zone of (s2, vs) \<Rightarrow> (s2, v # vs))"

text \<open>A chain that leaves the zone, or a withdrawal, is observed through every resolver.\<close>

definition foreign :: "probe_request \<Rightarrow> view \<Rightarrow> bool" where
  "foreign req v \<longleftrightarrow> q_withdrawal req \<noteq> [] \<or> (\<exists>t \<in> set (v_chain v). \<not> in_zone t (q_zone req))"

fun probe_authorities :: "wire_env \<Rightarrow> wire_session \<Rightarrow> probe_request \<Rightarrow> string list
    \<Rightarrow> wire_session \<times> view list" where
  "probe_authorities env s req [] = (s, [])"
| "probe_authorities env s req (a # as) =
     (case resolve env s (q_name req) (hd (p_servers (q_policy req))) a (q_zone req) of (s1, v) \<Rightarrow>
      case (if foreign req v then resolve_each env s1 (q_name req) (tl (p_servers (q_policy req))) a (q_zone req)
            else (s1, [])) of (s2, vs) \<Rightarrow>
      case probe_authorities env s2 req as of (s3, ws) \<Rightarrow> (s3, v # vs @ ws))"

definition evidence_matches :: "wire_env \<Rightarrow> probe_request \<Rightarrow> zone_evidence \<Rightarrow> bool" where
  "evidence_matches env req ev \<longleftrightarrow> ze_zone ev = q_zone req
     \<and> ze_fingerprint ev = we_fingerprint env (q_policy req) \<and> ze_authorities ev \<noteq> []"

definition no_result :: probe_result where
  "no_result = \<lparr>r_views = [], r_zone = None\<rparr>"

definition probe :: "wire_env \<Rightarrow> nat \<Rightarrow> probe_request \<Rightarrow> probe_result \<times> go_error option \<times> wire_session" where
  "probe env n req =
     (let pol = q_policy req; s = new_session n in
      if \<not> validate_servers (p_servers pol) then (no_result, Some (error_new ''resolver-config''), s)
      else (case we_slot env of Some e \<Rightarrow> (no_result, Some e, s)
      | None \<Rightarrow>
        (case we_wait env n of Some e \<Rightarrow> (no_result, Some e, tick s)
         | None \<Rightarrow>
           if q_zone_only req then
             (case zone_probe env (tick s) req of (s1, ev) \<Rightarrow> (\<lparr>r_views = [], r_zone = Some ev\<rparr>, None, s1))
           else
             (case resolve_each env (tick s) (q_name req) (p_servers pol) [] (q_zone req) of (s1, vs) \<Rightarrow>
                if p_expected_ns pol = [] then (\<lparr>r_views = vs, r_zone = None\<rparr>, None, s1)
                else (case q_evidence req of
                    None \<Rightarrow> (no_result, Some (error_new ''invalid-response''), s1)
                  | Some ev \<Rightarrow>
                    if \<not> evidence_matches env req ev then (no_result, Some (error_new ''invalid-response''), s1)
                    else (case probe_authorities env s1 req (ze_authorities ev) of (s2, ws) \<Rightarrow>
                      (\<lparr>r_views = vs @ ws, r_zone = None\<rparr>, None, s2)))))))"

text \<open>\<open>observationOutcome\<close> of \<open>metrics.go\<close>.\<close>

definition observation_outcome :: "probe_result \<Rightarrow> string" where
  "observation_outcome res =
     (if (case r_zone res of None \<Rightarrow> False | Some ev \<Rightarrow> (\<exists>v \<in> set (ze_views ev). ao_failure v \<noteq> []))
         \<or> (\<exists>v \<in> set (r_views res). v_failure v \<noteq> [] \<or> v_mismatch v)
      then ''failed'' else ''observed'')"

end
