(* ===== verification/Probe_Resolve.thy ===== *)
theory Probe_Resolve
  imports Probe_Wire
begin

text \<open>
  Lemmas about the resolution loop and one session of \<open>wire.go\<close>: what a successful exchange
  guarantees, how many questions one resolution may send, and that a view without failure or
  mismatch carries the complete evidence of both queries for every owner of its chain.
\<close>

section \<open>Invariants of the resolution loop\<close>

lemma resolve_loop_invariant:
  assumes init: "I s v current seen"
    and seen: "\<And>s v current seen. I s v current seen \<Longrightarrow> current \<in> set seen \<Longrightarrow> Q s (v\<lparr>v_mismatch := True\<rparr>)"
    and stop: "\<And>s v current seen s1 v1. I s v current seen \<Longrightarrow> current \<notin> set seen \<Longrightarrow>
      resolve_owner env s v (if at_authority authority zone current then authority else recursive)
        (\<not> at_authority authority zone current) current = (s1, v1, None) \<Longrightarrow> Q s1 v1"
    and finish: "\<And>s v current seen s1 v1 rc1 rc2 acc v2. I s v current seen \<Longrightarrow> current \<notin> set seen \<Longrightarrow>
      resolve_owner env s v (if at_authority authority zone current then authority else recursive)
        (\<not> at_authority authority zone current) current = (s1, v1, Some (rc1, rc2, acc)) \<Longrightarrow>
      owner_next v1 rc1 rc2 acc = Inl v2 \<Longrightarrow> Q s1 v2"
    and step: "\<And>s v current seen s1 v1 rc1 rc2 acc v2 t. I s v current seen \<Longrightarrow> current \<notin> set seen \<Longrightarrow>
      resolve_owner env s v (if at_authority authority zone current then authority else recursive)
        (\<not> at_authority authority zone current) current = (s1, v1, Some (rc1, rc2, acc)) \<Longrightarrow>
      owner_next v1 rc1 rc2 acc = Inr (v2, t) \<Longrightarrow> I s1 v2 t (current # seen)"
  shows "case resolve_loop env recursive authority zone s v current seen of (s', v') \<Rightarrow> Q s' v'"
  using init
proof (induction "max_cnames - length (v_chain v)" arbitrary: s v current seen rule: less_induct)
  case less
  let ?at = "at_authority authority zone current"
  show ?case
  proof (cases "current \<in> set seen")
    case True
    then show ?thesis using seen [OF less.prems] by (simp add: resolve_loop.simps)
  next
    case False
    obtain s1 v1 r where owner: "resolve_owner env s v (if ?at then authority else recursive) (\<not> ?at) current = (s1, v1, r)"
      by (metis prod_cases3)
    note unfold = resolve_loop.simps [of env recursive authority zone s v current seen]
    show ?thesis
    proof (cases r)
      case None
      then show ?thesis using stop [OF less.prems False] owner False by (simp add: unfold)
    next
      case (Some t)
      then obtain rc1 rc2 acc where r: "r = Some (rc1, rc2, acc)" by (metis prod_cases3)
      show ?thesis
      proof (cases "owner_next v1 rc1 rc2 acc")
        case (Inl v2)
        then show ?thesis using finish [OF less.prems False _ Inl] owner False r by (simp add: unfold)
      next
        case (Inr p)
        then obtain v2 t where nx: "owner_next v1 rc1 rc2 acc = Inr (v2, t)" by (cases p) auto
        have "max_cnames - length (v_chain v2) < max_cnames - length (v_chain v)"
          using owner_next_Inr [OF nx] resolve_owner_chain [OF owner] by auto
        from less.hyps [OF this step [OF less.prems False owner [unfolded r] nx]]
        show ?thesis using owner False r nx by (simp add: unfold)
      qed
    qed
  qed
qed

lemma fold_evidence_head [simp]:
  "ae_name (fold (evidence_rr name qt) rs a) = ae_name a"
  "ae_qtype (fold (evidence_rr name qt) rs a) = ae_qtype a"
  "ae_rcode (fold (evidence_rr name qt) rs a) = ae_rcode a"
proof -
  have step: "ae_name (evidence_rr name qt r a) = ae_name a \<and> ae_qtype (evidence_rr name qt r a) = ae_qtype a
     \<and> ae_rcode (evidence_rr name qt r a) = ae_rcode a" for r a
    by (auto simp: evidence_rr_def Let_def split: rr.splits)
  show "ae_name (fold (evidence_rr name qt) rs a) = ae_name a"
    "ae_qtype (fold (evidence_rr name qt) rs a) = ae_qtype a"
    "ae_rcode (fold (evidence_rr name qt) rs a) = ae_rcode a"
    using step by (induction rs arbitrary: a) auto
qed

lemma fold_evidence_soa_head [simp]:
  "ae_name (fold (evidence_soa name) rs a) = ae_name a"
  "ae_qtype (fold (evidence_soa name) rs a) = ae_qtype a"
  "ae_rcode (fold (evidence_soa name) rs a) = ae_rcode a"
proof -
  have step: "ae_name (evidence_soa name r a) = ae_name a \<and> ae_qtype (evidence_soa name r a) = ae_qtype a
     \<and> ae_rcode (evidence_soa name r a) = ae_rcode a" for r a
    by (auto simp: evidence_soa_def Let_def split: rr.splits)
  show "ae_name (fold (evidence_soa name) rs a) = ae_name a"
    "ae_qtype (fold (evidence_soa name) rs a) = ae_qtype a"
    "ae_rcode (fold (evidence_soa name) rs a) = ae_rcode a"
    using step by (induction rs arbitrary: a) auto
qed

lemma answer_evidence_head [simp, go_simps]:
  "ae_name (answer_evidence_of m name qt) = name"
  "ae_qtype (answer_evidence_of m name qt) = qtype_string qt"
  "ae_rcode (answer_evidence_of m name qt) = m_rcode m"
  by (simp_all add: answer_evidence_of_def Let_def)

definition good_reply :: "wire_env \<Rightarrow> string \<Rightarrow> nat \<Rightarrow> dns_msg \<Rightarrow> bool" where
  "good_reply env name qtype m \<longleftrightarrow>
     m_response m \<and> \<not> m_truncated m \<and> m_opcode m = opcode_query
     \<and> m_question m = [\<lparr>qn_name = we_fqdn env name, qn_type = qtype, qn_class = class_INET\<rparr>]
     \<and> (m_rcode m = rcode_success \<or> m_rcode m = rcode_name_error)"

definition session_ok :: "wire_env \<Rightarrow> wire_session \<Rightarrow> bool" where
  "session_ok env s \<longleftrightarrow> (\<forall>(key, m) \<in> set (sn_answers s). good_reply env (fst (snd key)) (snd (snd key)) m)"

lemma session_ok_new [simp]: "session_ok env (new_session n)" "session_ok env (tick s) = session_ok env s"
  by (simp_all add: session_ok_def new_session_def tick_def)

lemma classify_good:
  "classify \<lparr>qn_name = we_fqdn env name, qn_type = qt, qn_class = class_INET\<rparr> r err = []
     \<longleftrightarrow> err = None \<and> (\<exists>m. r = Some m \<and> good_reply env name qt m)"
  by (auto simp: classify_def good_reply_def split: option.splits)

lemma send_query_frame:
  "send_query env s server q rd = (s', r, e) \<Longrightarrow> sn_answers s' = sn_answers s \<and> sn_qtypes s' = sn_qtypes s"
  by (auto simp: send_query_def tick_def Let_def split: prod.splits option.splits if_splits)

lemma exchange_spec:
  assumes "session_ok env s" and "exchange env s server name qt rd = (s', r, f)"
  shows "session_ok env s'" and "f = [] \<Longrightarrow> \<exists>m. r = Some m \<and> good_reply env name qt m"
    and "sn_qtypes s' qt' \<le> sn_qtypes s qt' + (if qt' = qt then 1 else 0)"
proof -
  show "session_ok env s'"
    using assms
    by (auto simp: exchange_def Let_def tick_def session_ok_def classify_good dest!: send_query_frame
          split: prod.splits option.splits if_splits)
  show "f = [] \<Longrightarrow> \<exists>m. r = Some m \<and> good_reply env name qt m"
    using assms
    by (auto simp: exchange_def Let_def session_ok_def classify_good dest!: map_of_SomeD
          split: prod.splits option.splits if_splits)
  show "sn_qtypes s' qt' \<le> sn_qtypes s qt' + (if qt' = qt then 1 else 0)"
    using assms
    by (auto simp: exchange_def Let_def tick_def dest!: send_query_frame
          split: prod.splits option.splits if_splits)
qed


lemma resolve_query_spec:
  assumes "session_ok env s" and "resolve_query env s v server rd current qt acc = (s', v', r)"
  shows "session_ok env s'" and "sn_qtypes s' qt' \<le> sn_qtypes s qt' + (if qt' = qt then 1 else 0)"
    and "r = None \<Longrightarrow> v_failure v' \<noteq> []"
    and "r = Some (rc, acc') \<Longrightarrow> v_failure v' = v_failure v \<and> v_mismatch v' = v_mismatch v
      \<and> (\<exists>m. good_reply env current qt m \<and> m_rcode m = rc
             \<and> v_answers v' = v_answers v @ [answer_evidence_of m current qt]
             \<and> (\<not> rd \<or> v_authoritative v \<longrightarrow> v_authoritative v'))"
    and "v_id v' = v_id v"
proof -
  obtain s1 reply f where ex: "exchange env s server current qt rd = (s1, reply, f)"
    by (metis prod_cases3)
  note spec = exchange_spec [OF assms(1) ex]
  have s': "s' = s1" using assms(2) ex by (auto simp: resolve_query_def Let_def split: option.splits if_splits)
  show "session_ok env s'" "sn_qtypes s' qt' \<le> sn_qtypes s qt' + (if qt' = qt then 1 else 0)"
    using spec(1,3) s' by auto
  show "r = None \<Longrightarrow> v_failure v' \<noteq> []"
    using assms(2) ex spec(2) by (cases "f = []") (auto simp: resolve_query_def Let_def split: option.splits if_splits)
  show "v_id v' = v_id v"
    using assms(2) ex by (auto simp: resolve_query_def Let_def split: option.splits if_splits)
  show "r = Some (rc, acc') \<Longrightarrow> v_failure v' = v_failure v \<and> v_mismatch v' = v_mismatch v
      \<and> (\<exists>m. good_reply env current qt m \<and> m_rcode m = rc
             \<and> v_answers v' = v_answers v @ [answer_evidence_of m current qt]
             \<and> (\<not> rd \<or> v_authoritative v \<longrightarrow> v_authoritative v'))"
    using assms(2) ex spec(2) by (cases "f = []") (auto simp: resolve_query_def Let_def split: option.splits if_splits)
qed

definition both_keys :: "string list \<Rightarrow> (string \<times> string) list" where
  "both_keys owners = concat (map (\<lambda>o1. [(o1, ''A''), (o1, ''AAAA'')]) owners)"

definition answer_keys :: "view \<Rightarrow> (string \<times> string) list" where
  "answer_keys v = map (\<lambda>a. (ae_name a, ae_qtype a)) (v_answers v)"

lemma both_keys_append [simp]: "both_keys (xs @ ys) = both_keys xs @ both_keys ys" "both_keys [] = []"
  by (simp_all add: both_keys_def)

lemma length_both_keys [simp]: "length (both_keys xs) = 2 * length xs"
  by (induction xs) (simp_all add: both_keys_def)

lemma qtype_strings [simp]: "qtype_string qtype_A = ''A''" "qtype_string qtype_AAAA = ''AAAA''"
  by (simp_all add: qtype_string_def dns_codes)

lemma resolve_owner_cases:
  assumes "resolve_owner env s v server rd current = (s', v', r)"
  obtains (first) "resolve_query env s v server rd current qtype_A empty_owner = (s', v', None)" "r = None"
  | (second) s1 v1 rc1 acc1 where
      "resolve_query env s v server rd current qtype_A empty_owner = (s1, v1, Some (rc1, acc1))"
      "resolve_query env s1 v1 server rd current qtype_AAAA acc1 = (s', v', None)" "r = None"
  | (both) s1 v1 rc1 acc1 rc2 acc2 where
      "resolve_query env s v server rd current qtype_A empty_owner = (s1, v1, Some (rc1, acc1))"
      "resolve_query env s1 v1 server rd current qtype_AAAA acc1 = (s', v', Some (rc2, acc2))"
      "r = Some (rc1, rc2, acc2)"
  using assms by (auto simp: resolve_owner_def split: prod.splits option.splits)

lemma qtype_A_AAAA [simp]: "qtype_A \<noteq> qtype_AAAA" "qtype_AAAA \<noteq> qtype_A"
  by (simp_all add: dns_codes)

lemma resolve_owner_session:
  assumes ok: "session_ok env s" and owner: "resolve_owner env s v server rd current = (s', v', r)"
  shows "session_ok env s' \<and> v_id v' = v_id v"
  using owner
proof (cases rule: resolve_owner_cases)
  case first
  then show ?thesis using resolve_query_spec(1,5) [OF ok] by blast
next
  case (second s1 v1 rc1 acc1)
  then show ?thesis using resolve_query_spec(1,5) [OF ok second(1)] resolve_query_spec(1,5) by metis
next
  case (both s1 v1 rc1 acc1 rc2 acc2)
  then show ?thesis using resolve_query_spec(1,5) [OF ok both(1)] resolve_query_spec(1,5) by metis
qed

lemma resolve_owner_budget:
  assumes ok: "session_ok env s" and owner: "resolve_owner env s v server rd current = (s', v', r)"
  shows "sn_qtypes s' qt \<le> sn_qtypes s qt + 1"
  using owner
proof (cases rule: resolve_owner_cases)
  case first
  show ?thesis using resolve_query_spec(2) [OF ok first(1), of qt] by (auto split: if_splits)
next
  case (second s1 v1 rc1 acc1)
  show ?thesis
    using resolve_query_spec(2) [OF ok second(1), of qt]
      resolve_query_spec(2) [OF resolve_query_spec(1) [OF ok second(1)] second(2), of qt]
    by (auto split: if_splits)
next
  case (both s1 v1 rc1 acc1 rc2 acc2)
  show ?thesis
    using resolve_query_spec(2) [OF ok both(1), of qt]
      resolve_query_spec(2) [OF resolve_query_spec(1) [OF ok both(1)] both(2), of qt]
    by (auto split: if_splits)
qed

lemma resolve_owner_None:
  assumes ok: "session_ok env s" and owner: "resolve_owner env s v server rd current = (s', v', None)"
  shows "v_failure v' \<noteq> []"
  using owner
proof (cases rule: resolve_owner_cases)
  case first
  then show ?thesis using resolve_query_spec(3) [OF ok first(1)] by simp
next
  case (second s1 v1 rc1 acc1)
  then show ?thesis using resolve_query_spec(3) [OF resolve_query_spec(1) [OF ok second(1)] second(2)] by simp
qed simp

lemma resolve_owner_Some:
  assumes ok: "session_ok env s"
    and owner: "resolve_owner env s v server rd current = (s', v', Some (rc1, rc2, acc'))"
  shows "v_failure v' = v_failure v \<and> v_mismatch v' = v_mismatch v
      \<and> answer_keys v' = answer_keys v @ both_keys [current]
      \<and> (rc1 = rcode_success \<or> rc1 = rcode_name_error) \<and> (\<not> rd \<or> v_authoritative v \<longrightarrow> v_authoritative v')"
  using owner
proof (cases rule: resolve_owner_cases)
  case (both s1 v1 rc1' acc1 rc2' acc2)
  note q1 = resolve_query_spec(4) [OF ok both(1) refl]
  note q2 = resolve_query_spec(4) [OF resolve_query_spec(1) [OF ok both(1)] both(2) refl]
  show ?thesis using q1 q2 both(3)
    by (auto simp: answer_keys_def both_keys_def good_reply_def)
qed simp_all

section \<open>Bounds and completeness of a resolution\<close>

lemma resolve_session_budget:
  assumes "session_ok env s" and "resolve env s name recursive authority zone = (s', v)"
  shows "session_ok env s' \<and> sn_qtypes s' qt \<le> sn_qtypes s qt + 9 \<and> v_id v = view_id recursive authority"
proof -
  let ?v0 = "empty_view (view_id recursive authority)"
  let ?I = "\<lambda>s1 v1 (c::string) (sn::string list). session_ok env s1 \<and> length (v_chain v1) \<le> 8
      \<and> sn_qtypes s1 qt \<le> sn_qtypes s qt + length (v_chain v1) \<and> v_id v1 = view_id recursive authority"
  let ?Q = "\<lambda>s1 v1. session_ok env s1 \<and> sn_qtypes s1 qt \<le> sn_qtypes s qt + 9 \<and> v_id v1 = view_id recursive authority"
  have "case resolve_loop env recursive authority zone s ?v0 (canonical_name name) [] of (s', v') \<Rightarrow> ?Q s' v'"
  proof (rule resolve_loop_invariant [where I = ?I], goal_cases)
    case 1 then show ?case using assms(1) by (simp add: empty_view_def)
  next
    case 2 then show ?case by auto
  next
    case (3 s v current seen s1 v1)
    then show ?case using resolve_owner_session [OF _ 3(3)] resolve_owner_budget [OF _ 3(3), of qt] by auto
  next
    case (4 s v current seen s1 v1 rc1 rc2 acc v2)
    moreover have "v_id v2 = v_id v1" using 4(4) by (auto simp: owner_next_def Let_def split: if_splits)
    ultimately show ?case using resolve_owner_session [OF _ 4(3)] resolve_owner_budget [OF _ 4(3), of qt] by auto
  next
    case (5 s v current seen s1 v1 rc1 rc2 acc v2 t)
    then show ?case
      using resolve_owner_session [OF _ 5(3)] resolve_owner_budget [OF _ 5(3), of qt]
        resolve_owner_chain [OF 5(3)] owner_next_Inr [OF 5(4)] by (auto simp: max_cnames_def)
  qed
  then show ?thesis using assms(2) by (simp add: resolve_def)
qed

lemma owner_next_Inl:
  "owner_next v1 rc1 rc2 acc = Inl v2 \<Longrightarrow> v_failure v2 = [] \<Longrightarrow> \<not> v_mismatch v2 \<Longrightarrow>
     v_chain v2 = v_chain v1 \<and> v_rcode v2 = rc1 \<and> answer_keys v2 = answer_keys v1
     \<and> v_authoritative v2 = v_authoritative v1"
  by (auto simp: owner_next_def Let_def answer_keys_def split: if_splits)

lemma resolve_clean:
  assumes ok: "session_ok env s" and res: "resolve env s name recursive authority zone = (s', v)"
    and clean: "v_failure v = []" "\<not> v_mismatch v"
  defines "owners \<equiv> canonical_name name # v_chain v"
  shows "distinct owners" and "length (v_chain v) \<le> max_cnames" and "answer_keys v = both_keys owners"
    and "v_rcode v = rcode_success \<or> v_rcode v = rcode_name_error"
    and "authority \<noteq> [] \<Longrightarrow> in_zone (canonical_name name) zone \<Longrightarrow> v_authoritative v"
proof -
  let ?n = "canonical_name name"
  let ?v0 = "empty_view (view_id recursive authority)"
  let ?A = "\<lambda>v. at_authority authority zone ?n \<longrightarrow> v_authoritative v"
  let ?I = "\<lambda>s1 v1 c sn. session_ok env s1 \<and> length (v_chain v1) \<le> max_cnames
      \<and> c = last (?n # v_chain v1) \<and> set sn = set (butlast (?n # v_chain v1))
      \<and> distinct (butlast (?n # v_chain v1)) \<and> answer_keys v1 = both_keys (butlast (?n # v_chain v1))
      \<and> (v_chain v1 \<noteq> [] \<longrightarrow> ?A v1)"
  let ?Q = "\<lambda>s1 v1. v_failure v1 = [] \<longrightarrow> \<not> v_mismatch v1 \<longrightarrow> distinct (?n # v_chain v1)
      \<and> length (v_chain v1) \<le> max_cnames \<and> answer_keys v1 = both_keys (?n # v_chain v1)
      \<and> (v_rcode v1 = rcode_success \<or> v_rcode v1 = rcode_name_error) \<and> ?A v1"
  have "case resolve_loop env recursive authority zone s ?v0 ?n [] of (s', v') \<Rightarrow> ?Q s' v'"
  proof (rule resolve_loop_invariant [where I = ?I], goal_cases)
    case 1 then show ?case using ok by (simp add: empty_view_def answer_keys_def both_keys_def)
  next
    case 2 then show ?case by auto
  next
    case (3 s v current seen s1 v1)
    then show ?case using resolve_owner_None [OF _ 3(3)] by auto
  next
    case (4 s v current seen s1 v1 rc1 rc2 acc v2)
    then have sok: "session_ok env s" by simp
    show ?case
    proof (intro impI)
      assume f: "v_failure v2 = []" and m: "\<not> v_mismatch v2"
      note nx = owner_next_Inl [OF 4(4) f m]
      have chain: "v_chain v2 = v_chain v" using nx resolve_owner_chain [OF 4(3)] by simp
      have split: "?n # v_chain v = butlast (?n # v_chain v) @ [current]"
        using 4(1) by (metis append_butlast_last_id list.distinct(1))
      have dist: "distinct (?n # v_chain v)"
        using 4(1,2) by (subst split) auto
      have keys: "answer_keys v2 = both_keys (?n # v_chain v)"
        using nx resolve_owner_Some [OF sok 4(3)] 4(1) by (subst split) (simp only: both_keys_append)
      have auth: "?A v2"
        using nx resolve_owner_Some [OF sok 4(3)] 4(1) by (cases "v_chain v = []") auto
      have rc: "v_rcode v2 = rcode_success \<or> v_rcode v2 = rcode_name_error"
        using nx resolve_owner_Some [OF sok 4(3)] by simp
      have len: "length (v_chain v) \<le> max_cnames" using 4(1) by simp
      show "distinct (?n # v_chain v2) \<and> length (v_chain v2) \<le> max_cnames
          \<and> answer_keys v2 = both_keys (?n # v_chain v2)
          \<and> (v_rcode v2 = rcode_success \<or> v_rcode v2 = rcode_name_error) \<and> ?A v2"
        unfolding chain using dist keys auth rc len by blast
    qed
  next
    case (5 s v current seen s1 v1 rc1 rc2 acc v2 t)
    then have sok: "session_ok env s" by simp
    note nx = owner_next_Inr [OF 5(4)]
    have split: "?n # v_chain v = butlast (?n # v_chain v) @ [current]"
      using 5(1) by (metis append_butlast_last_id list.distinct(1))
    have chain: "v_chain v2 = v_chain v @ [t]" using nx resolve_owner_chain [OF 5(3)] by simp
    have "answer_keys v2 = answer_keys v1" using nx by (simp add: answer_keys_def)
    then have keys: "answer_keys v2 = both_keys (?n # v_chain v)"
      using resolve_owner_Some [OF sok 5(3)] 5(1) by (subst split) (simp only: both_keys_append)
    have dist: "distinct (?n # v_chain v)"
      using 5(1,2) by (subst split) auto
    have seen: "set (current # seen) = set (?n # v_chain v)"
      using 5(1) by (subst split) auto
    have auth: "?A v2"
      using nx resolve_owner_Some [OF sok 5(3)] 5(1) by (cases "v_chain v = []") auto
    have last: "butlast (?n # v_chain v2) = ?n # v_chain v" "last (?n # v_chain v2) = t"
      using chain by (simp_all add: butlast_append)
    have len: "length (v_chain v2) \<le> max_cnames"
      using chain nx resolve_owner_chain [OF 5(3)] by simp
    show ?case unfolding last
      using resolve_owner_session [OF sok 5(3)] keys dist seen auth len by simp
  qed
  then show "distinct owners" and "length (v_chain v) \<le> max_cnames" and "answer_keys v = both_keys owners"
    and "v_rcode v = rcode_success \<or> v_rcode v = rcode_name_error"
    and "authority \<noteq> [] \<Longrightarrow> in_zone (canonical_name name) zone \<Longrightarrow> v_authoritative v"
    using res clean by (auto simp: resolve_def owners_def at_authority_def)
qed

section \<open>Properties\<close>

text \<open>
  C38. One resolution sends at most nine questions of each type, whatever the network answers, and
  keeps the session's cache of authoritative answers valid.
\<close>

theorem resolve_budget:
  assumes "session_ok env s" and "resolve env s name recursive authority zone = (s', v)"
  shows "session_ok env s' \<and> sn_qtypes s' qt \<le> sn_qtypes s qt + 9"
  using resolve_session_budget [OF assms] by simp

text \<open>
  C39. A view without failure or mismatch is complete: its chain has at most eight links and no
  repeated owner, it holds the answers to both questions for every owner in order, its code is
  success or name error, and an in-zone name asked at an authority was answered authoritatively.
\<close>

theorem resolve_complete:
  assumes "session_ok env s" and "resolve env s name recursive authority zone = (s', v)"
    and "v_failure v = []" and "\<not> v_mismatch v"
  shows "distinct (canonical_name name # v_chain v) \<and> length (v_chain v) \<le> max_cnames
    \<and> answer_keys v = both_keys (canonical_name name # v_chain v)
    \<and> (v_rcode v = rcode_success \<or> v_rcode v = rcode_name_error)
    \<and> (authority \<noteq> [] \<and> in_zone (canonical_name name) zone \<longrightarrow> v_authoritative v)"
  using resolve_clean [OF assms] by auto

text \<open>A network that knows one alias and answers everything else with no data.\<close>

definition demo_hdr :: "string \<Rightarrow> rr_header" where
  "demo_hdr n = \<lparr>rh_name = n, rh_class = class_INET, rh_ttl = 60\<rparr>"

definition demo_reply :: "question \<Rightarrow> dns_msg" where
  "demo_reply q = \<lparr>m_response = True, m_opcode = 0, m_rcode = 0, m_authoritative = True, m_truncated = False,
     m_question = [q],
     m_answer = (if qn_name q = ''a.'' then [RR_CNAME (demo_hdr ''a.'') ''b.'']
                 else if qn_type q = qtype_A then [RR_A (demo_hdr ''b.'') (Some (V4 192 0 2 7))] else []),
     m_ns = [], m_extra = []\<rparr>"

definition demo_env :: wire_env where
  "demo_env = \<lparr>we_fqdn = (\<lambda>n. n @ ''.''), we_slot = None, we_wait = (\<lambda>_. None),
     we_send = (\<lambda>_ _ _ q _. (Some (demo_reply q), None)), we_fingerprint = p_mode\<rparr>"

definition demo_resolution :: "wire_session \<times> view" where
  "demo_resolution = resolve demo_env (new_session 0) ''A.'' ''10.0.0.1:53'' [] []"

lemma demo_resolution_chain:
  "v_chain (snd demo_resolution) = [''b''] \<and> v_a (snd demo_resolution) = [''192.0.2.7'']
   \<and> v_failure (snd demo_resolution) = [] \<and> \<not> v_mismatch (snd demo_resolution)"
  by code_simp

theorem resolve_budget_witness:
  "sn_qtypes (fst demo_resolution) qtype_A \<le> 9"
  using resolve_budget [of demo_env "new_session 0" "''A.''" "''10.0.0.1:53''" "[]" "[]"
      "fst demo_resolution" "snd demo_resolution" qtype_A]
  by (simp add: demo_resolution_def [symmetric]) (simp add: new_session_def)

theorem resolve_complete_witness:
  "answer_keys (snd demo_resolution) = both_keys [''a'', ''b'']"
proof -
  have "canonical_name ''A.'' = ''a''" by code_simp
  then show ?thesis
    using resolve_complete [of demo_env "new_session 0" "''A.''" "''10.0.0.1:53''" "[]" "[]"
      "fst demo_resolution" "snd demo_resolution"] demo_resolution_chain
    by (simp add: demo_resolution_def [symmetric])
qed

end
