(* ===== verification/Probe_Withdrawal.thy ===== *)
theory Probe_Withdrawal
  imports Probe_Evaluate "HOL-Library.Product_Lexorder"
begin

text \<open>
  \<open>internal/go/core/dnsprobe/withdrawal.go\<close>: the decision that a retired address is absent
  from every required view, with the cache evidence that later bounds its reuse. The digest of
  a policy is the parameter \<open>fp\<close>.
\<close>

section \<open>Evidence and failures\<close>

record cache_evidence =
  ce_name :: string
  ce_view :: string
  ce_qtype :: string
  ce_positive :: ttl
  ce_negative :: ttl

record withdrawal_decision =
  wd_decision :: decision
  wd_cache :: "cache_evidence list"

abbreviation wd_status :: "withdrawal_decision \<Rightarrow> condition_status" where
  "wd_status w \<equiv> d_status (wd_decision w)"

definition withdrawal_failed :: "string \<Rightarrow> string \<Rightarrow> string \<Rightarrow> withdrawal_decision" where
  "withdrawal_failed name vw failure =
     (let code = (if failure \<in> set (failure_codes @ [''negative-soa-missing'']) then failure else ''transport'') in
      \<lparr>wd_decision = new_decision ConditionUnknown ''DNSProbeFailed''
         (bounded (''DNS withdrawal cannot be verified for '' @ name @ '' in '' @ vw @ '': '' @ code @ ''.'')),
       wd_cache = []\<rparr>)"

definition rcode_failure :: "int \<Rightarrow> string" where
  "rcode_failure rc = (if rc = 2 then ''SERVFAIL'' else if rc = 5 then ''REFUSED'' else ''invalid-response'')"

definition rcode_answered :: "int \<Rightarrow> bool" where
  "rcode_answered rc \<longleftrightarrow> rc = 0 \<or> rc = 3"

section \<open>Evidence of one view\<close>

text \<open>
  The addresses of the answers, in the order of the sorted answers: \<open>None\<close> for an address
  of the wrong family, otherwise the type of the last answer that holds the retired address and
  whether an A and an AAAA answer hold it.
\<close>

definition address_fits :: "string \<Rightarrow> string \<Rightarrow> addr option" where
  "address_fits qtype value =
     (case parse_addr value of None \<Rightarrow> None
      | Some ip \<Rightarrow> if addr_zone ip \<noteq> [] \<or> (qtype = ''A'' \<and> \<not> is4 ip) \<or> (qtype = ''AAAA'' \<and> \<not> is6 ip)
                   then None else Some ip)"

definition answer_holds :: "addr \<Rightarrow> answer_evidence \<Rightarrow> bool" where
  "answer_holds address ans \<longleftrightarrow>
     (\<exists>value \<in> set (ae_addresses ans). (case parse_addr value of None \<Rightarrow> False | Some ip \<Rightarrow> unmap ip = address))"

fun scan_present :: "addr \<Rightarrow> answer_evidence list \<Rightarrow> string \<times> bool \<times> bool \<Rightarrow> (string \<times> bool \<times> bool) option" where
  "scan_present address [] acc = Some acc"
| "scan_present address (ans # rest) (qt, pa, paaaa) =
     (if \<exists>value \<in> set (ae_addresses ans). address_fits (ae_qtype ans) value = None then None
      else if answer_holds address ans
      then scan_present address rest (ae_qtype ans, pa \<or> ae_qtype ans = ''A'', paaaa \<or> ae_qtype ans = ''AAAA'')
      else scan_present address rest (qt, pa, paaaa))"

text \<open>One owner and family: the cache item, or the failure that ends the evaluation.\<close>

definition family_item :: "view \<Rightarrow> answer_evidence list \<Rightarrow> string \<times> bool \<times> bool \<Rightarrow> string \<Rightarrow> string option
    \<Rightarrow> string \<Rightarrow> string + cache_evidence" where
  "family_item vw answers present owner next family =
     (case filter (\<lambda>a. canonical_name (ae_name a) = owner \<and> ae_qtype a = family) answers of
        [found] \<Rightarrow>
          (if ae_failure found \<noteq> [] then Inl (ae_failure found)
           else if \<not> rcode_answered (ae_rcode found) then Inl ''invalid-response''
           else
             let item = \<lparr>ce_name = owner, ce_view = v_id vw, ce_qtype = family, ce_positive = None, ce_negative = None\<rparr>;
                 (qt, pa, paaaa) = present;
                 keep = (\<lambda>it. if qt \<noteq> [] \<and> (ae_cname found \<noteq> [] \<or> (family = ''A'' \<and> pa) \<or> (family = ''AAAA'' \<and> paaaa))
                             then it\<lparr>ce_positive := ae_positive found\<rparr> else it)
             in (case next of
               Some nx \<Rightarrow>
                 if ae_rcode found \<noteq> 0 \<or> canonical_name (ae_cname found) \<noteq> nx \<or> ae_addresses found \<noteq> []
                    \<or> ae_positive found = None
                 then Inl ''invalid-response'' else Inr (keep item)
             | None \<Rightarrow>
                 let terminal = (if family = ''AAAA'' then v_aaaa vw else v_a vw) in
                 if ae_rcode found \<noteq> v_rcode vw \<or> addresses (ae_addresses found) \<noteq> addresses terminal
                 then Inl ''invalid-response''
                 else if ae_cname found \<noteq> [] \<or> (ae_rcode found = 3 \<and> ae_addresses found \<noteq> [])
                 then Inl ''invalid-response''
                 else if ae_addresses found = [] then
                   (if ae_negative found = None then Inl ''negative-soa-missing''
                    else Inr (keep (item\<lparr>ce_negative := ae_negative found\<rparr>)))
                 else if ae_positive found = None then Inl ''invalid-response''
                 else Inr (keep item)))
      | _ \<Rightarrow> Inl ''invalid-response'')"

text \<open>Both families of every owner in turn, collecting the items read before a failure.\<close>

fun owner_items :: "view \<Rightarrow> answer_evidence list \<Rightarrow> string \<times> bool \<times> bool \<Rightarrow> string list \<Rightarrow> cache_evidence list
    \<Rightarrow> cache_evidence list \<times> string" where
  "owner_items vw answers present [] cache = (cache, [])"
| "owner_items vw answers present (owner # rest) cache =
     (let next = (case rest of [] \<Rightarrow> None | n # _ \<Rightarrow> Some n) in
      case family_item vw answers present owner next ''A'' of
        Inl f \<Rightarrow> (cache, f)
      | Inr ia \<Rightarrow>
        (case family_item vw answers present owner next ''AAAA'' of
           Inl f \<Rightarrow> (cache @ [ia], f)
         | Inr ib \<Rightarrow> owner_items vw answers present rest (cache @ [ia, ib])))"

definition names_in_order :: "string list \<Rightarrow> string list" where
  "names_in_order = map canonical_name"

definition view_evidence :: "string \<Rightarrow> addr \<Rightarrow> view \<Rightarrow> cache_evidence list \<times> string \<times> string" where
  "view_evidence name address vw =
     (if v_failure vw \<noteq> [] then ([], [], v_failure vw)
      else if \<not> rcode_answered (v_rcode vw) then ([], [], rcode_failure (v_rcode vw))
      else if v_mismatch vw \<or> length (v_chain vw) > 8 then ([], [], ''chain-limit'')
      else
        let owners = canonical_name name # names_in_order (v_chain vw) in
        if \<not> distinct owners \<or> (\<exists>o1 \<in> set owners. \<not> valid_name o1) then ([], [], ''invalid-response'')
        else if length (v_answers vw) \<noteq> 2 * length owners then ([], [], ''invalid-response'')
        else
          let answers = sort_key (\<lambda>a. (ae_name a, ae_qtype a)) (v_answers vw) in
          (case scan_present address answers ([], False, False) of
             None \<Rightarrow> ([], [], ''invalid-response'')
           | Some present \<Rightarrow>
             (case owner_items vw answers present owners [] of
                (cache, failure) \<Rightarrow>
                  if failure \<noteq> [] then (cache, fst present, failure)
                  else (sort_key (\<lambda>c. (ce_name c, ce_qtype c)) cache, fst present, []))))"

text \<open>Evidence retained from incomplete observations.\<close>

definition view_positive :: "addr \<Rightarrow> view \<Rightarrow> cache_evidence list" where
  "view_positive address vw =
     (let holds = (\<lambda>fam. \<exists>a \<in> set (v_answers vw). ae_qtype a = fam \<and> answer_holds address a) in
      if \<not> holds ''A'' \<and> \<not> holds ''AAAA'' then []
      else map (\<lambda>a. \<lparr>ce_name = ae_name a, ce_view = v_id vw, ce_qtype = ae_qtype a, ce_positive = ae_positive a,
                     ce_negative = None\<rparr>)
             (filter (\<lambda>a. ae_positive a \<noteq> None
                \<and> (ae_cname a \<noteq> [] \<or> (ae_qtype a = ''A'' \<and> holds ''A'') \<or> (ae_qtype a = ''AAAA'' \<and> holds ''AAAA'')))
               (v_answers vw)))"

definition positive_evidence :: "probe_result \<Rightarrow> addr \<Rightarrow> cache_evidence list" where
  "positive_evidence res address =
     sort_key (\<lambda>c. (ce_view c, ce_name c, ce_qtype c)) (concat (map (view_positive address) (r_views res)))"

section \<open>The decision\<close>

definition with_cache :: "cache_evidence list \<Rightarrow> withdrawal_decision \<Rightarrow> withdrawal_decision" where
  "with_cache cache w = w\<lparr>wd_cache := cache\<rparr>"

text \<open>What one complete view adds to the decision.\<close>

definition withdrawal_step :: "string \<Rightarrow> addr \<Rightarrow> view \<Rightarrow> cache_evidence list \<Rightarrow> string
    \<Rightarrow> withdrawal_decision \<Rightarrow> withdrawal_decision" where
  "withdrawal_step name address vw cache qtype w =
     (let d = wd_decision w;
          d1 = d\<lparr>d_views := d_views d @ [v_id vw],
                 d_negative := fold (\<lambda>c t. max_ttl t (ce_negative c)) cache (d_negative d)\<rparr>
      in \<lparr>wd_decision =
            (if qtype \<noteq> [] \<and> d_status d1 = ConditionTrue
             then d1\<lparr>d_status := ConditionFalse, d_reason := ''DNSStillResolves'',
                     d_message := bounded (''DNS '' @ name @ '' still resolves to retired address ''
                       @ addr_string address @ '' in '' @ v_id vw @ '' ('' @ qtype @ '').'')\<rparr>
             else d1),
          wd_cache = wd_cache w @ cache\<rparr>)"

text \<open>
  The loop over the views sorted by their identity; \<open>prev\<close> is the identity of the view
  before. A failing view ends the loop (\<open>Inl\<close> with its identity and code).
\<close>

fun withdrawal_scan :: "string \<Rightarrow> addr \<Rightarrow> string option \<Rightarrow> view list \<Rightarrow> withdrawal_decision
    \<Rightarrow> (string \<times> string) + withdrawal_decision" where
  "withdrawal_scan name address prev [] w = Inr w"
| "withdrawal_scan name address prev (vw # rest) w =
     (if prev = Some (v_id vw) then Inl (v_id vw, ''invalid-response'')
      else (case view_evidence name address vw of (cache, qtype, failure) \<Rightarrow>
        if failure \<noteq> [] then Inl (v_id vw, failure)
        else withdrawal_scan name address (Some (v_id vw)) rest (withdrawal_step name address vw cache qtype w)))"

definition recursive_missing :: "probe_request \<Rightarrow> probe_result \<Rightarrow> string option" where
  "recursive_missing req res =
     find (\<lambda>s. \<not> (\<exists>v \<in> set (r_views res). v_id v = recursive_id s)) (p_servers (q_policy req))"

definition via_id :: "string \<Rightarrow> string \<Rightarrow> string" where
  "via_id auth server = authority_id auth @ ''/via/'' @ server"

definition authority_missing :: "probe_request \<Rightarrow> probe_result \<Rightarrow> zone_evidence \<Rightarrow> (string \<times> string) option" where
  "authority_missing req res ev =
     find (\<lambda>(auth, server). \<not> (\<exists>v \<in> set (r_views res). v_id v = via_id auth server \<and> v_authoritative v))
       (concat (map (\<lambda>auth. map (\<lambda>server. (auth, server)) (p_servers (q_policy req))) (ze_authorities ev)))"

definition evidence_accepted :: "(policy \<Rightarrow> string) \<Rightarrow> probe_request \<Rightarrow> zone_evidence option \<Rightarrow> bool" where
  "evidence_accepted fp req evidence \<longleftrightarrow>
     (case evidence of None \<Rightarrow> False
      | Some ev \<Rightarrow> ze_zone ev = q_zone req \<and> ze_fingerprint ev = fp (q_policy req)
                   \<and> d_status (evaluate_zone req evidence) = ConditionTrue)"

definition evaluate_withdrawal :: "(policy \<Rightarrow> string) \<Rightarrow> probe_request \<Rightarrow> probe_result \<Rightarrow> withdrawal_decision" where
  "evaluate_withdrawal fp req res =
     (case parse_addr (q_withdrawal req) of
        None \<Rightarrow> withdrawal_failed (q_name req) ''required-views'' ''invalid-response''
      | Some ip \<Rightarrow>
        if addr_zone ip \<noteq> [] then withdrawal_failed (q_name req) ''required-views'' ''invalid-response''
        else
          let address = unmap ip;
              fail = (\<lambda>vw code. with_cache (positive_evidence res address) (withdrawal_failed (q_name req) vw code));
              finish = (case withdrawal_scan (q_name req) address None (sort_key v_id (r_views res))
                          \<lparr>wd_decision = new_decision ConditionTrue ''WithdrawalVerified'' [], wd_cache = []\<rparr> of
                   Inl (vw, code) \<Rightarrow> fail vw code
                 | Inr w \<Rightarrow> w)
          in if p_servers (q_policy req) = [] \<or> r_views res = [] then fail ''required-views'' ''invalid-response''
             else (case recursive_missing req res of
               Some s \<Rightarrow> fail (recursive_id s) ''invalid-response''
             | None \<Rightarrow>
               if p_expected_ns (q_policy req) = [] then finish
               else if \<not> evidence_accepted fp req (q_evidence req) then fail ''required-authorities'' ''invalid-response''
               else (case authority_missing req res (the (q_evidence req)) of
                   Some (auth, server) \<Rightarrow> fail (via_id auth server) ''invalid-response''
                 | None \<Rightarrow> finish)))"

section \<open>What the evaluation establishes\<close>

lemma withdrawal_failed_simps [simp, go_simps]:
  "wd_status (withdrawal_failed n v f) = ConditionUnknown" "wd_cache (withdrawal_failed n v f) = []"
  by (simp_all add: withdrawal_failed_def Let_def)

lemma with_cache_simps [simp, go_simps]:
  "wd_decision (with_cache c w) = wd_decision w" "wd_cache (with_cache c w) = c"
  by (simp_all add: with_cache_def)

text \<open>Exactly one answer per key, and as many answers as keys: every answer has a key.\<close>

lemma count_keys:
  assumes "distinct ks" and "\<And>k. k \<in> set ks \<Longrightarrow> length (filter (\<lambda>a. f a = k) xs) = 1"
  shows "length (filter (\<lambda>a. f a \<in> set ks) xs) = length ks"
  using assms
proof (induction ks)
  case (Cons k ks)
  have "k \<notin> set ks" using Cons.prems(1) by simp
  then have "length (filter (\<lambda>a. f a \<in> set (k # ks)) xs)
      = length (filter (\<lambda>a. f a = k) xs) + length (filter (\<lambda>a. f a \<in> set ks) xs)"
    by (induction xs) auto
  then show ?case using Cons by simp
qed simp

lemma keys_cover:
  assumes "distinct ks" and "\<And>k. k \<in> set ks \<Longrightarrow> length (filter (\<lambda>a. f a = k) xs) = 1"
    and "length xs = length ks" and "a \<in> set xs"
  shows "f a \<in> set ks"
proof (rule ccontr)
  assume "f a \<notin> set ks"
  then have "length (filter (\<lambda>a. f a \<in> set ks) xs) < length xs"
    using assms(4) by (metis length_filter_less)
  with count_keys [of ks f xs] assms(1-3) show False by simp
qed

definition present_fits :: "addr \<Rightarrow> answer_evidence list \<Rightarrow> string \<times> bool \<times> bool \<Rightarrow> bool" where
  "present_fits address answers p \<longleftrightarrow>
     (fst (snd p) \<longleftrightarrow> (\<exists>a \<in> set answers. answer_holds address a \<and> ae_qtype a = ''A''))
   \<and> (snd (snd p) \<longleftrightarrow> (\<exists>a \<in> set answers. answer_holds address a \<and> ae_qtype a = ''AAAA''))
   \<and> (if \<exists>a \<in> set answers. answer_holds address a
      then fst p \<in> ae_qtype ` {a \<in> set answers. answer_holds address a} else fst p = [])"

lemma scan_present_step:
  "present_fits address seen p \<Longrightarrow> scan_present address rest p = Some p'
     \<Longrightarrow> present_fits address (seen @ rest) p'"
proof (induction address rest p arbitrary: seen rule: scan_present.induct)
  case (2 address ans rest qt pa paaaa)
  show ?case
  proof (cases "answer_holds address ans")
    case True
    have "present_fits address (seen @ [ans]) (ae_qtype ans, pa \<or> ae_qtype ans = ''A'', paaaa \<or> ae_qtype ans = ''AAAA'')"
      using 2(3) True by (auto simp: present_fits_def)
    from "2.IH"(1) [OF _ True this] 2(4) True show ?thesis by (auto split: if_splits)
  next
    case False
    have "present_fits address (seen @ [ans]) (qt, pa, paaaa)"
      using 2(3) False by (auto simp: present_fits_def split: if_splits)
    from "2.IH"(2) [OF _ False this] 2(4) False show ?thesis by (auto split: if_splits)
  qed
qed simp

lemma scan_present_fits:
  "scan_present address answers ([], False, False) = Some p \<Longrightarrow> present_fits address answers p"
  using scan_present_step [of address "[]" "([], False, False)" answers p]
  by (simp add: present_fits_def)

lemma family_item_Inr:
  assumes "family_item vw answers present owner next family = Inr item"
  shows "\<exists>found. filter (\<lambda>a. canonical_name (ae_name a) = owner \<and> ae_qtype a = family) answers = [found]
     \<and> ae_failure found = [] \<and> ce_name item = owner \<and> ce_view item = v_id vw \<and> ce_qtype item = family
     \<and> (fst present \<noteq> [] \<and> (ae_cname found \<noteq> [] \<or> (family = ''A'' \<and> fst (snd present)) \<or> (family = ''AAAA'' \<and> snd (snd present)))
        \<longrightarrow> ce_positive item = ae_positive found)
     \<and> (next = None \<longrightarrow> addresses (ae_addresses found) = addresses (if family = ''AAAA'' then v_aaaa vw else v_a vw))"
  using assms
  by (cases present) (auto simp: family_item_def Let_def split: list.splits option.splits if_splits)

lemma family_item_Inl: "family_item vw answers present owner next family = Inl f \<Longrightarrow> f \<noteq> []"
  by (cases present) (auto simp: family_item_def Let_def split: list.splits option.splits if_splits)

definition item_for :: "view \<Rightarrow> answer_evidence list \<Rightarrow> string \<times> bool \<times> bool \<Rightarrow> string \<Rightarrow> string \<Rightarrow> cache_evidence \<Rightarrow> bool" where
  "item_for vw answers present owner family item \<longleftrightarrow>
     (\<exists>found. filter (\<lambda>a. canonical_name (ae_name a) = owner \<and> ae_qtype a = family) answers = [found]
     \<and> ae_failure found = [] \<and> ce_name item = owner \<and> ce_view item = v_id vw \<and> ce_qtype item = family
     \<and> (fst present \<noteq> [] \<and> (ae_cname found \<noteq> [] \<or> (family = ''A'' \<and> fst (snd present)) \<or> (family = ''AAAA'' \<and> snd (snd present)))
        \<longrightarrow> ce_positive item = ae_positive found))"

lemma family_item_for:
  "family_item vw answers present owner next family = Inr item \<Longrightarrow> item_for vw answers present owner family item"
  using family_item_Inr [of vw answers present owner "next" family item] by (fastforce simp: item_for_def)

lemma owner_items_ok:
  assumes "owner_items vw answers present owners cache = (cache', [])"
  shows "set cache \<subseteq> set cache' \<and> (\<forall>o1 \<in> set owners. \<forall>fam \<in> {''A'', ''AAAA''}.
     \<exists>item \<in> set cache'. item_for vw answers present o1 fam item)"
  using assms
proof (induction vw answers present owners cache rule: owner_items.induct)
  case (2 vw answers present owner rest cache)
  let ?next = "case rest of [] \<Rightarrow> None | n # _ \<Rightarrow> Some n"
  obtain ia ib where ia: "family_item vw answers present owner ?next ''A'' = Inr ia"
    and ib: "family_item vw answers present owner ?next ''AAAA'' = Inr ib"
    and rest: "owner_items vw answers present rest (cache @ [ia, ib]) = (cache', [])"
    using 2(2) by (auto simp: Let_def dest: family_item_Inl split: sum.splits)
  from "2.IH" [OF refl ia ib rest] family_item_for [OF ia] family_item_for [OF ib]
  show ?case by auto
qed simp

lemma view_evidence_clean:
  assumes "view_evidence name address vw = (cache, qt, [])"
  shows "v_failure vw = []" and "\<not> v_mismatch vw" and "rcode_answered (v_rcode vw)"
    and "\<forall>a \<in> set (v_answers vw). ae_failure a = [] \<and> ae_qtype a \<in> {''A'', ''AAAA''}"
    and "qt = [] \<longleftrightarrow> \<not> (\<exists>a \<in> set (v_answers vw). answer_holds address a)"
    and "a \<in> set (v_answers vw) \<Longrightarrow> answer_holds address a \<Longrightarrow>
      \<exists>c \<in> set cache. ce_view c = v_id vw \<and> ce_name c = canonical_name (ae_name a) \<and> ce_qtype c = ae_qtype a
        \<and> ce_positive c = ae_positive a"
proof -
  let ?owners = "canonical_name name # names_in_order (v_chain vw)"
  define answers where "answers = sort_key (\<lambda>a. (ae_name a, ae_qtype a)) (v_answers vw)"
  have set_answers: "set answers = set (v_answers vw)" by (simp add: answers_def)
  have base: "v_failure vw = []" "\<not> v_mismatch vw" "rcode_answered (v_rcode vw)" "distinct ?owners"
    "length answers = 2 * length ?owners"
    using assms by (auto simp: view_evidence_def Let_def answers_def rcode_failure_def split: if_splits option.splits prod.splits)
  obtain p items where scan: "scan_present address answers ([], False, False) = Some p"
    and items: "owner_items vw answers p ?owners [] = (items, [])" and qt: "qt = fst p"
    and cache: "set cache = set items"
    using assms by (auto simp: view_evidence_def Let_def answers_def rcode_failure_def split: if_splits option.splits prod.splits)
  note fits = scan_present_fits [OF scan]
  note ok = owner_items_ok [OF items]
  let ?key = "\<lambda>a. (canonical_name (ae_name a), ae_qtype a)"
  let ?keys = "concat (map (\<lambda>o1. [(o1, ''A''), (o1, ''AAAA'')]) ?owners)"
  have dist: "distinct (concat (map (\<lambda>o1. [(o1, ''A''), (o1, ''AAAA'')]) os))" if "distinct os" for os :: "string list"
    using that by (induction os) auto
  have len: "length (concat (map (\<lambda>o1. [(o1, ''A''), (o1, ''AAAA'')]) os)) = 2 * length os" for os :: "string list"
    by (induction os) auto
  have one: "length (filter (\<lambda>a. ?key a = k) answers) = 1" if "k \<in> set ?keys" for k
  proof -
    obtain o1 fam where k: "k = (o1, fam)" by (cases k)
    have "o1 \<in> set ?owners" "fam \<in> {''A'', ''AAAA''}" using that unfolding k by auto
    then obtain item where "item_for vw answers p o1 fam item" using ok by blast
    then show ?thesis by (auto simp: item_for_def k)
  qed
  have key: "?key a \<in> set ?keys" if "a \<in> set answers" for a
    by (rule keys_cover [OF dist [OF base(4)] one _ that]) (simp_all add: len base(5))
  have each: "\<exists>item \<in> set items. item_for vw answers p (canonical_name (ae_name a)) (ae_qtype a) item
      \<and> filter (\<lambda>b. ?key b = ?key a) answers = [a]" if "a \<in> set answers" for a
  proof -
    have "\<exists>item \<in> set items. item_for vw answers p (canonical_name (ae_name a)) (ae_qtype a) item"
      using key [OF that] ok by auto
    moreover have "filter (\<lambda>b. ?key b = ?key a) answers = [a]"
    proof -
      have one_a: "length (filter (\<lambda>b. ?key b = ?key a) answers) = 1" using one [OF key [OF that]] .
      have "a \<in> set (filter (\<lambda>b. ?key b = ?key a) answers)" using that by simp
      moreover obtain b where b: "filter (\<lambda>b. ?key b = ?key a) answers = [b]"
        using one_a by (auto simp: length_Suc_conv)
      ultimately have "a = b" unfolding b by simp
      with b show ?thesis by simp
    qed
    ultimately show ?thesis by blast
  qed
  show "v_failure vw = []" "\<not> v_mismatch vw" "rcode_answered (v_rcode vw)" using base by auto
  show types: "\<forall>a \<in> set (v_answers vw). ae_failure a = [] \<and> ae_qtype a \<in> {''A'', ''AAAA''}"
  proof
    fix a assume "a \<in> set (v_answers vw)"
    then have a: "a \<in> set answers" by (simp add: set_answers)
    from each [OF a] have "ae_failure a = []" by (auto simp: item_for_def)
    moreover have "ae_qtype a \<in> {''A'', ''AAAA''}" using key [OF a] by auto
    ultimately show "ae_failure a = [] \<and> ae_qtype a \<in> {''A'', ''AAAA''}" by simp
  qed
  show qt_iff: "qt = [] \<longleftrightarrow> \<not> (\<exists>a \<in> set (v_answers vw). answer_holds address a)"
    using fits types unfolding qt present_fits_def set_answers by (auto split: if_splits)
  show "\<exists>c \<in> set cache. ce_view c = v_id vw \<and> ce_name c = canonical_name (ae_name a) \<and> ce_qtype c = ae_qtype a
        \<and> ce_positive c = ae_positive a" if "a \<in> set (v_answers vw)" "answer_holds address a"
  proof -
    have a: "a \<in> set answers" using that by (simp add: set_answers)
    obtain item where item: "item \<in> set items" "item_for vw answers p (canonical_name (ae_name a)) (ae_qtype a) item"
      "filter (\<lambda>b. ?key b = ?key a) answers = [a]" using each [OF a] by blast
    have "fst p \<noteq> []" using qt_iff that qt by blast
    moreover have "(ae_qtype a = ''A'' \<and> fst (snd p)) \<or> (ae_qtype a = ''AAAA'' \<and> snd (snd p))"
      using fits types that a unfolding present_fits_def set_answers by auto
    ultimately show ?thesis using item cache by (auto simp: item_for_def intro!: bexI [of _ item])
  qed
qed

definition holds_address :: "addr \<Rightarrow> view \<Rightarrow> bool" where
  "holds_address address vw \<longleftrightarrow> (\<exists>a \<in> set (v_answers vw). answer_holds address a)"

lemma withdrawal_step_simps:
  assumes "view_evidence name address vw = (cache, qt, [])"
  shows "wd_cache (withdrawal_step name address vw cache qt w) = wd_cache w @ cache"
    and "wd_status w \<noteq> ConditionUnknown \<Longrightarrow> wd_status (withdrawal_step name address vw cache qt w) \<noteq> ConditionUnknown"
    and "wd_status (withdrawal_step name address vw cache qt w) = ConditionTrue
      \<longleftrightarrow> wd_status w = ConditionTrue \<and> \<not> holds_address address vw"
  using view_evidence_clean(5) [OF assms]
  by (auto simp: withdrawal_step_def Let_def holds_address_def)

lemma withdrawal_scan_Inr:
  assumes "withdrawal_scan name address prev vs w = Inr w'" and "wd_status w \<noteq> ConditionUnknown"
  shows "set (wd_cache w) \<subseteq> set (wd_cache w')
    \<and> (\<forall>v \<in> set vs. \<exists>cache qt. view_evidence name address v = (cache, qt, []) \<and> set cache \<subseteq> set (wd_cache w'))
    \<and> (wd_status w' = ConditionTrue \<longleftrightarrow> wd_status w = ConditionTrue \<and> (\<forall>v \<in> set vs. \<not> holds_address address v))
    \<and> wd_status w' \<noteq> ConditionUnknown
    \<and> distinct_adj (map v_id vs) \<and> (vs \<noteq> [] \<longrightarrow> prev \<noteq> Some (v_id (hd vs)))"
  using assms
proof (induction vs arbitrary: prev w)
  case (Cons vw rest)
  obtain cache qt where ev: "view_evidence name address vw = (cache, qt, [])"
    and prev: "prev \<noteq> Some (v_id vw)"
    and rec: "withdrawal_scan name address (Some (v_id vw)) rest (withdrawal_step name address vw cache qt w) = Inr w'"
    using Cons.prems(1) by (auto split: if_splits prod.splits)
  note step = withdrawal_step_simps [OF ev, of w]
  from Cons.IH [OF rec step(2) [OF Cons.prems(2)]] step ev prev
  show ?case by (cases rest) auto
qed simp

lemma sorted_distinct_adj: "sorted (xs :: 'a::linorder list) \<Longrightarrow> distinct_adj xs \<Longrightarrow> distinct xs"
  using sorted_distinct_remdups_adj [of xs] by (simp add: distinct_adj_altdef)

text \<open>What a completed evaluation has checked, whatever its verdict.\<close>

definition views_complete :: "(policy \<Rightarrow> string) \<Rightarrow> probe_request \<Rightarrow> probe_result \<Rightarrow> bool" where
  "views_complete fp req res \<longleftrightarrow>
     p_servers (q_policy req) \<noteq> [] \<and> distinct (map v_id (r_views res))
   \<and> (\<forall>s \<in> set (p_servers (q_policy req)). \<exists>v \<in> set (r_views res). v_id v = recursive_id s)
   \<and> (p_expected_ns (q_policy req) \<noteq> [] \<longrightarrow> (\<exists>ev. q_evidence req = Some ev \<and> zone_verified req True ev
        \<and> ze_zone ev = q_zone req \<and> ze_fingerprint ev = fp (q_policy req)
        \<and> (\<forall>a \<in> set (ze_authorities ev). \<forall>s \<in> set (p_servers (q_policy req)).
             \<exists>v \<in> set (r_views res). v_id v = via_id a s \<and> v_authoritative v)))"

definition view_clean :: "view \<Rightarrow> bool" where
  "view_clean v \<longleftrightarrow> v_failure v = [] \<and> \<not> v_mismatch v \<and> rcode_answered (v_rcode v)
     \<and> (\<forall>a \<in> set (v_answers v). ae_failure a = [] \<and> ae_qtype a \<in> {''A'', ''AAAA''})"

lemma evaluate_withdrawal_shape:
  assumes "parse_addr (q_withdrawal req) = Some ip" and "addr_zone ip = []"
  shows "(\<exists>vw code. evaluate_withdrawal fp req res
       = with_cache (positive_evidence res (unmap ip)) (withdrawal_failed (q_name req) vw code))
     \<or> withdrawal_scan (q_name req) (unmap ip) None (sort_key v_id (r_views res))
         \<lparr>wd_decision = new_decision ConditionTrue ''WithdrawalVerified'' [], wd_cache = []\<rparr>
       = Inr (evaluate_withdrawal fp req res)"
  using assms unfolding evaluate_withdrawal_def Let_def
  by (simp split: option.split sum.split prod.split) blast

lemma evaluate_withdrawal_invalid:
  assumes "parse_addr (q_withdrawal req) = None \<or> (\<exists>ip. parse_addr (q_withdrawal req) = Some ip \<and> addr_zone ip \<noteq> [])"
  shows "evaluate_withdrawal fp req res = withdrawal_failed (q_name req) ''required-views'' ''invalid-response''"
  using assms by (auto simp: evaluate_withdrawal_def Let_def)

lemma withdrawal_failed_reason [simp, go_simps]: "d_reason (wd_decision (withdrawal_failed n v f)) = ''DNSProbeFailed''"
  by (simp add: withdrawal_failed_def Let_def)

lemma authority_missing_None:
  "authority_missing req res ev = None \<longleftrightarrow>
     (\<forall>a \<in> set (ze_authorities ev). \<forall>s \<in> set (p_servers (q_policy req)).
        \<exists>v \<in> set (r_views res). v_id v = via_id a s \<and> v_authoritative v)"
  by (fastforce simp: authority_missing_def find_None_iff)

lemma evaluate_withdrawal_completed:
  assumes "wd_status (evaluate_withdrawal fp req res) \<noteq> ConditionUnknown"
  obtains ip w where "parse_addr (q_withdrawal req) = Some ip" "addr_zone ip = []"
    "withdrawal_scan (q_name req) (unmap ip) None (sort_key v_id (r_views res))
       \<lparr>wd_decision = new_decision ConditionTrue ''WithdrawalVerified'' [], wd_cache = []\<rparr> = Inr w"
    "evaluate_withdrawal fp req res = w" "views_complete fp req res"
proof -
  obtain ip where ip: "parse_addr (q_withdrawal req) = Some ip" "addr_zone ip = []"
    using assms by (auto simp: evaluate_withdrawal_def Let_def split: option.splits if_splits)
  obtain w where scan: "withdrawal_scan (q_name req) (unmap ip) None (sort_key v_id (r_views res))
       \<lparr>wd_decision = new_decision ConditionTrue ''WithdrawalVerified'' [], wd_cache = []\<rparr> = Inr w"
    and w: "evaluate_withdrawal fp req res = w"
    using assms ip by (auto simp: evaluate_withdrawal_def Let_def split: option.splits if_splits sum.splits)
  have "distinct_adj (map v_id (sort_key v_id (r_views res)))"
    using withdrawal_scan_Inr [OF scan] by simp
  then have "distinct (map v_id (sort_key v_id (r_views res)))"
    by (rule sorted_distinct_adj [OF sorted_sort_key])
  then have "distinct (map v_id (r_views res))"
    by (simp add: distinct_map)
  then have "views_complete fp req res"
    using assms ip
    by (auto simp: views_complete_def evaluate_withdrawal_def Let_def recursive_missing_def authority_missing_None
        evidence_accepted_def find_None_iff evaluate_zone_def evaluate_zone_with_true_iff
        split: option.splits if_splits)
  then show thesis using that ip scan w by blast
qed

text \<open>
  C29. A withdrawal is verified only when every required view was observed exactly once, every
  observed view is complete and clean, and no answer of any view holds the retired address; with
  expected name servers the delegation evidence is verified and every authority answered
  authoritatively through every resolver. It is refuted only when an answer of a complete
  observation holds the address, and everything else is an unknown outcome.
\<close>

theorem evaluate_withdrawal_verdict:
  "case wd_status (evaluate_withdrawal fp req res) of
     ConditionTrue \<Rightarrow> \<exists>ip. parse_addr (q_withdrawal req) = Some ip \<and> views_complete fp req res
       \<and> (\<forall>v \<in> set (r_views res). view_clean v \<and> \<not> holds_address (unmap ip) v)
   | ConditionFalse \<Rightarrow> \<exists>ip. parse_addr (q_withdrawal req) = Some ip \<and> views_complete fp req res
       \<and> (\<exists>v \<in> set (r_views res). holds_address (unmap ip) v)
   | ConditionUnknown \<Rightarrow> d_reason (wd_decision (evaluate_withdrawal fp req res)) = ''DNSProbeFailed''"
proof (cases "wd_status (evaluate_withdrawal fp req res) = ConditionUnknown")
  case False
  then show ?thesis
  proof (rule evaluate_withdrawal_completed)
    fix ip w
    assume a: "parse_addr (q_withdrawal req) = Some ip" "addr_zone ip = []"
      and scan: "withdrawal_scan (q_name req) (unmap ip) None (sort_key v_id (r_views res))
         \<lparr>wd_decision = new_decision ConditionTrue ''WithdrawalVerified'' [], wd_cache = []\<rparr> = Inr w"
      and w: "evaluate_withdrawal fp req res = w" "views_complete fp req res"
    have sc: "\<forall>v \<in> set (r_views res). \<exists>cache qt. view_evidence (q_name req) (unmap ip) v = (cache, qt, [])"
      "wd_status w = ConditionTrue \<longleftrightarrow> (\<forall>v \<in> set (r_views res). \<not> holds_address (unmap ip) v)"
      using withdrawal_scan_Inr [OF scan] by auto
    have "\<forall>v \<in> set (r_views res). view_clean v"
      using sc(1) view_evidence_clean(1-4) unfolding view_clean_def by metis
    then show ?thesis using a w sc(2) False by (auto split: condition_status.splits)
  qed
next
  case True
  have "d_reason (wd_decision (evaluate_withdrawal fp req res)) = ''DNSProbeFailed''"
  proof (cases "\<exists>ip. parse_addr (q_withdrawal req) = Some ip \<and> addr_zone ip = []")
    case True
    then obtain ip where ip: "parse_addr (q_withdrawal req) = Some ip" "addr_zone ip = []" by blast
    show ?thesis
      using evaluate_withdrawal_shape [OF ip, of fp res] withdrawal_scan_Inr \<open>wd_status _ = ConditionUnknown\<close> by fastforce
  next
    case False
    then show ?thesis by (subst evaluate_withdrawal_invalid) (cases "parse_addr (q_withdrawal req)", auto)
  qed
  with True show ?thesis by simp
qed

text \<open>
  C37. Evidence is never lost: whatever the verdict, the positive lifetime of every answer that
  holds the retired address is in the decision's cache, under its view and type.
\<close>

theorem evaluate_withdrawal_retains:
  assumes "parse_addr (q_withdrawal req) = Some ip" and "addr_zone ip = []"
    and "v \<in> set (r_views res)" and "a \<in> set (v_answers v)" and "answer_holds (unmap ip) a"
    and "ae_positive a = Some t" and "ae_qtype a \<in> {''A'', ''AAAA''}"
  shows "\<exists>c \<in> set (wd_cache (evaluate_withdrawal fp req res)).
     ce_view c = v_id v \<and> ce_qtype c = ae_qtype a \<and> ce_positive c = Some t
     \<and> ce_name c \<in> {ae_name a, canonical_name (ae_name a)}"
proof (cases "wd_status (evaluate_withdrawal fp req res) = ConditionUnknown")
  case False
  then show ?thesis
  proof (rule evaluate_withdrawal_completed)
    fix ip' w
    assume a: "parse_addr (q_withdrawal req) = Some ip'"
      and scan: "withdrawal_scan (q_name req) (unmap ip') None (sort_key v_id (r_views res))
         \<lparr>wd_decision = new_decision ConditionTrue ''WithdrawalVerified'' [], wd_cache = []\<rparr> = Inr w"
      and w: "evaluate_withdrawal fp req res = w"
    have ip: "ip' = ip" using a assms(1) by simp
    obtain cache qt where ev: "view_evidence (q_name req) (unmap ip) v = (cache, qt, [])"
      and sub: "set cache \<subseteq> set (wd_cache w)"
      using withdrawal_scan_Inr [OF scan] assms(3) ip by auto
    from view_evidence_clean(6) [OF ev assms(4,5)] sub w assms(6) show ?thesis by auto
  qed
next
  case True
  define c where "c = \<lparr>ce_name = ae_name a, ce_view = v_id v, ce_qtype = ae_qtype a,
     ce_positive = ae_positive a, ce_negative = None\<rparr>"
  have "c \<in> set (view_positive (unmap ip) v)"
    using assms(4-7) by (auto simp: view_positive_def Let_def c_def)
  then have "c \<in> set (positive_evidence res (unmap ip))"
    using assms(3) by (auto simp: positive_evidence_def)
  moreover have "wd_cache (evaluate_withdrawal fp req res) = positive_evidence res (unmap ip)"
    using evaluate_withdrawal_shape [OF assms(1,2), of fp res] withdrawal_scan_Inr True by fastforce
  ultimately show ?thesis using assms(6) by (intro bexI [of _ c]) (auto simp: c_def)
qed

definition demo_answer :: "string \<Rightarrow> answer_evidence" where
  "demo_answer qt = \<lparr>ae_name = ''www.example.com'', ae_qtype = qt, ae_rcode = 0, ae_addresses = [],
     ae_cname = [], ae_positive = None, ae_negative = Some 300, ae_failure = []\<rparr>"

definition demo_view :: view where
  "demo_view = (empty_view ''recursive/10.0.0.1:53'')\<lparr>v_answers := [demo_answer ''A'', demo_answer ''AAAA'']\<rparr>"

definition demo_request :: probe_request where
  "demo_request = \<lparr>q_name = ''www.example.com'', q_zone = ''example.com'',
     q_expected = \<lparr>rr_a = [], rr_aaaa = [], rr_cname = []\<rparr>,
     q_policy = \<lparr>p_mode = ''Recursive'', p_servers = [''10.0.0.1:53''], p_expected_ns = []\<rparr>,
     q_due = 0, q_zone_only = False, q_evidence = None, q_withdrawal = ''192.0.2.1''\<rparr>"

definition demo_result :: probe_result where
  "demo_result = \<lparr>r_views = [demo_view], r_zone = None\<rparr>"

lemma demo_verified: "wd_status (evaluate_withdrawal (\<lambda>_. []) demo_request demo_result) = ConditionTrue"
  by code_simp

theorem evaluate_withdrawal_verdict_witness:
  "views_complete (\<lambda>_. []) demo_request demo_result \<and> \<not> holds_address (V4 192 0 2 1) demo_view"
proof -
  have ip: "parse_addr (q_withdrawal demo_request) = Some (V4 192 0 2 1)" by code_simp
  show ?thesis
    using evaluate_withdrawal_verdict [where fp = "\<lambda>_. []" and req = demo_request and res = demo_result]
    by (simp add: demo_verified ip) (simp add: demo_result_def)
qed

definition demo_answer_held :: answer_evidence where
  "demo_answer_held = (demo_answer ''A'')\<lparr>ae_addresses := [''192.0.2.1''], ae_positive := Some 60, ae_negative := None\<rparr>"

definition demo_result_held :: probe_result where
  "demo_result_held = \<lparr>r_views = [demo_view\<lparr>v_a := [''192.0.2.1''], v_answers := [demo_answer_held, demo_answer ''AAAA'']\<rparr>],
     r_zone = None\<rparr>"

theorem evaluate_withdrawal_retains_witness:
  "\<exists>c \<in> set (wd_cache (evaluate_withdrawal (\<lambda>_. []) demo_request demo_result_held)). ce_positive c = Some 60"
proof -
  have ip: "parse_addr (q_withdrawal demo_request) = Some (V4 192 0 2 1)" by code_simp
  have holds: "answer_holds (unmap (V4 192 0 2 1)) demo_answer_held" by code_simp
  show ?thesis
    using evaluate_withdrawal_retains [OF ip _ _ _ holds, where v = "hd (r_views demo_result_held)" and res = demo_result_held and t = 60 and fp = "\<lambda>_. []"]
    by (auto simp: demo_result_held_def demo_answer_held_def demo_answer_def)
qed

end
