(* ===== verification/Hosted_Withdrawal.thy ===== *)
theory Hosted_Withdrawal
  imports Probe_Withdrawal Dns_Msg
begin

text \<open>
  \<open>internal/go/providers/hosted/withdrawal\<close>: the private evidence state of one withdrawal
  claim (\<open>state.go\<close>) and its evaluation against the served snapshot and all views
  (\<open>evaluator.go\<close>). The clock, the resolver, the digests and the rendering of a time are
  parameters: \<open>ev_clock n\<close> is the n-th reading of the clock and \<open>ev_probe n\<close> the n-th
  probe.
\<close>

section \<open>State\<close>

record wstate =
  st_identity :: string
  st_policy :: string
  st_views :: "string list"
  st_soa_minimum :: uint32
  st_checked_names :: "string list"
  st_positive :: "(string \<times> gotime) list"
  st_negative :: "(string \<times> uint32) list"
  st_window_start :: gotime
  st_absent_since :: "gotime option"
  st_not_before :: "gotime option"
  st_verified_at :: "gotime option"
  st_last_probe :: gotime
  st_next_probe :: gotime
  st_failures :: int
  st_missing_history :: bool

record wd_input =
  in_claim :: unit_withdrawal
  in_snapshot :: hosted_spec
  in_served :: bool
  in_policy :: policy
  in_soa_minimum :: uint32
  in_now :: gotime
  in_previous :: "wstate option"

record wd_env =
  ev_clock :: "nat \<Rightarrow> gotime"
  ev_probe :: "(nat \<Rightarrow> probe_request \<Rightarrow> probe_result \<times> go_error option) option"
  ev_policy_digest :: "policy \<Rightarrow> string"
  ev_claim_digest :: "string \<Rightarrow> withdrawal_ref \<Rightarrow> int \<Rightarrow> string \<Rightarrow> string \<Rightarrow> string"
  ev_effective_digest :: "policy \<Rightarrow> uint32 \<Rightarrow> string \<Rightarrow> string"
  ev_format :: "gotime \<Rightarrow> string"

definition claim_identity :: "wd_env \<Rightarrow> wd_input \<Rightarrow> string" where
  "claim_identity env i = ev_claim_digest env (hs_domain (in_snapshot i)) (uw_claim (in_claim i))
     (uw_observed (in_claim i)) (uw_name (in_claim i)) (uw_address (in_claim i))"

definition checked_name :: "wd_input \<Rightarrow> string \<Rightarrow> string" where
  "checked_name i identity =
     (let cname = uw_name (in_claim i); domain = hs_domain (in_snapshot i);
          name = (if cname \<noteq> ''@'' then cname @ ''.'' @ domain else domain)
      in if cname = ''*'' \<or> has_prefix cname ''*.''
         then ''dns-retire-'' @ take 24 identity @ trim_prefix name ''*'' else name)"

definition fresh_state :: "string \<Rightarrow> string list \<Rightarrow> wstate" where
  "fresh_state identity checked = \<lparr>st_identity = identity, st_policy = [], st_views = [], st_soa_minimum = 0,
     st_checked_names = checked, st_positive = [], st_negative = [], st_window_start = 0,
     st_absent_since = None, st_not_before = None, st_verified_at = None, st_last_probe = 0,
     st_next_probe = 0, st_failures = 0, st_missing_history = False\<rparr>"

definition initial_state :: "wd_env \<Rightarrow> wd_input \<Rightarrow> wstate" where
  "initial_state env i =
     (let identity = claim_identity env i;
          fresh = fresh_state identity [checked_name i identity] in
      case in_previous i of
        Some prev \<Rightarrow>
          if st_identity prev = identity
          then prev\<lparr>st_missing_history := (st_missing_history prev \<or> st_checked_names prev = []
                 \<or> (st_last_probe prev \<noteq> 0 \<and> st_policy prev = []))\<rparr>
          else fresh\<lparr>st_missing_history := st_missing_history prev,
                     st_positive := (if st_identity prev = [] then st_positive prev else [])\<rparr>
      | None \<Rightarrow> fresh)"

definition invalidate :: "wstate \<Rightarrow> wstate" where
  "invalidate s = s\<lparr>st_absent_since := None, st_not_before := None, st_verified_at := None,
     st_window_start := 0, st_negative := []\<rparr>"

definition retain_item :: "string \<Rightarrow> gotime \<Rightarrow> cache_evidence \<Rightarrow> (string \<times> gotime) list \<Rightarrow> (string \<times> gotime) list" where
  "retain_item name now item pos =
     (case ce_positive item of None \<Rightarrow> pos
      | Some ttl \<Rightarrow>
        let key = name @ ''/'' @ ce_view item @ ''/'' @ ce_qtype item; expires = now + seconds ttl in
        if map_get pos key < expires then map_put pos key expires else pos)"

definition retain_positive :: "string \<Rightarrow> cache_evidence list \<Rightarrow> gotime \<Rightarrow> wstate \<Rightarrow> wstate" where
  "retain_positive name evidence now s = s\<lparr>st_positive := fold (retain_item name now) evidence (st_positive s)\<rparr>"

text \<open>A public horizon is rounded up to a whole second.\<close>

definition round_up :: "gotime \<Rightarrow> gotime" where
  "round_up t = (if t mod second \<noteq> 0 then (t div second) * second + second else t)"

abbreviation soa_key :: string where "soa_key \<equiv> ''soa.minimum''"

definition window :: "uint32 \<Rightarrow> gotime \<Rightarrow> wstate \<Rightarrow> wstate \<times> decision" where
  "window minimum now s0 =
     (let s1 = (if st_absent_since s0 \<noteq> None \<and> st_window_start s0 = 0 then invalidate s0 else s0);
          confirming = (st_absent_since s1 \<noteq> None \<and> st_last_probe s1 \<noteq> 0 \<and> st_last_probe s1 < now);
          s2 = (if st_absent_since s1 = None then s1\<lparr>st_absent_since := Some now, st_window_start := now\<rparr> else s1);
          s3 = s2\<lparr>st_negative := map_put (st_negative s2) soa_key (max (map_get (st_negative s2) soa_key) minimum)\<rparr>;
          nb1 = st_window_start s3 + seconds (map_get (st_negative s3) soa_key);
          nb2 = (case st_not_before s3 of None \<Rightarrow> nb1 | Some t \<Rightarrow> if nb1 < t then t else nb1);
          nb3 = fold (\<lambda>p nb. max nb (snd p)) (st_positive s3) nb2;
          nb = round_up nb3;
          s4 = s3\<lparr>st_not_before := Some nb\<rparr>
      in if \<not> confirming \<or> now < nb
         then (s4\<lparr>st_verified_at := None\<rparr>, new_decision ConditionFalse ''NegativeTTLNotElapsed'' [])
         else (s4\<lparr>st_verified_at := Some now\<rparr>, new_decision ConditionTrue ''WithdrawalVerified'' []))"

definition backoff_steps :: "duration list" where
  "backoff_steps = [30 * second, 60 * second, 120 * second, 300 * second]"

definition schedule :: "condition_status \<Rightarrow> bool \<Rightarrow> gotime \<Rightarrow> wstate \<Rightarrow> wstate" where
  "schedule status changed now s =
     (let f0 = (if changed \<or> status \<noteq> ConditionUnknown then 0 else st_failures s);
          f1 = (if status = ConditionUnknown then min (f0 + 1) (int (length backoff_steps)) else f0);
          interval = (if status = ConditionUnknown then backoff_steps ! nat (max (f1 - 1) 0) else 30 * second)
      in s\<lparr>st_failures := f1, st_last_probe := now, st_next_probe := now + interval\<rparr>)"

section \<open>Exclusion from the snapshot\<close>

definition snapshot_node_exists :: "hosted_spec \<Rightarrow> string \<Rightarrow> bool" where
  "snapshot_node_exists spec relative \<longleftrightarrow> relative = ''@''
     \<or> (\<exists>r \<in> set (hs_records spec). hr_name r = relative \<or> has_suffix (hr_name r) (''.'' @ relative))"

function closest_wildcard :: "hosted_spec \<Rightarrow> string \<Rightarrow> string" where
  "closest_wildcard spec relative =
     (if relative = ''@'' then ''@''
      else (case cut (CHR ''.'') relative of (_, after, found) \<Rightarrow>
        let parent = (if found then after else ''@'') in
        if snapshot_node_exists spec parent then (if parent = ''@'' then ''*'' else ''*.'' @ parent)
        else closest_wildcard spec parent))"
  by pat_completeness auto
termination
  by (relation "measure (\<lambda>(spec, relative). length relative)")
     (auto simp: snapshot_node_exists_def dest!: cut_length [OF sym] split: if_splits)

declare closest_wildcard.simps [simp del]

definition snapshot_owner :: "hosted_spec \<Rightarrow> string \<Rightarrow> string" where
  "snapshot_owner spec name =
     (let relative = (if name \<noteq> hs_domain spec then trim_suffix name (''.'' @ hs_domain spec) else ''@'') in
      if snapshot_node_exists spec relative then relative else closest_wildcard spec relative)"

text \<open>An address record is readable when every value is an unscoped address of its family.\<close>

definition readable :: "hosted_record \<Rightarrow> bool" where
  "readable r \<longleftrightarrow> (\<forall>v \<in> set (hr_values r). address_fits (hr_type r) v \<noteq> None)"

record owner_scan =
  os_cname :: "hosted_record option"
  os_decision :: withdrawal_decision

definition still_resolves :: "string \<Rightarrow> string \<Rightarrow> string \<Rightarrow> uint32 \<Rightarrow> hosted_record \<Rightarrow> withdrawal_decision
    \<Rightarrow> withdrawal_decision" where
  "still_resolves checked address name ttl r w =
     w\<lparr>wd_cache := wd_cache w @ [\<lparr>ce_name = name, ce_view = ''snapshot'', ce_qtype = hr_type r,
           ce_positive = Some (max ttl (hr_ttl r)), ce_negative = None\<rparr>],
       wd_decision := (wd_decision w)\<lparr>d_status := ConditionFalse, d_reason := ''DNSStillResolves'',
           d_message := ''DNS '' @ checked @ '' still resolves to retired address '' @ address
             @ '' in snapshot ('' @ hr_type r @ '').''\<rparr>\<rparr>"

fun scan_owner :: "string \<Rightarrow> string \<Rightarrow> addr option \<Rightarrow> string \<Rightarrow> string \<Rightarrow> uint32 \<Rightarrow> hosted_record list
    \<Rightarrow> owner_scan \<Rightarrow> owner_scan option" where
  "scan_owner checked address retired name owner ttl [] acc = Some acc"
| "scan_owner checked address retired name owner ttl (r # rs) acc =
     (if hr_name r \<noteq> owner then scan_owner checked address retired name owner ttl rs acc
      else if hr_type r = TypeCNAME
      then scan_owner checked address retired name owner ttl rs (acc\<lparr>os_cname := Some r\<rparr>)
      else if hr_type r \<noteq> TypeA \<and> hr_type r \<noteq> TypeAAAA
      then scan_owner checked address retired name owner ttl rs acc
      else if \<not> readable r then None
      else scan_owner checked address retired name owner ttl rs
            (acc\<lparr>os_decision := fold (\<lambda>v w. if map_option unmap (address_fits (hr_type r) v) = retired
                then still_resolves checked address name ttl r w else w) (hr_values r) (os_decision acc)\<rparr>))"

text \<open>The loop over the links; the first argument counts the remaining iterations.\<close>

fun snapshot_loop :: "nat \<Rightarrow> hosted_spec \<Rightarrow> string \<Rightarrow> string \<Rightarrow> addr option \<Rightarrow> string \<Rightarrow> uint32 \<Rightarrow> string list
    \<Rightarrow> withdrawal_decision \<Rightarrow> withdrawal_decision" where
  "snapshot_loop 0 spec checked address retired name ttl visited w =
     withdrawal_failed checked ''snapshot'' ''chain-limit''"
| "snapshot_loop (Suc k) spec checked address retired name ttl visited w =
     (if name \<noteq> hs_domain spec \<and> \<not> has_suffix name (''.'' @ hs_domain spec) then w
      else if name \<in> set visited then withdrawal_failed checked ''snapshot'' ''chain-limit''
      else (case scan_owner checked address retired name (snapshot_owner spec name) ttl (hs_records spec)
                   \<lparr>os_cname = None, os_decision = w\<rparr> of
          None \<Rightarrow> withdrawal_failed checked ''snapshot'' ''invalid-response''
        | Some acc \<Rightarrow>
          (case os_cname acc of
             None \<Rightarrow> os_decision acc
           | Some c \<Rightarrow>
             if wd_status (os_decision acc) = ConditionFalse then os_decision acc
             else (case hr_values c of
                 [target] \<Rightarrow>
                   if \<not> valid_name (canonical_name target) then withdrawal_failed checked ''snapshot'' ''invalid-response''
                   else snapshot_loop k spec checked address retired (canonical_name target) (max ttl (hr_ttl c))
                          (name # visited) (os_decision acc)
               | _ \<Rightarrow> withdrawal_failed checked ''snapshot'' ''invalid-response''))))"

text \<open>An unparsable address is the zero address, which equals no parsed value.\<close>

definition snapshot_exclusion :: "hosted_spec \<Rightarrow> string \<Rightarrow> string \<Rightarrow> withdrawal_decision" where
  "snapshot_exclusion spec checked address =
     snapshot_loop 9 spec checked address (parse_addr address) checked 0 []
       \<lparr>wd_decision = new_decision ConditionTrue ''WithdrawalVerified'' [], wd_cache = []\<rparr>"

section \<open>Evaluation\<close>

definition valid_claim :: "wd_input \<Rightarrow> bool" where
  "valid_claim i =
     (let item = in_claim i; domain = hs_domain (in_snapshot i) in
      (case parse_addr (uw_address item) of None \<Rightarrow> False
       | Some ip \<Rightarrow> addr_zone ip = [] \<and> addr_string (unmap ip) = uw_address item)
      \<and> uw_allowed item \<and> wr_uid (uw_claim item) \<noteq> [] \<and> uw_claim_namespace item \<noteq> [] \<and> uw_claim_name item \<noteq> []
      \<and> wr_namespace (uw_claim item) = uw_claim_namespace item \<and> wr_name (uw_claim item) = uw_claim_name item
      \<and> 1 \<le> uw_observed item \<and> hs_digest (in_snapshot i) \<noteq> [] \<and> valid_name domain
      \<and> valid_name (if uw_name item \<noteq> ''@'' \<and> uw_name item \<noteq> ''*''
                     then trim_prefix (uw_name item) ''*.'' @ ''.'' @ domain else domain))"

definition failure_code :: "go_error \<Rightarrow> string" where
  "failure_code e = (if is_deadline e then ''timeout''
     else if error_text e \<in> {''resolver-config'', ''invalid-response'', ''probe-limit'', ''chain-limit''}
     then error_text e else ''transport'')"

definition wd_fail :: "string \<Rightarrow> string \<Rightarrow> string \<Rightarrow> decision" where
  "wd_fail name vw code = wd_decision (withdrawal_failed name vw code)"

definition combine :: "decision \<Rightarrow> decision \<Rightarrow> decision" where
  "combine current next =
     (if d_status next = ConditionUnknown \<or> (d_status next = ConditionFalse \<and> d_status current = ConditionTrue)
      then next else current)"

record wd_output =
  out_withdrawn :: condition_status
  out_ready :: condition_status
  out_reason :: string
  out_message :: string
  out_absent_since :: "gotime option"
  out_not_before :: "gotime option"
  out_verified_at :: "gotime option"
  out_checked_names :: "string list"
  out_required_views :: "string list"
  out_preview :: values_preview
  out_next_probe :: gotime
  out_state :: wstate
  out_policy :: string
  out_waiver :: "waiver_reference option"
  out_override :: "condition option"

definition bind_waiver :: "unit_withdrawal \<Rightarrow> gotime \<Rightarrow> wd_output \<Rightarrow> wd_output" where
  "bind_waiver claim now out =
     (case uw_waiver claim of None \<Rightarrow> out
      | Some w \<Rightarrow>
        if wvr_name w = [] \<or> wvr_uid w = [] \<or> wvr_digest w = [] \<or> wr_uid (wvr_reservation_ref w) = [] then out
        else out\<lparr>out_waiver := Some w,
          out_override := Some \<lparr>c_type = ''OverrideAccepted'', c_status = ConditionTrue,
            c_reason = ''OperatorAuthorizedRelease'',
            c_message = ''Core-validated withdrawal waiver is bound to its exact UID and immutable scope.'',
            c_observed = uw_observed claim, c_transition = now\<rparr>\<rparr>)"

text \<open>The state is stale when the probe schedule was not kept.\<close>

definition stale :: "wstate \<Rightarrow> gotime \<Rightarrow> bool" where
  "stale s now \<longleftrightarrow> st_last_probe s \<noteq> 0
     \<and> (now < st_last_probe s \<or> st_next_probe s = 0 \<or> st_next_probe s + 300 * second < now)"

text \<open>The policy the probe uses: the views sorted, the mode defaulted.\<close>

definition probe_policy :: "policy \<Rightarrow> policy" where
  "probe_policy p = p\<lparr>p_servers := sort (p_servers p), p_expected_ns := sort (p_expected_ns p),
     p_mode := (if p_mode p = [] then mode_recursive else p_mode p)\<rparr>"

definition required_views :: "wd_input \<Rightarrow> string list" where
  "required_views i = map recursive_id (sort (p_servers (in_policy i)))"

definition weakened :: "wd_input \<Rightarrow> wstate \<Rightarrow> bool" where
  "weakened i s \<longleftrightarrow> st_missing_history s \<or> in_soa_minimum i < st_soa_minimum s
     \<or> (\<exists>floor \<in> set (st_views s). floor \<notin> set (required_views i))"

definition name_request :: "wd_input \<Rightarrow> wstate \<Rightarrow> string \<Rightarrow> probe_request" where
  "name_request i s name = \<lparr>q_name = name, q_zone = hs_domain (in_snapshot i),
     q_expected = \<lparr>rr_a = [], rr_aaaa = [], rr_cname = []\<rparr>, q_policy = probe_policy (in_policy i),
     q_due = st_next_probe s, q_zone_only = False, q_evidence = None, q_withdrawal = uw_address (in_claim i)\<rparr>"

text \<open>One checked name: the snapshot term, then the probe of all views.\<close>

definition check_name :: "wd_env \<Rightarrow> (nat \<Rightarrow> probe_request \<Rightarrow> probe_result \<times> go_error option) \<Rightarrow> wd_input
    \<Rightarrow> gotime \<Rightarrow> gotime \<Rightarrow> nat \<Rightarrow> string \<Rightarrow> wstate \<times> decision \<Rightarrow> wstate \<times> decision" where
  "check_name env prb i started now n name sd =
     (let (s, d) = sd;
          snap = snapshot_exclusion (in_snapshot i) name (uw_address (in_claim i));
          s1 = retain_positive name (wd_cache snap) now s;
          d1 = combine d (wd_decision snap);
          req = name_request i s1 name;
          (observed, err) = prb n req;
          one = evaluate_withdrawal (ev_policy_digest env) req observed;
          elapsed = time_sub (ev_clock env (Suc n)) started;
          s2 = retain_positive name (wd_cache one) (now + max elapsed 0) s1;
          d2 = (case err of None \<Rightarrow> wd_decision one
                | Some e \<Rightarrow> wd_fail name ''required-views'' (failure_code e))
      in (s2, combine d1 d2))"

fun check_names :: "wd_env \<Rightarrow> (nat \<Rightarrow> probe_request \<Rightarrow> probe_result \<times> go_error option) \<Rightarrow> wd_input
    \<Rightarrow> gotime \<Rightarrow> gotime \<Rightarrow> nat \<Rightarrow> string list \<Rightarrow> wstate \<times> decision \<Rightarrow> nat \<times> wstate \<times> decision" where
  "check_names env prb i started now n [] sd = (n, sd)"
| "check_names env prb i started now n (name # ns) sd =
     check_names env prb i started now (Suc n) ns (check_name env prb i started now n name sd)"

text \<open>
  The observation of one pass: the number of clock readings used, the state with the retained
  horizons and the decision. Nothing is probed for an invalid claim or policy.
\<close>

definition observe :: "wd_env \<Rightarrow> wd_input \<Rightarrow> gotime \<Rightarrow> gotime \<Rightarrow> wstate \<Rightarrow> nat \<times> wstate \<times> decision" where
  "observe env i started now s =
     (let cname = uw_name (in_claim i) in
      if \<not> valid_claim i then (0, s, wd_fail cname ''required-views'' ''invalid-response'')
      else (case ev_probe env of
          None \<Rightarrow> (0, s, wd_fail cname ''configured-resolvers'' ''resolver-config'')
        | Some prb \<Rightarrow>
          if \<not> validate_servers (sort (p_servers (in_policy i)))
          then (0, s, wd_fail cname ''configured-resolvers'' ''resolver-config'')
          else (case check_names env prb i started now 0 (st_checked_names s)
                       (s, new_decision ConditionTrue ''WithdrawalVerified'' []) of
              (n, s1, d) \<Rightarrow>
                (n, s1, if \<not> in_served i \<and> d_status d = ConditionTrue
                        then wd_fail cname ''served-snapshot'' ''invalid-response'' else d))))"

definition final_message :: "wd_env \<Rightarrow> wd_input \<Rightarrow> wstate \<Rightarrow> gotime \<Rightarrow> decision \<Rightarrow> string" where
  "final_message env i s now d =
     (if d_reason d = ''NegativeTTLNotElapsed'' then
        ''Retired address '' @ uw_address (in_claim i) @ '' is absent in every required view; waiting until ''
          @ ev_format env (case st_not_before s of None \<Rightarrow> 0 | Some t \<Rightarrow> t)
          @ '' for cache safety and a confirming probe.''
      else if d_reason d = ''WithdrawalVerified'' then
        ''Retired address '' @ uw_address (in_claim i) @ '' was verified absent from '' @ uw_name (in_claim i)
          @ '' in every required view at '' @ ev_format env now @ ''.''
      else d_message d)"

definition policy_changed :: "wd_input \<Rightarrow> decision" where
  "policy_changed i = new_decision ConditionUnknown ''PolicyChanged''
     (''Hosted DNS withdrawal policy changed for '' @ uw_name (in_claim i)
        @ ''; the prior required view policy remains a floor.'')"

text \<open>
  The first part of \<open>Evaluate\<close>, up to the decision on the observation: whether the policy
  changed, the time of the pass, the decision and the state before the window is advanced.
\<close>

definition effective_digest :: "wd_env \<Rightarrow> wd_input \<Rightarrow> string" where
  "effective_digest env i =
     ev_effective_digest env (probe_policy (in_policy i)) (in_soa_minimum i) (hs_digest (in_snapshot i))"

definition pass :: "wd_env \<Rightarrow> wd_input \<Rightarrow> bool \<times> gotime \<times> decision \<times> wstate" where
  "pass env i =
     (let started = ev_clock env 0;
          now = (if in_now i = 0 then started else in_now i);
          s0 = initial_state env i;
          digest = effective_digest env i;
          changed = (st_policy s0 \<noteq> [] \<and> st_policy s0 \<noteq> digest);
          weak = weakened i s0;
          s1 = (if stale s0 now then invalidate s0 else s0);
          s2 = (if changed \<or> weak then invalidate s1 else s1);
          (n, s3, d3) = observe env i started now s2;
          elapsed = time_sub (ev_clock env (Suc n)) started;
          bad_clock = (elapsed < 0 \<or> 300 * second < elapsed);
          d4 = (if bad_clock then wd_fail (uw_name (in_claim i)) ''required-views'' ''timeout'' else d3);
          now1 = (if bad_clock then now else now + elapsed);
          s4 = (if stale s3 now1 then invalidate s3 else s3);
          d5 = (if changed \<or> weak then policy_changed i else d4);
          s5 = (if valid_claim i \<and> \<not> weak \<and> validate_servers (sort (p_servers (in_policy i)))
                then s4\<lparr>st_views := required_views i, st_soa_minimum := max (st_soa_minimum s4) (in_soa_minimum i)\<rparr>
                else s4)
      in (changed, now1, d5, s5\<lparr>st_policy := digest\<rparr>))"

text \<open>The window is advanced on an absent observation and invalidated on any other.\<close>

definition advance :: "wd_input \<Rightarrow> gotime \<Rightarrow> decision \<Rightarrow> wstate \<Rightarrow> wstate \<times> decision" where
  "advance i now d s =
     (if d_status d = ConditionTrue then window (in_soa_minimum i) now s else (invalidate s, d))"

definition evaluate :: "wd_env \<Rightarrow> wd_input \<Rightarrow> wd_output" where
  "evaluate env i =
     (let (changed, now, d5, s6) = pass env i;
          (s7, d7) = advance i now d5 s6;
          s8 = schedule (d_status d7) changed now s7;
          text = replace_all ''DNS withdrawal cannot'' ''Hosted DNS withdrawal cannot'' (final_message env i s7 now d7);
          out = \<lparr>out_withdrawn = d_status d7,
                 out_ready = (if d_status d7 = ConditionTrue then ConditionTrue else ConditionFalse),
                 out_reason = d_reason d7, out_message = take 2048 text,
                 out_absent_since = st_absent_since s8, out_not_before = st_not_before s8,
                 out_verified_at = st_verified_at s8, out_checked_names = st_checked_names s8,
                 out_required_views = required_views i, out_preview = preview (required_views i),
                 out_next_probe = st_next_probe s8, out_state = s8, out_policy = effective_digest env i,
                 out_waiver = None, out_override = None\<rparr>
      in if valid_claim i then bind_waiver (in_claim i) now out else out)"

definition snapshot_excludes :: "wd_env \<Rightarrow> hosted_spec \<Rightarrow> unit_withdrawal \<Rightarrow> bool" where
  "snapshot_excludes env spec claim =
     (let i = \<lparr>in_claim = claim, in_snapshot = spec, in_served = False,
               in_policy = \<lparr>p_mode = [], p_servers = [], p_expected_ns = []\<rparr>, in_soa_minimum = 0, in_now = 0,
               in_previous = None\<rparr> in
      valid_claim i \<and> wd_status (snapshot_exclusion spec (checked_name i (claim_identity env i)) (uw_address claim)) = ConditionTrue)"

end
