(* ===== verification/Hosted_Window.thy ===== *)
theory Hosted_Window
  imports Hosted_Withdrawal
begin

text \<open>
  What the evaluation of a withdrawal claim guarantees: the absence window, the retained
  horizons, the observation of one pass, and runs of passes that hand their state on.
\<close>

section \<open>The absence window\<close>

lemma round_up_ge: "t \<le> round_up t"
proof -
  have "t = t div second * second + t mod second" by simp
  moreover have "t mod second < second" by simp
  ultimately show ?thesis by (auto simp: round_up_def)
qed

lemma round_up_whole: "round_up t mod second = 0"
  by (auto simp: round_up_def)

lemma round_up_less: "round_up t < t + second"
proof (cases "t mod second = 0")
  case False
  then have "0 < t mod second" by (simp add: order_less_le)
  moreover have "t = t div second * second + t mod second" by simp
  ultimately have "t div second * second < t" by linarith
  with False show ?thesis by (simp add: round_up_def)
qed (simp add: round_up_def)

lemma fold_max_ge: "b \<le> fold (\<lambda>p nb. max nb (snd p)) ps (b :: int)"
  by (induction ps arbitrary: b) (auto intro: order_trans [OF max.cobounded1])

lemma fold_max_pos: "(k, e) \<in> set ps \<Longrightarrow> e \<le> fold (\<lambda>p nb. max nb (snd p)) ps (b :: int)"
  by (induction ps arbitrary: b) (auto intro: order_trans [OF _ fold_max_ge])

lemma invalidate_simps [simp, go_simps]:
  "st_absent_since (invalidate s) = None" "st_window_start (invalidate s) = 0" "st_negative (invalidate s) = []"
  "st_not_before (invalidate s) = None" "st_verified_at (invalidate s) = None"
  "st_positive (invalidate s) = st_positive s" "st_last_probe (invalidate s) = st_last_probe s"
  "st_next_probe (invalidate s) = st_next_probe s" "st_policy (invalidate s) = st_policy s"
  "st_identity (invalidate s) = st_identity s" "st_checked_names (invalidate s) = st_checked_names s"
  "st_views (invalidate s) = st_views s" "st_soa_minimum (invalidate s) = st_soa_minimum s"
  "st_missing_history (invalidate s) = st_missing_history s" "st_failures (invalidate s) = st_failures s"
  by (simp_all add: invalidate_def)

text \<open>A live window: a recorded absence with its precise start.\<close>

definition live :: "wstate \<Rightarrow> bool" where
  "live s \<longleftrightarrow> st_absent_since s \<noteq> None \<and> st_window_start s \<noteq> 0"

lemma window_status: "d_status (snd (window m now s)) \<in> {ConditionTrue, ConditionFalse}"
  by (simp add: window_def Let_def)

lemma window_verified:
  assumes "window m now s = (s', d)" and "d_status d = ConditionTrue"
  shows "live s" and "st_last_probe s \<noteq> 0" and "st_last_probe s < now"
    and "st_window_start s + seconds (max (map_get (st_negative s) soa_key) m) \<le> now"
    and "(k, e) \<in> set (st_positive s) \<Longrightarrow> e \<le> now"
    and "st_not_before s = Some t \<Longrightarrow> t \<le> now"
    and "st_verified_at s' = Some now"
proof -
  have live: "live s"
    using assms by (auto simp: window_def Let_def live_def split: if_splits)
  then have s1: "(if st_absent_since s \<noteq> None \<and> st_window_start s = 0 then invalidate s else s) = s"
    by (simp add: live_def)
  let ?nb1 = "st_window_start s + seconds (max (map_get (st_negative s) soa_key) m)"
  let ?nb2 = "case st_not_before s of None \<Rightarrow> ?nb1 | Some t \<Rightarrow> if ?nb1 < t then t else ?nb1"
  let ?nb3 = "fold (\<lambda>p nb. max nb (snd p)) (st_positive s) ?nb2"
  have conf: "st_last_probe s \<noteq> 0 \<and> st_last_probe s < now" and ver: "round_up ?nb3 \<le> now"
    "st_verified_at s' = Some now"
    using assms live by (auto simp: window_def Let_def live_def split: if_splits option.splits)
  have nb3: "?nb3 \<le> now" using round_up_ge [of ?nb3] ver(1) by linarith
  have nb2: "?nb2 \<le> ?nb3" by (rule fold_max_ge)
  show "live s" "st_last_probe s \<noteq> 0" "st_last_probe s < now" "st_verified_at s' = Some now"
    using live conf ver by auto
  have "?nb1 \<le> ?nb2" by (simp split: option.splits)
  then show "st_window_start s + seconds (max (map_get (st_negative s) soa_key) m) \<le> now"
    using nb2 nb3 by linarith
  show "(k, e) \<in> set (st_positive s) \<Longrightarrow> e \<le> now"
    using fold_max_pos [of k e "st_positive s" ?nb2] nb3 by linarith
  show "st_not_before s = Some t \<Longrightarrow> t \<le> now"
    using nb2 nb3 by (auto split: if_splits)
qed

lemma window_live:
  assumes "window m now s = (s', d)"
  shows "st_absent_since s' \<noteq> None"
    and "live s \<Longrightarrow> st_window_start s' = st_window_start s"
    and "\<not> live s \<Longrightarrow> st_window_start s' = now"
    and "m \<le> map_get (st_negative s') soa_key"
    and "live s \<Longrightarrow> map_get (st_negative s) soa_key \<le> map_get (st_negative s') soa_key"
    and "live s \<Longrightarrow> st_not_before s = Some t \<Longrightarrow> \<exists>t'. st_not_before s' = Some t' \<and> t \<le> t'"
proof -
  let ?nb1 = "\<lambda>x. st_window_start s + seconds (max (map_get (st_negative s) soa_key) m)"
  show "st_absent_since s' \<noteq> None" "live s \<Longrightarrow> st_window_start s' = st_window_start s"
    "\<not> live s \<Longrightarrow> st_window_start s' = now" "m \<le> map_get (st_negative s') soa_key"
    "live s \<Longrightarrow> map_get (st_negative s) soa_key \<le> map_get (st_negative s') soa_key"
    using assms by (auto simp: window_def Let_def live_def split: if_splits)
  assume l: "live s" and t: "st_not_before s = Some t"
  let ?nb2 = "if st_window_start s + seconds (max (map_get (st_negative s) soa_key) m) < t then t
      else st_window_start s + seconds (max (map_get (st_negative s) soa_key) m)"
  let ?nb3 = "fold (\<lambda>p nb. max nb (snd p)) (st_positive s) ?nb2"
  have "st_not_before s' = Some (round_up ?nb3)"
    using assms l t by (auto simp: window_def Let_def live_def split: if_splits)
  moreover have "t \<le> ?nb2" by simp
  moreover have "?nb2 \<le> ?nb3" by (rule fold_max_ge)
  ultimately show "\<exists>t'. st_not_before s' = Some t' \<and> t \<le> t'"
    using round_up_ge [of ?nb3] by force
qed

section \<open>Retained horizons\<close>

lemma retain_item_ge:
  "map_get pos k \<le> map_get (retain_item name now item pos) k"
  by (auto simp: retain_item_def Let_def split: option.splits)

lemma fold_retain_ge: "map_get pos k \<le> map_get (fold (retain_item name now) evs pos) k"
  by (induction evs arbitrary: pos) (auto intro: order_trans [OF retain_item_ge])

lemma retain_positive_ge: "map_get (st_positive s) k \<le> map_get (st_positive (retain_positive name evs now s)) k"
  by (simp add: retain_positive_def fold_retain_ge)

lemma retain_positive_covers:
  assumes "c \<in> set evs" and "ce_positive c = Some t"
  shows "now + seconds t \<le> map_get (st_positive (retain_positive name evs now s)) (name @ ''/'' @ ce_view c @ ''/'' @ ce_qtype c)"
proof -
  obtain xs ys where "evs = xs @ c # ys" using assms(1) by (metis split_list)
  moreover have "now + seconds t \<le> map_get (retain_item name now c pos) (name @ ''/'' @ ce_view c @ ''/'' @ ce_qtype c)" for pos
    using assms(2) by (auto simp: retain_item_def Let_def)
  ultimately show ?thesis
    using fold_retain_ge order_trans by (fastforce simp: retain_positive_def)
qed

lemma retain_positive_frame [simp, go_simps]:
  "st_absent_since (retain_positive n e t s) = st_absent_since s"
  "st_window_start (retain_positive n e t s) = st_window_start s"
  "st_negative (retain_positive n e t s) = st_negative s"
  "st_not_before (retain_positive n e t s) = st_not_before s"
  "st_last_probe (retain_positive n e t s) = st_last_probe s"
  "st_next_probe (retain_positive n e t s) = st_next_probe s"
  "st_checked_names (retain_positive n e t s) = st_checked_names s"
  "st_views (retain_positive n e t s) = st_views s"
  "st_soa_minimum (retain_positive n e t s) = st_soa_minimum s"
  "st_identity (retain_positive n e t s) = st_identity s"
  "st_policy (retain_positive n e t s) = st_policy s"
  "st_missing_history (retain_positive n e t s) = st_missing_history s"
  "st_failures (retain_positive n e t s) = st_failures s"
  by (simp_all add: retain_positive_def)

section \<open>One pass\<close>

lemma check_name_frame:
  "check_name env prb i started now n name (s, d) = (s', d') \<Longrightarrow>
     st_absent_since s' = st_absent_since s \<and> st_window_start s' = st_window_start s
   \<and> st_negative s' = st_negative s \<and> st_not_before s' = st_not_before s \<and> st_last_probe s' = st_last_probe s
   \<and> st_next_probe s' = st_next_probe s \<and> st_checked_names s' = st_checked_names s
   \<and> (\<forall>k. map_get (st_positive s) k \<le> map_get (st_positive s') k)"
  by (auto simp: check_name_def Let_def split: prod.splits intro: order_trans [OF retain_positive_ge retain_positive_ge])

lemma check_names_frame:
  "check_names env prb i started now n ns (s, d) = (n', s', d') \<Longrightarrow>
     st_absent_since s' = st_absent_since s \<and> st_window_start s' = st_window_start s
   \<and> st_negative s' = st_negative s \<and> st_not_before s' = st_not_before s \<and> st_last_probe s' = st_last_probe s
   \<and> st_next_probe s' = st_next_probe s \<and> st_checked_names s' = st_checked_names s
   \<and> (\<forall>k. map_get (st_positive s) k \<le> map_get (st_positive s') k)"
proof (induction ns arbitrary: n s d)
  case (Cons name ns)
  obtain s1 d1 where one: "check_name env prb i started now n name (s, d) = (s1, d1)"
    by (cases "check_name env prb i started now n name (s, d)")
  have "check_names env prb i started now (Suc n) ns (s1, d1) = (n', s', d')"
    using Cons.prems one by simp
  from Cons.IH [OF this] check_name_frame [OF one] show ?case by (auto intro: order_trans)
qed simp

lemma observe_frame:
  "observe env i started now s = (n, s', d) \<Longrightarrow>
     st_absent_since s' = st_absent_since s \<and> st_window_start s' = st_window_start s
   \<and> st_negative s' = st_negative s \<and> st_not_before s' = st_not_before s \<and> st_last_probe s' = st_last_probe s
   \<and> st_next_probe s' = st_next_probe s \<and> st_checked_names s' = st_checked_names s
   \<and> (\<forall>k. map_get (st_positive s) k \<le> map_get (st_positive s') k)"
  by (auto simp: observe_def Let_def split: option.splits if_splits prod.splits dest!: check_names_frame)

lemma combine_True:
  "d_status (combine a b) = ConditionTrue \<longleftrightarrow> d_status a = ConditionTrue \<and> d_status b = ConditionTrue"
  by (cases "d_status a"; cases "d_status b") (auto simp: combine_def)

lemma wd_fail_status [simp, go_simps]: "d_status (wd_fail n v c) = ConditionUnknown"
  by (simp add: wd_fail_def)

text \<open>One name was excluded: absent from the snapshot and from every view of the probe.\<close>

definition name_excluded :: "wd_env \<Rightarrow> (nat \<Rightarrow> probe_request \<Rightarrow> probe_result \<times> go_error option) \<Rightarrow> wd_input
    \<Rightarrow> string \<Rightarrow> bool" where
  "name_excluded env prb i name \<longleftrightarrow>
     wd_status (snapshot_exclusion (in_snapshot i) name (uw_address (in_claim i))) = ConditionTrue
   \<and> (\<exists>n req res. q_name req = name \<and> q_withdrawal req = uw_address (in_claim i)
        \<and> q_policy req = probe_policy (in_policy i) \<and> prb n req = (res, None)
        \<and> wd_status (evaluate_withdrawal (ev_policy_digest env) req res) = ConditionTrue)"

lemma check_name_True:
  assumes "check_name env prb i started now n name (s, d) = (s', d')" and "d_status d' = ConditionTrue"
  shows "d_status d = ConditionTrue \<and> name_excluded env prb i name"
proof -
  let ?s1 = "retain_positive name (wd_cache (snapshot_exclusion (in_snapshot i) name (uw_address (in_claim i)))) now s"
  obtain res err where prb: "prb n (name_request i ?s1 name) = (res, err)" by (cases "prb n (name_request i ?s1 name)")
  have "err = None"
    using assms prb by (cases err) (auto simp: check_name_def Let_def combine_True)
  then show ?thesis
    using assms prb
    by (auto simp: check_name_def Let_def combine_True name_excluded_def name_request_def
        intro!: exI [of _ n] exI [of _ "name_request i ?s1 name"])
qed

lemma check_names_True:
  "check_names env prb i started now n ns (s, d) = (n', s', d') \<Longrightarrow> d_status d' = ConditionTrue \<Longrightarrow>
     d_status d = ConditionTrue \<and> (\<forall>name \<in> set ns. name_excluded env prb i name)"
proof (induction ns arbitrary: n s d)
  case (Cons name ns)
  obtain s1 d1 where one: "check_name env prb i started now n name (s, d) = (s1, d1)"
    by (cases "check_name env prb i started now n name (s, d)")
  have "check_names env prb i started now (Suc n) ns (s1, d1) = (n', s', d')"
    using Cons.prems one by simp
  from Cons.IH [OF this Cons.prems(2)] check_name_True [OF one] show ?case by auto
qed simp

definition pass_time :: "wd_env \<Rightarrow> wd_input \<Rightarrow> gotime" where
  "pass_time env i = fst (snd (pass env i))"

definition pass_absent :: "wd_env \<Rightarrow> wd_input \<Rightarrow> bool" where
  "pass_absent env i \<longleftrightarrow> d_status (fst (snd (snd (pass env i)))) = ConditionTrue"

definition pass_state :: "wd_env \<Rightarrow> wd_input \<Rightarrow> wstate" where
  "pass_state env i = snd (snd (snd (pass env i)))"

text \<open>The window of a state is the same as before or closed, and no positive horizon was lost.\<close>

definition keeps :: "wstate \<Rightarrow> wstate \<Rightarrow> bool" where
  "keeps s s' \<longleftrightarrow>
     (\<not> live s' \<and> st_negative s' = []
      \<or> st_absent_since s' = st_absent_since s \<and> st_window_start s' = st_window_start s
       \<and> st_negative s' = st_negative s \<and> st_not_before s' = st_not_before s)
   \<and> st_last_probe s' = st_last_probe s
   \<and> (\<forall>k. map_get (st_positive s) k \<le> map_get (st_positive s') k)"

lemma keeps_trans [trans]: "keeps s s' \<Longrightarrow> keeps s' s'' \<Longrightarrow> keeps s s''"
  by (auto simp: keeps_def live_def intro: order_trans)

lemma keeps_if_invalidate: "keeps s (if b then invalidate s else s)"
  by (simp add: keeps_def live_def)

lemma keeps_observe: "observe env i started now s = (n, s', d) \<Longrightarrow> keeps s s'"
  by (drule observe_frame) (simp add: keeps_def)

lemma keeps_pass: "keeps (initial_state env i) (pass_state env i)"
proof -
  let ?now = "if in_now i = 0 then ev_clock env 0 else in_now i"
  let ?s0 = "initial_state env i"
  let ?s1 = "if stale ?s0 ?now then invalidate ?s0 else ?s0"
  let ?ch = "st_policy ?s0 \<noteq> [] \<and> st_policy ?s0 \<noteq> effective_digest env i"
  let ?s2 = "if ?ch \<or> weakened i ?s0 then invalidate ?s1 else ?s1"
  obtain n s3 d3 where ob: "observe env i (ev_clock env 0) ?now ?s2 = (n, s3, d3)" by (metis prod_cases3)
  let ?el = "time_sub (ev_clock env (Suc n)) (ev_clock env 0)"
  let ?now1 = "if ?el < 0 \<or> 300 * second < ?el then ?now else ?now + ?el"
  let ?s4 = "if stale s3 ?now1 then invalidate s3 else s3"
  have last: "keeps ?s4 (pass_state env i)"
    by (simp add: pass_state_def pass_def Let_def ob keeps_def)
  have "keeps ?s0 ?s1" by (rule keeps_if_invalidate)
  also have "keeps ?s1 ?s2" by (rule keeps_if_invalidate)
  also have "keeps ?s2 s3" by (rule keeps_observe [OF ob])
  also have "keeps s3 ?s4" by (rule keeps_if_invalidate)
  also note last
  finally show ?thesis .
qed

lemma pass_state_window:
  "\<not> live (pass_state env i) \<and> st_negative (pass_state env i) = []
      \<or> st_absent_since (pass_state env i) = st_absent_since (initial_state env i)
       \<and> st_window_start (pass_state env i) = st_window_start (initial_state env i)
       \<and> st_negative (pass_state env i) = st_negative (initial_state env i)
       \<and> st_not_before (pass_state env i) = st_not_before (initial_state env i)"
  "st_last_probe (pass_state env i) = st_last_probe (initial_state env i)"
  "map_get (st_positive (initial_state env i)) k \<le> map_get (st_positive (pass_state env i)) k"
  using keeps_pass [of env i] by (auto simp: keeps_def)

lemma pass_absent_facts:
  assumes "pass_absent env i"
  shows "valid_claim i" and "in_served i" and "validate_servers (sort (p_servers (in_policy i)))"
    and "\<exists>prb. ev_probe env = Some prb \<and> (\<forall>name \<in> set (st_checked_names (initial_state env i)). name_excluded env prb i name)"
    and "\<not> weakened i (initial_state env i)"
proof -
  let ?now = "if in_now i = 0 then ev_clock env 0 else in_now i"
  let ?s0 = "initial_state env i"
  let ?s1 = "if stale ?s0 ?now then invalidate ?s0 else ?s0"
  let ?ch = "st_policy ?s0 \<noteq> [] \<and> st_policy ?s0 \<noteq> effective_digest env i"
  let ?s2 = "if ?ch \<or> weakened i ?s0 then invalidate ?s1 else ?s1"
  obtain n s3 d3 where ob: "observe env i (ev_clock env 0) ?now ?s2 = (n, s3, d3)" by (metis prod_cases3)
  have weak: "\<not> (?ch \<or> weakened i ?s0)" and d3: "d_status d3 = ConditionTrue"
    using assms by (auto simp: pass_absent_def pass_def Let_def ob policy_changed_def split: if_splits)
  have names: "st_checked_names ?s2 = st_checked_names ?s0" by simp
  show "\<not> weakened i (initial_state env i)" using weak by simp
  show "valid_claim i" "validate_servers (sort (p_servers (in_policy i)))"
    using ob d3 by (auto simp: observe_def Let_def split: if_splits option.splits)
  show "in_served i"
    using ob d3 by (auto simp: observe_def Let_def split: if_splits option.splits prod.splits)
  obtain prb s4 d4 where "ev_probe env = Some prb" and
    cn: "check_names env prb i (ev_clock env 0) ?now 0 (st_checked_names ?s2)
       (?s2, new_decision ConditionTrue ''WithdrawalVerified'' []) = (n, s4, d4)" and "d_status d4 = ConditionTrue"
    using ob d3 by (auto simp: observe_def Let_def split: if_splits option.splits prod.splits)
  with check_names_True [OF cn] names
  show "\<exists>prb. ev_probe env = Some prb \<and> (\<forall>name \<in> set (st_checked_names (initial_state env i)). name_excluded env prb i name)"
    by auto
qed

lemma bind_waiver_simps [simp, go_simps]:
  "out_state (bind_waiver c t out) = out_state out" "out_withdrawn (bind_waiver c t out) = out_withdrawn out"
  "out_ready (bind_waiver c t out) = out_ready out" "out_next_probe (bind_waiver c t out) = out_next_probe out"
  "out_message (bind_waiver c t out) = out_message out"
  by (simp_all add: bind_waiver_def split: option.splits)

lemma schedule_simps [simp, go_simps]:
  "st_absent_since (schedule st ch t s) = st_absent_since s" "st_window_start (schedule st ch t s) = st_window_start s"
  "st_negative (schedule st ch t s) = st_negative s" "st_not_before (schedule st ch t s) = st_not_before s"
  "st_positive (schedule st ch t s) = st_positive s" "st_last_probe (schedule st ch t s) = t"
  by (simp_all add: schedule_def Let_def)

lemma evaluate_parts:
  "out_state (evaluate env i) = schedule (d_status (snd (advance i (pass_time env i) (fst (snd (snd (pass env i)))) (pass_state env i))))
      (fst (pass env i)) (pass_time env i) (fst (advance i (pass_time env i) (fst (snd (snd (pass env i)))) (pass_state env i)))"
  "out_withdrawn (evaluate env i) = d_status (snd (advance i (pass_time env i) (fst (snd (snd (pass env i)))) (pass_state env i)))"
  "out_ready (evaluate env i) = (if out_withdrawn (evaluate env i) = ConditionTrue then ConditionTrue else ConditionFalse)"
  by (auto simp: evaluate_def Let_def pass_time_def pass_state_def split: prod.splits)

text \<open>The window of a claim at its initial state comes from the previous state or is closed.\<close>

lemma initial_state_window:
  "(\<not> live (initial_state env i) \<and> st_negative (initial_state env i) = [] \<and> st_last_probe (initial_state env i) = 0)
   \<or> (\<exists>prev. in_previous i = Some prev \<and> st_identity prev = claim_identity env i
       \<and> (st_checked_names prev = [] \<longrightarrow> st_missing_history (initial_state env i))
       \<and> st_checked_names (initial_state env i) = st_checked_names prev
       \<and> st_absent_since (initial_state env i) = st_absent_since prev
       \<and> st_window_start (initial_state env i) = st_window_start prev
       \<and> st_negative (initial_state env i) = st_negative prev
       \<and> st_not_before (initial_state env i) = st_not_before prev
       \<and> st_positive (initial_state env i) = st_positive prev
       \<and> st_last_probe (initial_state env i) = st_last_probe prev)"
  by (auto simp: initial_state_def Let_def fresh_state_def live_def split: option.splits)

lemma evaluate_live:
  assumes "live (out_state (evaluate env i))"
  shows "pass_absent env i \<and> in_soa_minimum i \<le> map_get (st_negative (out_state (evaluate env i))) soa_key
    \<and> (st_window_start (out_state (evaluate env i)) = pass_time env i
      \<or> (\<exists>prev. in_previous i = Some prev \<and> live prev
          \<and> st_window_start (out_state (evaluate env i)) = st_window_start prev
          \<and> map_get (st_negative prev) soa_key \<le> map_get (st_negative (out_state (evaluate env i))) soa_key))"
proof -
  let ?s6 = "pass_state env i" and ?d = "fst (snd (snd (pass env i)))" and ?t = "pass_time env i"
  have ab: "pass_absent env i"
  proof (rule ccontr)
    assume "\<not> pass_absent env i"
    then have "fst (advance i ?t ?d ?s6) = invalidate ?s6" by (simp add: pass_absent_def advance_def)
    with assms show False by (simp add: evaluate_parts live_def)
  qed
  obtain s7 d7 where w: "window (in_soa_minimum i) ?t ?s6 = (s7, d7)" by (cases "window (in_soa_minimum i) ?t ?s6")
  then have out: "st_window_start (out_state (evaluate env i)) = st_window_start s7"
    "st_negative (out_state (evaluate env i)) = st_negative s7"
    using ab by (simp_all add: evaluate_parts advance_def pass_absent_def)
  note wl = window_live [OF w]
  show ?thesis
  proof (cases "live ?s6")
    case True
    then obtain prev where "in_previous i = Some prev" "live prev" "st_window_start ?s6 = st_window_start prev"
      "st_negative ?s6 = st_negative prev"
      using pass_state_window(1,2) [of env i] initial_state_window [of env i] by (auto simp: live_def)
    then show ?thesis using ab out wl True by auto
  next
    case False
    then show ?thesis using ab out wl by auto
  qed
qed

text \<open>An absent pass: the claim is valid, the snapshot is served and every checked name is excluded.\<close>

definition observed_absent :: "wd_env \<Rightarrow> wd_input \<Rightarrow> bool" where
  "observed_absent env i \<longleftrightarrow> valid_claim i \<and> in_served i \<and> validate_servers (sort (p_servers (in_policy i)))
   \<and> \<not> weakened i (initial_state env i) \<and> st_checked_names (initial_state env i) \<noteq> []
   \<and> (\<exists>prb. ev_probe env = Some prb \<and> (\<forall>name \<in> set (st_checked_names (initial_state env i)). name_excluded env prb i name))"

lemma pass_absent_observed: "pass_absent env i \<Longrightarrow> observed_absent env i"
proof -
  assume a: "pass_absent env i"
  note facts = pass_absent_facts [OF a]
  have "st_checked_names (initial_state env i) \<noteq> []"
  proof
    assume "st_checked_names (initial_state env i) = []"
    then have "st_missing_history (initial_state env i)"
      by (auto simp: initial_state_def fresh_state_def Let_def split: option.splits if_splits)
    with facts(5) show False by (simp add: weakened_def)
  qed
  with facts show ?thesis by (simp add: observed_absent_def)
qed

lemma evaluate_verified:
  assumes "out_withdrawn (evaluate env i) = ConditionTrue"
  obtains prev where "in_previous i = Some prev" "live prev" "st_identity prev = claim_identity env i" "pass_absent env i"
    "st_last_probe prev < pass_time env i"
    "st_window_start prev + seconds (max (map_get (st_negative prev) soa_key) (in_soa_minimum i)) \<le> pass_time env i"
    "\<And>t. st_not_before prev = Some t \<Longrightarrow> t \<le> pass_time env i"
    "\<And>k e. (k, e) \<in> set (st_positive (out_state (evaluate env i))) \<Longrightarrow> e \<le> pass_time env i"
    "\<And>k. map_get (st_positive prev) k \<le> map_get (st_positive (out_state (evaluate env i))) k"
proof -
  let ?s6 = "pass_state env i" and ?d = "fst (snd (snd (pass env i)))" and ?t = "pass_time env i"
  have ab: "pass_absent env i"
    using assms by (auto simp: evaluate_parts advance_def pass_absent_def split: if_splits)
  obtain s7 d7 where w: "window (in_soa_minimum i) ?t ?s6 = (s7, d7)" by (cases "window (in_soa_minimum i) ?t ?s6")
  then have d7: "d_status d7 = ConditionTrue" and out: "st_positive (out_state (evaluate env i)) = st_positive s7"
    using assms ab by (simp_all add: evaluate_parts advance_def pass_absent_def)
  have pos: "st_positive s7 = st_positive ?s6"
    using w by (auto simp: window_def Let_def split: if_splits)
  note wv = window_verified [OF w d7]
  obtain prev where prev: "in_previous i = Some prev" "live prev" "st_identity prev = claim_identity env i"
      "st_window_start ?s6 = st_window_start prev"
      "st_negative ?s6 = st_negative prev" "st_last_probe ?s6 = st_last_probe prev"
      "st_not_before ?s6 = st_not_before prev" "st_positive (initial_state env i) = st_positive prev"
    using wv(1) pass_state_window(1,2) [of env i] initial_state_window [of env i] by (auto simp: live_def)
  show thesis
    using that [OF prev(1-3) ab] wv prev out pos pass_state_window(3) [of env i] by simp
qed

section \<open>Runs\<close>

text \<open>
  Successive passes: each is given the state the pass before it returned. A verified removal at
  the end of a run that did not begin inside a window.
\<close>

definition follows :: "wd_env \<Rightarrow> wd_input \<Rightarrow> wd_input \<Rightarrow> bool" where
  "follows env i j \<longleftrightarrow> in_previous j = Some (out_state (evaluate env i))"

fun linked :: "wd_env \<Rightarrow> wd_input list \<Rightarrow> bool" where
  "linked env [] = True"
| "linked env [i] = True"
| "linked env (i # j # js) = (follows env i j \<and> linked env (j # js))"

definition window_free :: "wd_input \<Rightarrow> bool" where
  "window_free i \<longleftrightarrow> (\<forall>prev. in_previous i = Some prev \<longrightarrow> \<not> live prev)"

lemma linked_snoc: "linked env (xs @ [i, j]) \<longleftrightarrow> linked env (xs @ [i]) \<and> follows env i j"
  by (induction env xs rule: linked.induct) auto

text \<open>The passes of a live window: an unbroken run of absent passes from its start.\<close>

definition window_run :: "wd_env \<Rightarrow> wd_input list \<Rightarrow> wstate \<Rightarrow> bool" where
  "window_run env ps s \<longleftrightarrow> (\<exists>pre q rest. ps = pre @ q # rest \<and> pass_time env q = st_window_start s
     \<and> (\<forall>p \<in> set (q # rest). pass_absent env p \<and> in_soa_minimum p \<le> map_get (st_negative s) soa_key))"

lemma window_run_live:
  assumes "linked env (xs @ [i])" and "window_free (hd (xs @ [i]))" and "live (out_state (evaluate env i))"
  shows "window_run env (xs @ [i]) (out_state (evaluate env i))"
  using assms
proof (induction xs arbitrary: i rule: rev_induct)
  case Nil
  note e = evaluate_live [OF Nil.prems(3)]
  then have "st_window_start (out_state (evaluate env i)) = pass_time env i"
    using Nil.prems(2) by (auto simp: window_free_def)
  then show ?case using e by (auto simp: window_run_def intro: exI [of _ "[]"])
next
  case (snoc j xs)
  let ?s = "out_state (evaluate env i)"
  note e = evaluate_live [OF snoc.prems(3)]
  from snoc.prems(1) have l: "linked env (xs @ [j])" "in_previous i = Some (out_state (evaluate env j))"
    using linked_snoc [of env xs j i] by (simp_all add: follows_def)
  show ?case
  proof (cases "st_window_start ?s = pass_time env i")
    case True
    then have "(xs @ [j]) @ [i] = (xs @ [j]) @ i # [] \<and> pass_time env i = st_window_start ?s
        \<and> (\<forall>p \<in> set [i]. pass_absent env p \<and> in_soa_minimum p \<le> map_get (st_negative ?s) soa_key)"
      using e by simp
    then show ?thesis unfolding window_run_def by blast
  next
    case False
    then have lj: "live (out_state (evaluate env j))" "st_window_start ?s = st_window_start (out_state (evaluate env j))"
      "map_get (st_negative (out_state (evaluate env j))) soa_key \<le> map_get (st_negative ?s) soa_key"
      using e l(2) by auto
    have "hd (xs @ [j]) = hd ((xs @ [j]) @ [i])" by (cases xs) auto
    then have "window_free (hd (xs @ [j]))" using snoc.prems(2) by simp
    note run = snoc.IH [OF l(1) this lj(1), unfolded window_run_def]
    then obtain pre q rest where r0: "xs @ [j] = pre @ q # rest"
      "pass_time env q = st_window_start (out_state (evaluate env j))"
      "\<forall>p \<in> set (q # rest). pass_absent env p
          \<and> in_soa_minimum p \<le> map_get (st_negative (out_state (evaluate env j))) soa_key"
      by blast
    have "\<forall>p \<in> set (q # rest). pass_absent env p \<and> in_soa_minimum p \<le> map_get (st_negative ?s) soa_key"
      using r0(3) lj(3) order_trans by blast
    with r0(1,2) lj(2) have r: "xs @ [j] = pre @ q # rest" "pass_time env q = st_window_start ?s"
      "\<forall>p \<in> set (q # rest). pass_absent env p \<and> in_soa_minimum p \<le> map_get (st_negative ?s) soa_key"
      by simp_all
    have "(xs @ [j]) @ [i] = pre @ q # (rest @ [i]) \<and> pass_time env q = st_window_start ?s
        \<and> (\<forall>p \<in> set (q # (rest @ [i])). pass_absent env p \<and> in_soa_minimum p \<le> map_get (st_negative ?s) soa_key)"
      using r e by simp
    then show ?thesis unfolding window_run_def by blast
  qed
qed

lemma verified_run:
  assumes "linked env (xs @ [i])" and "window_free (hd (xs @ [i]))"
    and "out_withdrawn (evaluate env i) = ConditionTrue"
  shows "\<exists>pre q rest. xs = pre @ q # rest \<and> (\<forall>p \<in> set (q # rest @ [i]). pass_absent env p
     \<and> pass_time env q + seconds (in_soa_minimum p) \<le> pass_time env i)"
proof -
  obtain prev where prev: "in_previous i = Some prev" "live prev" "pass_absent env i"
    "st_window_start prev + seconds (max (map_get (st_negative prev) soa_key) (in_soa_minimum i)) \<le> pass_time env i"
    by (rule evaluate_verified [OF assms(3)])
  have "xs \<noteq> []" using assms(2) prev by (auto simp: window_free_def)
  then obtain ys j where xs: "xs = ys @ [j]" by (metis rev_exhaust)
  then have l: "linked env (ys @ [j])" "prev = out_state (evaluate env j)"
    using assms(1) prev(1) linked_snoc [of env ys j i] by (simp_all add: follows_def)
  have "hd (ys @ [j]) = hd (xs @ [i])" using xs by (cases ys) auto
  with assms(2) have "window_free (hd (ys @ [j]))" by simp
  from window_run_live [OF l(1) this] prev(2) l(2) obtain pre q rest where r: "xs = pre @ q # rest"
    "pass_time env q = st_window_start prev"
    "\<forall>p \<in> set (q # rest). pass_absent env p \<and> in_soa_minimum p \<le> map_get (st_negative prev) soa_key"
    using xs unfolding window_run_def by blast
  have le: "pass_time env q + seconds m \<le> pass_time env i"
    if "m \<le> max (map_get (st_negative prev) soa_key) (in_soa_minimum i)" for m
  proof -
    from that have "seconds m \<le> seconds (max (map_get (st_negative prev) soa_key) (in_soa_minimum i))" by simp
    with prev(4) r(2) show ?thesis by linarith
  qed
  have "\<forall>p \<in> set (q # rest @ [i]). pass_absent env p \<and> pass_time env q + seconds (in_soa_minimum p) \<le> pass_time env i"
    using r(3) prev(3) le by (auto simp: le_max_iff_disj)
  with r(1) show ?thesis by blast
qed


section \<open>Properties\<close>


text \<open>
  C19. What one pass needs to report \<open>Withdrawn\<close>: the same claim had an open window, an earlier
  pass than this one ran, its announced NotBefore and every retained positive lifetime (none of
  which was forgotten) have passed, and \<open>Ready\<close> agrees.
\<close>

theorem withdrawal_verified:
  assumes "out_withdrawn (evaluate env i) = ConditionTrue"
  shows "\<exists>prev. in_previous i = Some prev \<and> live prev \<and> st_identity prev = claim_identity env i
     \<and> st_last_probe prev < pass_time env i
     \<and> (\<forall>t. st_not_before prev = Some t \<longrightarrow> t \<le> pass_time env i)
     \<and> (\<forall>k e. (k, e) \<in> set (st_positive (out_state (evaluate env i))) \<longrightarrow> e \<le> pass_time env i)
     \<and> (\<forall>k. map_get (st_positive prev) k \<le> map_get (st_positive (out_state (evaluate env i))) k)
     \<and> observed_absent env i \<and> out_ready (evaluate env i) = ConditionTrue"
proof -
  have ready: "out_ready (evaluate env i) = ConditionTrue" using assms by (simp add: evaluate_parts(3))
  show ?thesis
  proof (rule evaluate_verified [OF assms])
    fix prev
    assume "in_previous i = Some prev" "live prev" "st_identity prev = claim_identity env i" "pass_absent env i"
      "st_last_probe prev < pass_time env i"
      "\<And>t. st_not_before prev = Some t \<Longrightarrow> t \<le> pass_time env i"
      "\<And>k e. (k, e) \<in> set (st_positive (out_state (evaluate env i))) \<Longrightarrow> e \<le> pass_time env i"
      "\<And>k. map_get (st_positive prev) k \<le> map_get (st_positive (out_state (evaluate env i))) k"
    with ready pass_absent_observed show ?thesis by (intro exI [of _ prev]) simp
  qed
qed

definition demo_wd_env :: wd_env where
  "demo_wd_env = \<lparr>ev_clock = (\<lambda>_. 1), ev_probe = Some (\<lambda>_ _. (demo_result, None)), ev_policy_digest = (\<lambda>_. []),
     ev_claim_digest = (\<lambda>d r n nm a. ''id'' @ nm @ a), ev_effective_digest = (\<lambda>p m s. ''p''), ev_format = (\<lambda>_. [])\<rparr>"

definition demo_claim :: unit_withdrawal where
  "demo_claim = \<lparr>uw_claim_namespace = ''ns'', uw_claim_name = ''c'',
     uw_claim = \<lparr>wr_namespace = ''ns'', wr_name = ''c'', wr_uid = ''u''\<rparr>, uw_observed = 1, uw_name = ''www'',
     uw_address = ''192.0.2.1'', uw_allowed = True, uw_waiver = None\<rparr>"

definition demo_snapshot :: hosted_spec where
  "demo_snapshot = \<lparr>hs_domain = ''example.com'', hs_serial = 1,
     hs_soa = \<lparr>soa_mname = [], soa_rname = [], soa_refresh = 0, soa_retry = 0, soa_expire = 0, soa_minimum = 300\<rparr>,
     hs_name_servers = [], hs_records = [\<lparr>hr_name = ''www'', hr_type = TypeA, hr_ttl = 60, hr_values = [''192.0.2.9'']\<rparr>],
     hs_digest = ''d''\<rparr>"

definition demo_input :: "int \<Rightarrow> wstate option \<Rightarrow> wd_input" where
  "demo_input n prev = \<lparr>in_claim = demo_claim, in_snapshot = demo_snapshot, in_served = True,
     in_policy = \<lparr>p_mode = ''Recursive'', p_servers = [''10.0.0.1:53''], p_expected_ns = []\<rparr>, in_soa_minimum = 300,
     in_now = n * second, in_previous = prev\<rparr>"

definition demo_first :: wd_input where "demo_first = demo_input 1000 None"
definition demo_second :: wd_input where
  "demo_second = demo_input 1300 (Some (out_state (evaluate demo_wd_env demo_first)))"

section \<open>A run of two passes\<close>

definition demo_state :: wstate where
  "demo_state = \<lparr>st_identity = ''idwww192.0.2.1'', st_policy = ''p'', st_views = [''recursive/10.0.0.1:53''],
     st_soa_minimum = 300, st_checked_names = [''www.example.com''], st_positive = [], st_negative = [(soa_key, 300)],
     st_window_start = 1000 * second, st_absent_since = Some (1000 * second), st_not_before = Some (1300 * second),
     st_verified_at = None, st_last_probe = 1000 * second, st_next_probe = 1030 * second, st_failures = 0,
     st_missing_history = False\<rparr>"

lemma demo_clock: "ev_clock demo_wd_env k = 1" "in_now (demo_input n prev) = n * second"
  "in_soa_minimum (demo_input n prev) = 300" "in_previous (demo_input n prev) = prev" "in_claim (demo_input n prev) = demo_claim"
  "p_servers (in_policy (demo_input n prev)) = [''10.0.0.1:53'']" "uw_waiver demo_claim = None"
  "in_snapshot (demo_input n prev) = demo_snapshot" "uw_address demo_claim = ''192.0.2.1''" "in_served (demo_input n prev)"
  "ev_policy_digest demo_wd_env = (\<lambda>_. [])" "ev_probe demo_wd_env = Some (\<lambda>_ _. (demo_result, None))"
  by (simp_all add: demo_wd_env_def demo_input_def demo_claim_def)

lemma demo_facts:
  "valid_claim (demo_input n prev)" "validate_servers [''10.0.0.1:53'']"
  "required_views (demo_input n prev) = [''recursive/10.0.0.1:53'']"
  "claim_identity demo_wd_env (demo_input n prev) = ''idwww192.0.2.1''"
  "checked_name (demo_input n prev) ''idwww192.0.2.1'' = ''www.example.com''"
  "effective_digest demo_wd_env (demo_input n prev) = ''p''"
proof -
  have "valid_claim (demo_input 0 None)" by code_simp
  then show "valid_claim (demo_input n prev)" by (simp add: valid_claim_def demo_input_def)
  have "split_addr_port ''10.0.0.1:53'' = Some (''10.0.0.1'', ''53'', False)"
    "parse_addr ''10.0.0.1'' = Some (V4 10 0 0 1)" "addr_port_string (V4 10 0 0 1, 53) = ''10.0.0.1:53''"
    by code_simp+
  moreover have "parse_uint16 0 ''53'' = Some 53" by (simp add: digit_val_def)
  ultimately show "validate_servers [''10.0.0.1:53'']"
    by (simp add: validate_servers_def valid_server_def parse_addr_port_def is6_def del: parse_uint16.simps)
  have "required_views (demo_input 0 None) = [''recursive/10.0.0.1:53'']" by code_simp
  then show "required_views (demo_input n prev) = [''recursive/10.0.0.1:53'']"
    by (simp add: required_views_def demo_input_def)
  have "claim_identity demo_wd_env (demo_input 0 None) = ''idwww192.0.2.1''" by code_simp
  then show "claim_identity demo_wd_env (demo_input n prev) = ''idwww192.0.2.1''"
    by (simp add: claim_identity_def demo_input_def)
  have "checked_name (demo_input 0 None) ''idwww192.0.2.1'' = ''www.example.com''" by code_simp
  then show "checked_name (demo_input n prev) ''idwww192.0.2.1'' = ''www.example.com''"
    by (simp add: checked_name_def demo_input_def)
  show "effective_digest demo_wd_env (demo_input n prev) = ''p''"
    by (simp add: effective_digest_def demo_wd_env_def)
qed

lemma demo_snapshot_free:
  "wd_status (snapshot_exclusion demo_snapshot ''www.example.com'' ''192.0.2.1'') = ConditionTrue"
  "wd_cache (snapshot_exclusion demo_snapshot ''www.example.com'' ''192.0.2.1'') = []"
  by code_simp+

lemma evaluate_withdrawal_due:
  "p_expected_ns (q_policy r) = [] \<Longrightarrow>
     evaluate_withdrawal fp (r\<lparr>q_due := t\<rparr>) res = evaluate_withdrawal fp r res"
  by (simp add: evaluate_withdrawal_def recursive_missing_def Let_def cong: option.case_cong if_cong)

lemma demo_verified_at:
  "wd_status (evaluate_withdrawal (\<lambda>_. []) (demo_request\<lparr>q_due := t\<rparr>) demo_result) = ConditionTrue"
  "filter (\<lambda>c. ce_positive c \<noteq> None) (wd_cache (evaluate_withdrawal (\<lambda>_. []) (demo_request\<lparr>q_due := t\<rparr>) demo_result)) = []"
proof -
  have same: "evaluate_withdrawal (\<lambda>_. []) (demo_request\<lparr>q_due := t\<rparr>) demo_result = evaluate_withdrawal (\<lambda>_. []) demo_request demo_result"
    by (rule evaluate_withdrawal_due) (simp add: demo_request_def)
  show "wd_status (evaluate_withdrawal (\<lambda>_. []) (demo_request\<lparr>q_due := t\<rparr>) demo_result) = ConditionTrue"
    by (simp add: same demo_verified)
  have "filter (\<lambda>c. ce_positive c \<noteq> None) (wd_cache (evaluate_withdrawal (\<lambda>_. []) demo_request demo_result)) = []"
    by code_simp
  then show "filter (\<lambda>c. ce_positive c \<noteq> None) (wd_cache (evaluate_withdrawal (\<lambda>_. []) (demo_request\<lparr>q_due := t\<rparr>) demo_result)) = []"
    by (simp add: same)
qed

lemma retain_nothing: "filter (\<lambda>c. ce_positive c \<noteq> None) cs = [] \<Longrightarrow> retain_positive nm cs now s = s"
proof -
  have "filter (\<lambda>c. ce_positive c \<noteq> None) cs = [] \<Longrightarrow> fold (retain_item nm now) cs pos = pos" for pos
    by (induction cs) (auto simp: retain_item_def split: if_splits option.splits)
  then show "filter (\<lambda>c. ce_positive c \<noteq> None) cs = [] \<Longrightarrow> retain_positive nm cs now s = s"
    by (simp add: retain_positive_def)
qed

lemma demo_observe:
  assumes "st_checked_names s = [''www.example.com'']"
  shows "\<exists>d. observe demo_wd_env (demo_input n prev) started now s = (1, s, d) \<and> d_status d = ConditionTrue"
proof -
  have req: "name_request (demo_input n prev) s ''www.example.com'' = demo_request\<lparr>q_due := st_next_probe s\<rparr>"
    by (simp add: name_request_def demo_input_def demo_request_def demo_snapshot_def demo_claim_def probe_policy_def)
  note ver = demo_verified_at [of "st_next_probe s"]
  have "\<exists>d. check_name demo_wd_env (\<lambda>_ _. (demo_result, None)) (demo_input n prev) started now 0 ''www.example.com''
       (s, new_decision ConditionTrue ''WithdrawalVerified'' []) = (s, d) \<and> d_status d = ConditionTrue"
    using ver demo_snapshot_free
    by (simp add: check_name_def Let_def demo_clock req retain_nothing combine_True)
  then obtain d where one: "check_name demo_wd_env (\<lambda>_ _. (demo_result, None)) (demo_input n prev) started now 0 ''www.example.com''
       (s, new_decision ConditionTrue ''WithdrawalVerified'' []) = (s, d)" "d_status d = ConditionTrue"
    by blast
  with one assms demo_facts(1,2) show ?thesis by (simp add: observe_def demo_clock)
qed

lemma time_sub_self: "time_sub t t = 0"
  by (simp add: time_sub_def)

lemma demo_pass:
  assumes "initial_state demo_wd_env (demo_input n prev) = s" and "st_checked_names s = [''www.example.com'']"
    and "\<not> stale s (n * second)" and "st_policy s \<in> {[], ''p''}" and "\<not> weakened (demo_input n prev) s" and "0 < n"
  shows "\<exists>d. pass demo_wd_env (demo_input n prev) = (False, n * second, d, s\<lparr>st_views := [''recursive/10.0.0.1:53''],
      st_soa_minimum := max (st_soa_minimum s) 300, st_policy := ''p''\<rparr>) \<and> d_status d = ConditionTrue"
proof -
  obtain d where ob: "observe demo_wd_env (demo_input n prev) 1 (n * second) s = (1, s, d)" "d_status d = ConditionTrue"
    using demo_observe [OF assms(2)] by blast
  have "n * second \<noteq> 0" using assms(6) by simp
  with ob assms show ?thesis
    by (auto simp: pass_def Let_def demo_clock demo_facts time_sub_self)
qed

lemma demo_first_state: "out_state (evaluate demo_wd_env demo_first) = demo_state"
proof -
  have init: "initial_state demo_wd_env (demo_input 1000 None) = fresh_state ''idwww192.0.2.1'' [''www.example.com'']"
    by (simp add: initial_state_def demo_facts demo_clock)
  obtain d where p: "pass demo_wd_env (demo_input 1000 None) = (False, 1000 * second, d,
      (fresh_state ''idwww192.0.2.1'' [''www.example.com''])\<lparr>st_views := [''recursive/10.0.0.1:53''], st_soa_minimum := 300, st_policy := ''p''\<rparr>)"
    "d_status d = ConditionTrue"
    using demo_pass [OF init] by (auto simp: fresh_state_def stale_def weakened_def)
  show ?thesis
    using p(2) by (simp add: evaluate_parts pass_time_def pass_state_def p(1) demo_first_def advance_def demo_clock)
     (simp add: window_def fresh_state_def Let_def schedule_def demo_state_def round_up_def seconds_def map_get_def)
qed

lemma demo_state_sel:
  "st_absent_since demo_state = Some (1000 * second)" "st_window_start demo_state = 1000 * second"
  "st_last_probe demo_state = 1000 * second" "st_positive demo_state = []" "st_negative demo_state = [(soa_key, 300)]"
  "st_not_before demo_state = Some (1300 * second)"
  by (simp_all add: demo_state_def)

lemma demo_window: "d_status (snd (window 300 (1300 * second) demo_state)) = ConditionTrue"
  by (simp add: window_def Let_def demo_state_sel round_up_def seconds_def)

lemma demo_run: "out_withdrawn (evaluate demo_wd_env demo_second) = ConditionTrue"
proof -
  have init: "initial_state demo_wd_env (demo_input 1300 (Some demo_state)) = demo_state"
    by (simp add: initial_state_def demo_facts demo_clock demo_state_def)
  have pre: "\<not> stale demo_state (1300 * second)" "\<not> weakened (demo_input 1300 (Some demo_state)) demo_state"
    "st_checked_names demo_state = [''www.example.com'']" "st_policy demo_state \<in> {[], ''p''}"
    by (simp_all add: demo_state_def stale_def weakened_def demo_facts demo_clock)
  have same: "demo_state\<lparr>st_views := [''recursive/10.0.0.1:53''], st_soa_minimum := max (st_soa_minimum demo_state) 300,
      st_policy := ''p''\<rparr> = demo_state"
    by (simp add: demo_state_def)
  obtain d where p: "pass demo_wd_env (demo_input 1300 (Some demo_state)) = (False, 1300 * second, d, demo_state)"
    "d_status d = ConditionTrue"
    using demo_pass [OF init pre(3,1,4,2)] unfolding same by fastforce
  have second: "demo_second = demo_input 1300 (Some demo_state)" by (simp add: demo_second_def demo_first_state)
  show ?thesis
    unfolding second using p(2) demo_window by (simp add: evaluate_parts(2) pass_time_def pass_state_def p(1) p(1) [simplified] advance_def demo_clock)
qed

lemma demo_linked: "linked demo_wd_env [demo_first, demo_second]"
  by (simp add: follows_def demo_second_def demo_input_def)


theorem withdrawal_verified_witness:
  "live (out_state (evaluate demo_wd_env demo_first)) \<and> observed_absent demo_wd_env demo_second"
  using withdrawal_verified [OF demo_run] by (auto simp: demo_second_def demo_clock)
end
