(* ===== verification/Hosted_Exclusion.thy ===== *)
theory Hosted_Exclusion
  imports Hosted_Window
begin

text \<open>
  The snapshot term of a withdrawal (\<open>snapshotExclusion\<close>) against what the snapshot serves: the
  records of the owner a name resolves to, wildcards included, and the aliases it leads to.
\<close>

section \<open>What the snapshot serves\<close>

text \<open>
  The records the snapshot serves for a name, the alias it continues with, and the names that
  can be reached from a name by following aliases.
\<close>

definition served_records :: "hosted_spec \<Rightarrow> string \<Rightarrow> hosted_record list" where
  "served_records spec name = filter (\<lambda>r. hr_name r = snapshot_owner spec name) (hs_records spec)"

definition served_alias :: "hosted_spec \<Rightarrow> string \<Rightarrow> hosted_record option" where
  "served_alias spec name = (case filter (\<lambda>r. hr_type r = TypeCNAME) (served_records spec name) of
     [] \<Rightarrow> None | rs \<Rightarrow> Some (last rs))"

definition in_zone_name :: "hosted_spec \<Rightarrow> string \<Rightarrow> bool" where
  "in_zone_name spec name \<longleftrightarrow> name = hs_domain spec \<or> has_suffix name (''.'' @ hs_domain spec)"

inductive served_reach :: "hosted_spec \<Rightarrow> string \<Rightarrow> string \<Rightarrow> bool" for spec where
  here: "served_reach spec name name"
| follow: "in_zone_name spec name \<Longrightarrow> served_alias spec name = Some c \<Longrightarrow> t \<in> set (hr_values c)
    \<Longrightarrow> served_reach spec (canonical_name t) m \<Longrightarrow> served_reach spec name m"

inductive_cases served_reach_cases: "served_reach spec name m"

definition serves_address :: "hosted_spec \<Rightarrow> addr option \<Rightarrow> string \<Rightarrow> bool" where
  "serves_address spec retired name \<longleftrightarrow> in_zone_name spec name
     \<and> (\<exists>r \<in> set (served_records spec name). hr_type r \<in> {TypeA, TypeAAAA}
         \<and> (\<exists>v \<in> set (hr_values r). map_option unmap (address_fits (hr_type r) v) = retired))"

definition record_holds :: "addr option \<Rightarrow> hosted_record \<Rightarrow> bool" where
  "record_holds retired r \<longleftrightarrow> hr_type r \<in> {TypeA, TypeAAAA}
     \<and> (\<exists>v \<in> set (hr_values r). map_option unmap (address_fits (hr_type r) v) = retired)"

lemma still_resolves_status [simp, go_simps]: "wd_status (still_resolves ch a n t r w) = ConditionFalse"
  by (simp add: still_resolves_def)

lemma fold_still_resolves:
  "wd_status (fold (\<lambda>v w. if P v then still_resolves ch a n t r w else w) vs w) =
     (if \<exists>v \<in> set vs. P v then ConditionFalse else wd_status w)"
  by (induction vs arbitrary: w) auto

definition last_alias :: "hosted_record list \<Rightarrow> hosted_record option \<Rightarrow> hosted_record option" where
  "last_alias rs c = (case filter (\<lambda>r. hr_type r = TypeCNAME) rs of [] \<Rightarrow> c | xs \<Rightarrow> Some (last xs))"

lemma last_alias_simps [simp]:
  "last_alias [] c = c"
  "last_alias (r # rs) c = (if hr_type r = TypeCNAME then last_alias rs (Some r) else last_alias rs c)"
  by (simp_all add: last_alias_def split: list.splits)

text \<open>One scan of the records of an owner.\<close>

lemma scan_owner_Some:
  "scan_owner ch a retired n owner ttl rs acc = Some acc' \<Longrightarrow>
     os_cname acc' = last_alias (filter (\<lambda>r. hr_name r = owner) rs) (os_cname acc)
   \<and> wd_status (os_decision acc') =
       (if \<exists>r \<in> set rs. hr_name r = owner \<and> record_holds retired r then ConditionFalse
        else wd_status (os_decision acc))"
proof (induction rs arbitrary: acc)
  case (Cons r rs)
  consider "hr_name r \<noteq> owner" | "hr_name r = owner" "hr_type r = TypeCNAME"
    | "hr_name r = owner" "hr_type r \<notin> {TypeCNAME, TypeA, TypeAAAA}"
    | "hr_name r = owner" "hr_type r \<in> {TypeA, TypeAAAA}"
    by blast
  then show ?case
  proof cases
    case 4
    then have "readable r" using Cons.prems by (auto split: if_splits)
    with 4 Cons.prems Cons.IH show ?thesis
      by (auto simp: record_holds_def fold_still_resolves split: if_splits)
  qed (use Cons in \<open>auto simp: record_holds_def\<close>)
qed simp

lemma served_scan:
  assumes "scan_owner ch a retired n (snapshot_owner spec n) ttl (hs_records spec) \<lparr>os_cname = None, os_decision = w\<rparr> = Some acc"
    and "in_zone_name spec n"
  shows "os_cname acc = served_alias spec n"
    and "wd_status (os_decision acc) = (if serves_address spec retired n then ConditionFalse else wd_status w)"
  using scan_owner_Some [OF assms(1)] assms(2)
  by (auto simp: served_alias_def served_records_def last_alias_def serves_address_def record_holds_def)

lemma reach_out_of_zone: "\<not> in_zone_name spec n \<Longrightarrow> served_reach spec n m \<Longrightarrow> m = n"
  by (auto elim: served_reach_cases)

lemma reach_end: "served_alias spec n = None \<Longrightarrow> served_reach spec n m \<Longrightarrow> m = n"
  by (auto elim: served_reach_cases)

lemma reach_step:
  "served_alias spec n = Some c \<Longrightarrow> hr_values c = [t] \<Longrightarrow> served_reach spec n m \<Longrightarrow>
     m = n \<or> served_reach spec (canonical_name t) m"
  by (auto elim: served_reach_cases)

lemma snapshot_loop_verdict:
  assumes "wd_status w = ConditionTrue"
  shows "(wd_status (snapshot_loop k spec ch a retired n ttl seen w) = ConditionTrue
      \<longrightarrow> (\<forall>m. served_reach spec n m \<longrightarrow> \<not> serves_address spec retired m))
    \<and> (wd_status (snapshot_loop k spec ch a retired n ttl seen w) = ConditionFalse
      \<longrightarrow> (\<exists>m. served_reach spec n m \<and> serves_address spec retired m))
    \<and> (wd_status (snapshot_loop k spec ch a retired n ttl seen w) = ConditionUnknown
      \<longrightarrow> d_reason (wd_decision (snapshot_loop k spec ch a retired n ttl seen w)) = ''DNSProbeFailed'')"
  using assms
proof (induction k arbitrary: n ttl seen w)
  case (Suc k)
  show ?case
  proof (cases "in_zone_name spec n")
    case False
    then show ?thesis using Suc.prems
      by (auto simp: in_zone_name_def serves_address_def dest: reach_out_of_zone [OF False])
  next
    case zone: True
    show ?thesis
    proof (cases "n \<in> set seen \<or> scan_owner ch a retired n (snapshot_owner spec n) ttl (hs_records spec)
        \<lparr>os_cname = None, os_decision = w\<rparr> = None")
      case True
      then show ?thesis using zone by (auto simp: in_zone_name_def)
    next
      case False
      then obtain acc where acc: "scan_owner ch a retired n (snapshot_owner spec n) ttl (hs_records spec)
        \<lparr>os_cname = None, os_decision = w\<rparr> = Some acc" by blast
      note sc = served_scan [OF acc zone]
      show ?thesis
      proof (cases "served_alias spec n = None \<or> serves_address spec retired n")
        case True
        with sc acc zone False Suc.prems show ?thesis
          by (auto simp: in_zone_name_def split: option.splits intro: served_reach.here dest: reach_end)
      next
        case here: False
        then obtain c where c: "served_alias spec n = Some c"
          by (cases "served_alias spec n") auto
        show ?thesis
        proof (cases "\<exists>t. hr_values c = [t] \<and> valid_name (canonical_name t)")
          case True
          then obtain t where t: "hr_values c = [t]" "valid_name (canonical_name t)" by blast
          have w': "wd_status (os_decision acc) = ConditionTrue" using sc here Suc.prems by simp
          have step: "snapshot_loop (Suc k) spec ch a retired n ttl seen w =
             snapshot_loop k spec ch a retired (canonical_name t) (max ttl (hr_ttl c)) (n # seen) (os_decision acc)"
            using zone False acc sc here c t w' by (auto simp: in_zone_name_def)
          have al: "served_reach spec (canonical_name t) m \<Longrightarrow> served_reach spec n m" for m
            using zone c t by (auto intro: served_reach.follow)
          show ?thesis unfolding step
            using Suc.IH [OF w', of "canonical_name t" "max ttl (hr_ttl c)" "n # seen"] reach_step [OF c t(1)] here al by blast
        next
          case False
          with zone \<open>\<not> (n \<in> set seen \<or> _)\<close> acc sc here c Suc.prems show ?thesis
            by (auto simp: in_zone_name_def split: list.splits)
        qed
      qed
    qed
  qed
qed simp



end
