(* ===== verification/External_Verification.thy ===== *)
theory External_Verification
  imports Probe_Wire Probe_Withdrawal
begin

text \<open>
  \<open>internal/go/providers/external/verification/evaluate.go\<close>: the comparison of what the
  required views of a name answer with the expected record sets. A success is characterised
  exactly at the end.
\<close>

section \<open>One view\<close>

text \<open>The view as the first loop leaves it: canonical sets, canonical chain, loops and excess length marked.\<close>

definition external_view :: "string \<Rightarrow> view \<Rightarrow> view" where
  "external_view name v =
     (let chain = map canonical_name (v_chain v) in
      v\<lparr>v_a := addresses (v_a v), v_aaaa := addresses (v_aaaa v), v_chain := chain,
        v_mismatch := (v_mismatch v \<or> \<not> distinct (canonical_name name # chain)),
        v_failure := (if max_cnames < length chain then ''chain-limit'' else v_failure v)\<rparr>)"

fun external_scan :: "string \<Rightarrow> view list \<Rightarrow> decision \<Rightarrow> decision + decision" where
  "external_scan name [] d = Inr d"
| "external_scan name (v # vs) d =
     (if v_failure v \<noteq> [] then Inl (failed name (v_id v) (v_failure v))
      else if \<not> rcode_answered (v_rcode v) then Inl (failed name (v_id v) (rcode_failure (v_rcode v)))
      else external_scan name vs (d\<lparr>d_views := d_views d @ [v_id v], d_ttl := min_ttl (d_ttl d) (v_ttl v),
             d_negative := min_ttl (d_negative d) (v_negative v)\<rparr>))"

definition views_differ :: "view \<Rightarrow> view \<Rightarrow> bool" where
  "views_differ first v \<longleftrightarrow> v_rcode v \<noteq> v_rcode first \<or> v_mismatch v \<noteq> v_mismatch first \<or> v_a v \<noteq> v_a first
     \<or> v_aaaa v \<noteq> v_aaaa first \<or> v_chain v \<noteq> v_chain first"

definition mismatch :: "string \<Rightarrow> decision \<Rightarrow> decision" where
  "mismatch name d = d\<lparr>d_status := ConditionFalse, d_reason := ''ResolutionMismatch'',
     d_message := bounded (''DNS '' @ name @ '' targets differ: missing '' @ message_preview (d_missing d)
       @ ''; unexpected '' @ message_preview (d_extra d) @ ''.'')\<rparr>"

section \<open>Comparison with the expectation\<close>

definition expected_answers :: "rrsets \<Rightarrow> string list" where
  "expected_answers e = (if rr_cname e \<noteq> [] then typed ''CNAME'' [canonical_name (rr_cname e)]
     else typed ''A'' (addresses (rr_a e)) @ typed ''AAAA'' (addresses (rr_aaaa e)))"

definition actual_answers :: "rrsets \<Rightarrow> view \<Rightarrow> string list" where
  "actual_answers e first = (if rr_cname e \<noteq> []
     then (if v_chain first \<noteq> [] then typed ''CNAME'' (take 1 (v_chain first)) else [])
     else typed ''A'' (v_a first) @ typed ''AAAA'' (v_aaaa first))"

text \<open>The record type for which data is missing, or the empty string.\<close>

definition missing_type :: "rrsets \<Rightarrow> view \<Rightarrow> string" where
  "missing_type e first =
     (if rr_cname e \<noteq> [] \<and> v_a first = [] \<and> v_aaaa first = [] then ''A or AAAA''
      else if rr_a e \<noteq> [] \<and> v_a first = [] then ''A''
      else if rr_aaaa e \<noteq> [] \<and> v_aaaa first = [] then ''AAAA'' else [])"

definition compare_answers :: "probe_request \<Rightarrow> view \<Rightarrow> decision \<Rightarrow> decision" where
  "compare_answers req first d0 =
     (let e = q_expected req; name = q_name req; expected = expected_answers e;
          actual = actual_answers e first; diff = difference expected actual;
          d = d0\<lparr>d_actual := actual, d_missing := fst diff, d_extra := snd diff\<rparr>;
          qtype = missing_type e first
      in if v_mismatch first then mismatch name d
         else if v_rcode first = rcode_name_error
         then d\<lparr>d_status := ConditionFalse, d_reason := ''DNSNameNotFound'',
                d_message := bounded (''DNS '' @ name @ '' returned NXDOMAIN from '' @ v_id first @ ''; expected ''
                  @ message_preview expected @ ''.'')\<rparr>
         else if d_extra d \<noteq> [] \<or> (rr_cname e \<noteq> [] \<and> d_missing d \<noteq> []) then mismatch name d
         else if qtype \<noteq> []
         then d\<lparr>d_status := ConditionFalse, d_reason := ''DNSNoData'',
                d_message := bounded (''DNS '' @ name @ '' returned NOERROR with no '' @ qtype
                  @ '' answers; expected '' @ message_preview expected @ ''.'')\<rparr>
         else if d_missing d \<noteq> []
         then d\<lparr>d_status := ConditionFalse, d_reason := ''ResolutionPartial'',
                d_message := bounded (''DNS '' @ name @ '' is missing expected targets ''
                  @ message_preview (d_missing d) @ ''; observed '' @ message_preview (d_actual d) @ ''.'')\<rparr>
         else d\<lparr>d_message := bounded (''DNS '' @ name
                  @ '' matches expected targets in every required resolver view; no DNS changes were made.'')\<rparr>)"

text \<open>An authority is answered when some view through it is authoritative.\<close>

definition authority_answered :: "view list \<Rightarrow> string \<Rightarrow> bool" where
  "authority_answered views auth \<longleftrightarrow>
     (\<exists>v \<in> set views. has_prefix (v_id v) (authority_id auth @ ''/via/'') \<and> v_authoritative v)"

text \<open>Actual answers and chain are recorded before the views are compared.\<close>

definition external_compare :: "probe_request \<Rightarrow> view list \<Rightarrow> decision \<Rightarrow> decision" where
  "external_compare req views d0 =
     (let first = hd views;
          d1 = d0\<lparr>d_ttl := (case q_evidence req of None \<Rightarrow> d_ttl d0
                     | Some ev \<Rightarrow> fold (\<lambda>v t. min_ttl t (ao_ttl v)) (ze_views ev) (d_ttl d0)),
                  d_actual := typed ''A'' (v_a first) @ typed ''AAAA'' (v_aaaa first), d_chain := v_chain first\<rparr>
      in if \<exists>v \<in> set (tl views). views_differ first v then inconsistent (q_name req) d1
         else compare_answers req first d1)"

definition external_views :: "probe_request \<Rightarrow> probe_result \<Rightarrow> decision" where
  "external_views req res =
     (let views = map (external_view (q_name req)) (sort_key v_id (r_views res)) in
      (case external_scan (q_name req) views (new_decision ConditionTrue ''ResolutionVerified'' []) of
         Inl d \<Rightarrow> d | Inr d0 \<Rightarrow> external_compare req views d0))"

definition external_evaluate :: "probe_request \<Rightarrow> probe_result \<Rightarrow> decision" where
  "external_evaluate req res =
     (let name = q_name req; pol = q_policy req in
      if r_views res = [] \<or> length (r_views res) < length (p_servers pol)
      then failed name ''required-views'' ''invalid-response''
      else (case recursive_missing req res of
          Some s \<Rightarrow> failed name (recursive_id s) ''invalid-response''
        | None \<Rightarrow>
          if p_expected_ns pol = [] then external_views req res
          else (case q_evidence req of
              None \<Rightarrow> failed name ''required-authorities'' ''invalid-response''
            | Some ev \<Rightarrow>
              if ze_authorities ev = [] then failed name ''required-authorities'' ''invalid-response''
              else (case find (\<lambda>a. \<not> authority_answered (r_views res) a) (ze_authorities ev) of
                  Some a \<Rightarrow> failed name (authority_id a) ''invalid-response''
                | None \<Rightarrow> external_views req res))))"

section \<open>What a verified resolution is\<close>

definition view_succeeded :: "string \<Rightarrow> view \<Rightarrow> bool" where
  "view_succeeded name v \<longleftrightarrow> v_failure v = [] \<and> v_rcode v = rcode_success \<and> \<not> v_mismatch v
     \<and> length (v_chain v) \<le> max_cnames \<and> distinct (canonical_name name # map canonical_name (v_chain v))"

definition view_answers :: "rrsets \<Rightarrow> view \<Rightarrow> bool" where
  "view_answers e v \<longleftrightarrow>
     (if rr_cname e \<noteq> []
      then v_chain v \<noteq> [] \<and> canonical_name (hd (v_chain v)) = canonical_name (rr_cname e)
        \<and> (v_a v \<noteq> [] \<or> v_aaaa v \<noteq> [])
        \<and> (rr_a e \<noteq> [] \<longrightarrow> v_a v \<noteq> []) \<and> (rr_aaaa e \<noteq> [] \<longrightarrow> v_aaaa v \<noteq> [])
      else canonical_address ` set (v_a v) = canonical_address ` set (rr_a e)
        \<and> canonical_address ` set (v_aaaa v) = canonical_address ` set (rr_aaaa e))"

definition same_answers :: "view \<Rightarrow> view \<Rightarrow> bool" where
  "same_answers v w \<longleftrightarrow> canonical_address ` set (v_a v) = canonical_address ` set (v_a w)
     \<and> canonical_address ` set (v_aaaa v) = canonical_address ` set (v_aaaa w)
     \<and> map canonical_name (v_chain v) = map canonical_name (v_chain w)"

definition views_required :: "probe_request \<Rightarrow> probe_result \<Rightarrow> bool" where
  "views_required req res \<longleftrightarrow> r_views res \<noteq> [] \<and> length (p_servers (q_policy req)) \<le> length (r_views res)
   \<and> (\<forall>s \<in> set (p_servers (q_policy req)). \<exists>v \<in> set (r_views res). v_id v = recursive_id s)
   \<and> (p_expected_ns (q_policy req) \<noteq> [] \<longrightarrow> (\<exists>ev. q_evidence req = Some ev \<and> ze_authorities ev \<noteq> []
        \<and> (\<forall>a \<in> set (ze_authorities ev). authority_answered (r_views res) a)))"

definition external_verified :: "probe_request \<Rightarrow> probe_result \<Rightarrow> bool" where
  "external_verified req res \<longleftrightarrow> views_required req res
   \<and> (\<forall>v \<in> set (r_views res). view_succeeded (q_name req) v \<and> view_answers (q_expected req) v)
   \<and> (\<forall>v \<in> set (r_views res). \<forall>w \<in> set (r_views res). same_answers v w)"

section \<open>Lemmas\<close>

lemma external_view_simps [simp, go_simps]:
  "v_id (external_view n v) = v_id v" "v_rcode (external_view n v) = v_rcode v"
  "v_a (external_view n v) = addresses (v_a v)" "v_aaaa (external_view n v) = addresses (v_aaaa v)"
  "v_chain (external_view n v) = map canonical_name (v_chain v)"
  "v_mismatch (external_view n v) = (v_mismatch v \<or> \<not> distinct (canonical_name n # map canonical_name (v_chain v)))"
  "v_failure (external_view n v) = (if max_cnames < length (v_chain v) then ''chain-limit'' else v_failure v)"
  by (simp_all add: external_view_def Let_def)

lemma external_scan_Inl: "external_scan n vs d = Inl d' \<Longrightarrow> d_status d' = ConditionUnknown"
  by (induction n vs d rule: external_scan.induct) (auto split: if_splits)

lemma external_scan_status: "external_scan n vs d = Inr d' \<Longrightarrow> d_status d' = d_status d"
  by (induction n vs d rule: external_scan.induct) (auto split: if_splits)

lemma external_scan_ok:
  "(\<exists>d'. external_scan n vs d = Inr d') \<longleftrightarrow> (\<forall>v \<in> set vs. v_failure v = [] \<and> rcode_answered (v_rcode v))"
  by (induction n vs d rule: external_scan.induct) auto

lemma mismatch_status [simp, go_simps]: "d_status (mismatch n d) = ConditionFalse"
  by (simp add: mismatch_def)

lemma typed_sets:
  "set (typed k xs) = (\<lambda>v. k @ '' '' @ v) ` set xs"
  by (simp add: typed_def)

lemma typed_families:
  "set (typed ''A'' as @ typed ''AAAA'' bs) = set (typed ''A'' as' @ typed ''AAAA'' bs')
     \<longleftrightarrow> set as = set as' \<and> set bs = set bs'"
proof
  let ?f = "\<lambda>v :: string. ''A'' @ '' '' @ v" and ?g = "\<lambda>v :: string. ''AAAA'' @ '' '' @ v"
  assume eq: "set (typed ''A'' as @ typed ''AAAA'' bs) = set (typed ''A'' as' @ typed ''AAAA'' bs')"
  have "x \<in> set as \<longleftrightarrow> ?f x \<in> set (typed ''A'' as @ typed ''AAAA'' bs)" for x and as bs :: "string list"
    by (auto simp: typed_def)
  moreover have "x \<in> set bs \<longleftrightarrow> ?g x \<in> set (typed ''A'' as @ typed ''AAAA'' bs)" for x and as bs :: "string list"
    by (auto simp: typed_def)
  ultimately show "set as = set as' \<and> set bs = set bs'" using eq by blast
qed (simp add: typed_def)

lemma compare_answers_True:
  assumes "d_status d = ConditionTrue"
  shows "d_status (compare_answers req v d) = ConditionTrue \<longleftrightarrow>
     \<not> v_mismatch v \<and> v_rcode v \<noteq> rcode_name_error
   \<and> set (expected_answers (q_expected req)) = set (actual_answers (q_expected req) v)
   \<and> missing_type (q_expected req) v = []"
  using assms difference_empty_iff [of "expected_answers (q_expected req)" "actual_answers (q_expected req) v"]
  by (auto simp: compare_answers_def Let_def prod_eq_iff)

lemma answers_match:
  "set (expected_answers e) = set (actual_answers e (external_view n v))
     \<and> missing_type e (external_view n v) = [] \<longleftrightarrow> view_answers e v"
proof (cases "rr_cname e = []")
  case True
  have "set (expected_answers e) = set (actual_answers e (external_view n v)) \<longleftrightarrow>
      canonical_address ` set (v_a v) = canonical_address ` set (rr_a e)
    \<and> canonical_address ` set (v_aaaa v) = canonical_address ` set (rr_aaaa e)"
    using True by (auto simp: expected_answers_def actual_answers_def typed_families ad.set_canon simp del: set_append)
  moreover have "canonical_address ` set (v_a v) = canonical_address ` set (rr_a e) \<Longrightarrow> rr_a e \<noteq> [] \<Longrightarrow> v_a v \<noteq> []"
    "canonical_address ` set (v_aaaa v) = canonical_address ` set (rr_aaaa e) \<Longrightarrow> rr_aaaa e \<noteq> [] \<Longrightarrow> v_aaaa v \<noteq> []"
    by auto
  ultimately show ?thesis using True
    by (auto simp: view_answers_def missing_type_def ad.canon_Nil_iff)
next
  case False
  then show ?thesis
    by (cases "v_chain v")
       (auto simp: view_answers_def missing_type_def expected_answers_def actual_answers_def typed_def ad.canon_Nil_iff)
qed

lemma same_answers_refl [simp]: "same_answers v v"
  and same_answers_sym: "same_answers v w \<Longrightarrow> same_answers w v"
  and same_answers_trans: "same_answers u v \<Longrightarrow> same_answers v w \<Longrightarrow> same_answers u w"
  by (simp_all add: same_answers_def)

lemma views_differ_iff:
  "views_differ (external_view n v) (external_view n w) \<longleftrightarrow>
     v_rcode w \<noteq> v_rcode v \<or> v_mismatch (external_view n w) \<noteq> v_mismatch (external_view n v) \<or> \<not> same_answers v w"
  by (auto simp: views_differ_def same_answers_def ad.canon_eq_iff simp del: external_view_simps(6))

lemma views_agree:
  assumes "views = map (external_view n) vs" and "vs \<noteq> []" and "\<not> v_mismatch (hd views)" and "v_rcode (hd views) = rc"
  shows "\<not> (\<exists>v \<in> set (tl views). views_differ (hd views) v) \<longleftrightarrow>
     (\<forall>v \<in> set views. \<not> v_mismatch v \<and> v_rcode v = rc) \<and> (\<forall>v \<in> set vs. \<forall>w \<in> set vs. same_answers v w)"
proof -
  obtain v rest where vs: "vs = v # rest" using assms(2) by (cases vs) auto
  let ?m = "\<lambda>w. v_mismatch (external_view n w)"
  have hd: "\<not> ?m v" "v_rcode v = rc" using assms(3,4) by (simp_all add: assms(1) vs del: external_view_simps(6))
  have all: "(\<forall>a \<in> set vs. \<forall>b \<in> set vs. same_answers a b) \<longleftrightarrow> (\<forall>b \<in> set rest. same_answers v b)"
    unfolding vs using same_answers_refl same_answers_sym same_answers_trans
    by (metis (no_types, lifting) list.set_intros(2) list.set_intros(1) set_ConsD)
  have "\<not> (\<exists>w \<in> set (tl views). views_differ (hd views) w) \<longleftrightarrow> (\<forall>w \<in> set rest. \<not> views_differ (external_view n v) (external_view n w))"
    by (simp add: assms(1) vs del: external_view_simps)
  also have "\<dots> \<longleftrightarrow> (\<forall>w \<in> set rest. \<not> ?m w \<and> v_rcode w = rc) \<and> (\<forall>b \<in> set rest. same_answers v b)"
    using hd unfolding views_differ_iff by blast
  also have "(\<forall>w \<in> set rest. \<not> ?m w \<and> v_rcode w = rc) \<longleftrightarrow> (\<forall>w \<in> set views. \<not> v_mismatch w \<and> v_rcode w = rc)"
    using hd by (simp add: assms(1) vs del: external_view_simps(6))
  finally show ?thesis unfolding all .
qed

lemma external_views_True:
  assumes "r_views res \<noteq> []"
  shows "d_status (external_views req res) = ConditionTrue \<longleftrightarrow>
     (\<forall>v \<in> set (r_views res). view_succeeded (q_name req) v \<and> view_answers (q_expected req) v)
   \<and> (\<forall>v \<in> set (r_views res). \<forall>w \<in> set (r_views res). same_answers v w)"
proof -
  let ?n = "q_name req"
  define vs where "vs = sort_key v_id (r_views res)"
  define views where "views = map (external_view ?n) vs"
  have set_vs: "set vs = set (r_views res)" and ne: "vs \<noteq> []"
    using assms by (auto simp: vs_def) (metis length_0_conv length_sort)
  define d0 where "d0 = new_decision ConditionTrue ''ResolutionVerified'' []"
  show ?thesis
  proof (cases "external_scan ?n views d0")
    case (Inl d)
    then have "\<not> (\<forall>v \<in> set views. v_failure v = [] \<and> rcode_answered (v_rcode v))"
      using external_scan_ok [of ?n views d0] by simp
    moreover have "view_succeeded ?n v \<Longrightarrow> v_failure (external_view ?n v) = [] \<and> rcode_answered (v_rcode v)" for v
      by (auto simp: view_succeeded_def rcode_answered_def rcode_success_def)
    ultimately have "\<not> (\<forall>v \<in> set (r_views res). view_succeeded ?n v)"
      unfolding views_def by (auto simp: set_vs simp del: external_view_simps(7))
    moreover have "d_status (external_views req res) = ConditionUnknown"
      using Inl external_scan_Inl [OF Inl] by (simp add: external_views_def Let_def flip: vs_def views_def d0_def)
    ultimately show ?thesis by auto
  next
    case (Inr d1)
    have ok: "\<forall>v \<in> set vs. v_failure (external_view ?n v) = [] \<and> rcode_answered (v_rcode v)"
      using Inr external_scan_ok [of ?n views d0] by (auto simp: views_def simp del: external_view_simps(7))
    have st: "d_status d1 = ConditionTrue" using external_scan_status [OF Inr] by (simp add: d0_def)
    have hd: "hd views = external_view ?n (hd vs)" "hd vs \<in> set vs"
      using ne by (simp_all add: views_def hd_map)
    have status: "d_status (external_views req res) = ConditionTrue \<longleftrightarrow>
        \<not> (\<exists>v \<in> set (tl views). views_differ (hd views) v)
      \<and> \<not> v_mismatch (hd views) \<and> v_rcode (hd views) \<noteq> rcode_name_error \<and> view_answers (q_expected req) (hd vs)"
      using Inr st answers_match [of "q_expected req" ?n "hd vs"]
      by (auto simp: external_views_def external_compare_def compare_answers_True Let_def hd(1)
            inconsistent_status simp del: external_view_simps(6,7) simp flip: vs_def views_def d0_def)
    have rc: "v_rcode (hd views) \<noteq> rcode_name_error \<longleftrightarrow> v_rcode (hd views) = rcode_success"
    proof -
      have "rcode_answered (v_rcode (hd vs))" using ok hd(2) by blast
      then have "rcode_answered (v_rcode (hd views))" by (simp only: hd(1) external_view_simps)
      then show ?thesis by (auto simp: rcode_answered_def rcode_success_def rcode_name_error_def)
    qed
    have same: "same_answers v w \<Longrightarrow> view_answers e v \<longleftrightarrow> view_answers e w" for v w e
    proof -
      assume s: "same_answers v w"
      then have "v_a v = [] \<longleftrightarrow> v_a w = []" "v_aaaa v = [] \<longleftrightarrow> v_aaaa w = []" "v_chain v = [] \<longleftrightarrow> v_chain w = []"
        by (auto simp: same_answers_def)
      moreover have "v_chain v \<noteq> [] \<Longrightarrow> canonical_name (hd (v_chain v)) = canonical_name (hd (v_chain w))"
        using s by (cases "v_chain v"; cases "v_chain w") (auto simp: same_answers_def)
      ultimately show ?thesis using s by (auto simp: view_answers_def same_answers_def)
    qed
    have succ: "view_succeeded ?n v \<longleftrightarrow> \<not> v_mismatch (external_view ?n v) \<and> v_rcode v = rcode_success" if "v \<in> set vs" for v
      using ok that by (auto simp: view_succeeded_def split: if_splits)
    show ?thesis
    proof (cases "v_mismatch (hd views) \<or> v_rcode (hd views) \<noteq> rcode_success")
      case True
      then have "\<not> view_succeeded ?n (hd vs)" using succ [OF hd(2)] hd(1) by auto
      then show ?thesis using status rc True hd(2) set_vs by auto
    next
      case False
      note agree = views_agree [OF views_def ne, of rcode_success]
      have "(\<forall>v \<in> set views. \<not> v_mismatch v \<and> v_rcode v = rcode_success) \<longleftrightarrow> (\<forall>v \<in> set vs. view_succeeded ?n v)"
        using succ by (auto simp: views_def simp del: external_view_simps(6))
      then show ?thesis using status rc False agree same hd(2) set_vs by blast
    qed
  qed
qed


lemma external_evaluate_True:
  "d_status (external_evaluate req res) = ConditionTrue
     \<longleftrightarrow> views_required req res \<and> d_status (external_views req res) = ConditionTrue"
proof (cases "r_views res = [] \<or> length (r_views res) < length (p_servers (q_policy req)) \<or> recursive_missing req res \<noteq> None")
  case True
  then have "\<not> views_required req res"
    by (auto simp: views_required_def recursive_missing_def find_None_iff)
  moreover have "d_status (external_evaluate req res) = ConditionUnknown"
    using True by (cases "recursive_missing req res") (simp_all add: external_evaluate_def Let_def)
  ultimately show ?thesis by simp
next
  case False
  then have base: "views_required req res \<longleftrightarrow> (p_expected_ns (q_policy req) \<noteq> [] \<longrightarrow> (\<exists>ev. q_evidence req = Some ev
      \<and> ze_authorities ev \<noteq> [] \<and> find (\<lambda>a. \<not> authority_answered (r_views res) a) (ze_authorities ev) = None))"
    by (auto simp: views_required_def recursive_missing_def find_None_iff)
  show ?thesis
  proof (cases "p_expected_ns (q_policy req) = []")
    case True
    with False base show ?thesis by (auto simp: external_evaluate_def)
  next
    case expected: False
    show ?thesis
    proof (cases "q_evidence req")
      case (Some ev)
      show ?thesis
      proof (cases "find (\<lambda>a. \<not> authority_answered (r_views res) a) (ze_authorities ev)")
        case None
        with Some expected False base show ?thesis by (auto simp: external_evaluate_def)
      next
        case (Some a)
        with \<open>q_evidence req = Some ev\<close> expected False base show ?thesis by (auto simp: external_evaluate_def Let_def)
      qed
    qed (use False base expected in \<open>auto simp: external_evaluate_def\<close>)
  qed
qed

section \<open>Properties\<close>

text \<open>
  C33. The provider reports a resolution as verified exactly when every required resolver and
  authority is among the views and every view succeeded, gave the expected answer and agrees with
  every other view on addresses and alias chain.
\<close>

theorem external_evaluate_exact:
  "d_status (external_evaluate req res) = ConditionTrue \<longleftrightarrow> external_verified req res"
proof (cases "r_views res = []")
  case True
  then show ?thesis by (simp add: external_evaluate_True external_verified_def views_required_def)
next
  case False
  then show ?thesis by (simp add: external_evaluate_True external_verified_def external_views_True)
qed

definition demo_external_view :: "string \<Rightarrow> view" where
  "demo_external_view i = (empty_view i)\<lparr>v_a := [''192.0.2.9''], v_chain := [''Target.Example.Com.'']\<rparr>"

definition demo_external_request :: probe_request where
  "demo_external_request = demo_request\<lparr>q_expected := \<lparr>rr_a = [''192.0.2.9''], rr_aaaa = [], rr_cname = []\<rparr>\<rparr>"

text \<open>Verified resolutions exist: one resolver that gives the expected address.\<close>

theorem external_evaluate_exact_witness:
  "external_verified demo_external_request \<lparr>r_views = [demo_external_view ''recursive/10.0.0.1:53''], r_zone = None\<rparr>"
  unfolding external_evaluate_exact [symmetric] by code_simp

end
