(* ===== verification/Core_Declaration.thy ===== *)
theory Core_Declaration
  imports Api_Types Dns_Msg
begin

text \<open>
  \<open>internal/go/core/declaration\<close>: which zones a class admits, which record sets and
  withdrawals a zone admits, and the validation of withdrawal claims and waivers. The cluster's
  namespaces, label selectors, regular expressions, the Kubernetes name checks and the digests
  are parameters.
\<close>

section \<open>Parameters\<close>

type_synonym label_map = "(string \<times> string) list"

text \<open>
  \<open>de_namespace\<close> reads a namespace: an error, its absence, or its labels.
  \<open>de_selector\<close> compiles a selector (\<open>None\<close> is an error) and \<open>de_regexp\<close> a
  pattern, giving the leftmost match as a pair of offsets.
\<close>

record decl_env =
  de_namespace :: "string \<Rightarrow> go_error + label_map option"
  de_selector :: "label_selector \<Rightarrow> go_error + (label_map \<Rightarrow> bool)"
  de_regexp :: "string \<Rightarrow> (string \<Rightarrow> (nat \<times> nat) option) option"
  de_dns_subdomain :: "string \<Rightarrow> bool"
  de_dns_label :: "string \<Rightarrow> bool"
  de_spec_digest :: "withdrawal_spec \<Rightarrow> string"
  de_waiver_digest :: "waiver_spec \<Rightarrow> string"
  de_base32 :: "nat list \<Rightarrow> string"

section \<open>Zones and classes (policy.go)\<close>

definition namespace_policy_from :: "namespace_policy \<Rightarrow> namespaces_from" where
  "namespace_policy_from p = (if np_from p = [] then FromSame else np_from p)"

definition zone_allowed_by_class :: "decl_env \<Rightarrow> zone_class \<Rightarrow> string \<Rightarrow> go_error + bool" where
  "zone_allowed_by_class env zc ns =
     (let p = zc_allowed_zones zc; from = namespace_policy_from p in
      if from = FromSame then Inr (om_namespace (zc_meta zc) = ns)
      else if from = FromAll then Inr True
      else if from = FromSelector then
        (case np_selector p of None \<Rightarrow> Inr False
         | Some spec \<Rightarrow>
           (case de_selector env spec of Inl e \<Rightarrow> Inl e
            | Inr matches \<Rightarrow>
              (case de_namespace env ns of Inl e \<Rightarrow> Inl e
               | Inr None \<Rightarrow> Inr False
               | Inr (Some labels) \<Rightarrow> Inr (matches labels))))
      else Inr False)"

definition namespace_allowed :: "decl_env \<Rightarrow> label_selector \<Rightarrow> string \<Rightarrow> bool" where
  "namespace_allowed env spec ns \<longleftrightarrow>
     \<not> (ls_match_labels spec = [] \<and> ls_match_expressions spec = [])
     \<and> (case de_selector env spec of Inl _ \<Rightarrow> False
        | Inr matches \<Rightarrow> (case de_namespace env ns of Inr (Some labels) \<Rightarrow> matches labels | _ \<Rightarrow> False))"

definition full_match :: "decl_env \<Rightarrow> string \<Rightarrow> string \<Rightarrow> bool" where
  "full_match env pattern name \<longleftrightarrow>
     (case de_regexp env pattern of None \<Rightarrow> False
      | Some find_index \<Rightarrow> find_index name = Some (0, length name))"

text \<open>The two nested loops over the grants: whether a grant was found, and what matched so far.\<close>

fun scan_records :: "decl_env \<Rightarrow> string \<Rightarrow> record_type \<Rightarrow> allowed_record list \<Rightarrow> bool \<Rightarrow> bool \<times> bool" where
  "scan_records env name ty [] matched = (False, matched)"
| "scan_records env name ty (r # rs) matched =
     (if \<not> full_match env (ar_pattern r) name then scan_records env name ty rs matched
      else if ty \<in> set (ar_types r) then (True, True)
      else scan_records env name ty rs True)"

fun scan_grants :: "decl_env \<Rightarrow> string \<Rightarrow> string \<Rightarrow> record_type \<Rightarrow> allowed_record_set list \<Rightarrow> bool \<Rightarrow> bool
    \<Rightarrow> bool \<times> string" where
  "scan_grants env ns name ty [] ns_matched name_matched =
     (False, if \<not> ns_matched then ''RecordSet namespace is not allowed by the referenced Zone.''
             else if \<not> name_matched then ''RecordSet name is not allowed by the referenced Zone.''
             else ''RecordSet type is not allowed for this RecordSet name by the referenced Zone.'')"
| "scan_grants env ns name ty (g # gs) ns_matched name_matched =
     (if \<not> namespace_allowed env (ars_selector g) ns then scan_grants env ns name ty gs ns_matched name_matched
      else (case scan_records env name ty (ars_records g) name_matched of
          (True, _) \<Rightarrow> (True, [])
        | (False, matched) \<Rightarrow> scan_grants env ns name ty gs True matched))"

definition record_set_allowed_with :: "decl_env \<Rightarrow> string \<Rightarrow> string \<Rightarrow> record_type \<Rightarrow> zone_res \<Rightarrow> bool \<Rightarrow> bool \<times> string" where
  "record_set_allowed_with env ns name ty zone allow_same =
     (if allow_same \<and> ns = om_namespace (zone_meta zone) then (True, [])
      else scan_grants env ns name ty (zs_allowed (zone_rspec zone)) False False)"

definition record_set_allowed_by_zone :: "decl_env \<Rightarrow> record_set \<Rightarrow> zone_res \<Rightarrow> bool \<times> string" where
  "record_set_allowed_by_zone env rs zone =
     record_set_allowed_with env (om_namespace (rset_meta rs)) (rs_name (rset_spec rs)) (rs_type (rset_spec rs)) zone True"

section \<open>Addresses as labels (recordwithdrawal\_types.go)\<close>

abbreviation address_label_key :: string where
  "address_label_key \<equiv> ''endpoint.dns.appthrust.io/address''"

fun addr_bytes :: "addr \<Rightarrow> nat list" where
  "addr_bytes (V4 a b c d) = [unat a, unat b, unat c, unat d]"
| "addr_bytes (V6 gs _) = concat (map (\<lambda>g. [unat (hi_byte g), unat (lo_byte g)]) gs)"

definition address_label_value :: "decl_env \<Rightarrow> addr \<Rightarrow> string" where
  "address_label_value env ip =
     (if addr_zone ip \<noteq> [] then []
      else let u = unmap ip in
           if is4 u then addr_string u else to_lower (de_base32 env (addr_bytes u)))"

section \<open>Withdrawal claims and waivers (withdrawal.go)\<close>

definition canonical_ip :: "string \<Rightarrow> addr option" where
  "canonical_ip s = (case parse_addr s of None \<Rightarrow> None
     | Some ip \<Rightarrow> if addr_zone ip \<noteq> [] \<or> is4in6 ip \<or> addr_string ip \<noteq> s then None else Some ip)"

text \<open>The error text, or \<open>None\<close> for a valid claim.\<close>

definition validate_withdrawal :: "decl_env \<Rightarrow> record_withdrawal \<Rightarrow> string option" where
  "validate_withdrawal env claim =
     (let m = rw_meta claim; spec = rw_spec claim; name = ws_name spec;
          base = (if has_prefix name ''*.'' then trim_prefix name ''*.'' else name) in
      if om_owners m \<noteq> [] \<or> om_finalizers m \<noteq> []
      then Some ''withdrawals must not have ownerReferences or finalizers''
      else if \<not> de_dns_subdomain env (zr_name (ws_zone_ref spec))
      then Some ''spec.zoneRef.name must be a valid object name''
      else if (case zr_namespace (ws_zone_ref spec) of None \<Rightarrow> False | Some ns \<Rightarrow> \<not> de_dns_label env ns)
      then Some ''spec.zoneRef.namespace must be a valid namespace''
      else if name \<noteq> ''@'' \<and> name \<noteq> ''*'' \<and> (\<not> de_dns_subdomain env base \<or> 253 < length name)
      then Some ''spec.name must be a canonical relative DNS owner''
      else (case canonical_ip (ws_address spec) of
          None \<Rightarrow> Some ''spec.address must be a canonical unscoped and unmapped IP address''
        | Some ip \<Rightarrow>
          if label_value (om_labels m) address_label_key \<noteq> address_label_value env ip
          then Some (''metadata.labels['' @ address_label_key @ ''] must match spec.address'')
          else None))"

definition exact_ref :: "decl_env \<Rightarrow> withdrawal_ref \<Rightarrow> bool" where
  "exact_ref env ref \<longleftrightarrow> de_dns_label env (wr_namespace ref) \<and> de_dns_subdomain env (wr_name ref) \<and> wr_uid ref \<noteq> []"

definition validate_waiver :: "decl_env \<Rightarrow> withdrawal_waiver \<Rightarrow> string option" where
  "validate_waiver env w =
     (let m = ww_meta w; spec = ww_spec w in
      if om_owners m \<noteq> [] \<or> om_finalizers m \<noteq> []
      then Some ''waivers must not have ownerReferences or finalizers''
      else if \<not> exact_ref env (wv_withdrawal_ref spec) \<or> \<not> exact_ref env (wv_reservation_ref spec)
      then Some ''withdrawalRef and reservationRef require exact namespace, name and UID''
      else if wr_namespace (wv_withdrawal_ref spec) \<noteq> om_namespace m
      then Some ''spec.withdrawalRef.namespace must match waiver namespace''
      else if canonical_ip (wv_address spec) = None
      then Some ''spec.address must be a canonical unscoped and unmapped IP address''
      else if \<not> wv_accept_risk spec then Some ''spec.acceptStaleDNSRisk must be true''
      else if blank (wv_reason spec) \<or> 2048 < length (wv_reason spec)
            \<or> blank (wv_ticket_ref spec) \<or> 1024 < length (wv_ticket_ref spec)
      then Some ''spec.reason and spec.ticketRef must be nonempty and bounded''
      else None)"

definition claim_ref :: "object_meta \<Rightarrow> withdrawal_ref" where
  "claim_ref m = \<lparr>wr_namespace = om_namespace m, wr_name = om_name m, wr_uid = om_uid m\<rparr>"

definition waiver_matches :: "decl_env \<Rightarrow> withdrawal_waiver \<Rightarrow> record_withdrawal \<Rightarrow> bool" where
  "waiver_matches env w claim \<longleftrightarrow>
     validate_waiver env w = None \<and> \<not> deleting (ww_meta w) \<and> om_uid (ww_meta w) \<noteq> []
   \<and> om_namespace (ww_meta w) = om_namespace (rw_meta claim)
   \<and> wv_withdrawal_ref (ww_spec w) = claim_ref (rw_meta claim)
   \<and> wv_claim_digest (ww_spec w) = de_spec_digest env (rw_spec claim)
   \<and> wv_address (ww_spec w) = ws_address (rw_spec claim)"

definition withdrawal_allowed_by_zone :: "decl_env \<Rightarrow> record_withdrawal \<Rightarrow> zone_res \<Rightarrow> bool \<times> string" where
  "withdrawal_allowed_by_zone env claim zone =
     (case parse_addr (ws_address (rw_spec claim)) of
        None \<Rightarrow> (False, ''Withdrawal address is invalid'')
      | Some ip \<Rightarrow>
        record_set_allowed_with env (om_namespace (rw_meta claim)) (ws_name (rw_spec claim))
          (if is6 ip then TypeAAAA else TypeA) zone (\<not> has_prefix (ws_name (rw_spec claim)) ''*''))"

section \<open>What is granted\<close>

text \<open>A grant of the zone for an owner name and a type in a namespace.\<close>

definition granted :: "decl_env \<Rightarrow> zone_res \<Rightarrow> string \<Rightarrow> string \<Rightarrow> record_type \<Rightarrow> bool" where
  "granted env zone ns name ty \<longleftrightarrow>
     (\<exists>g \<in> set (zs_allowed (zone_rspec zone)). namespace_allowed env (ars_selector g) ns
        \<and> (\<exists>r \<in> set (ars_records g). full_match env (ar_pattern r) name \<and> ty \<in> set (ar_types r)))"

lemma scan_records_fst:
  "fst (scan_records env name ty rs m) \<longleftrightarrow> (\<exists>r \<in> set rs. full_match env (ar_pattern r) name \<and> ty \<in> set (ar_types r))"
  by (induction rs arbitrary: m) auto

lemma scan_grants_fst:
  "fst (scan_grants env ns name ty gs a b) \<longleftrightarrow>
     (\<exists>g \<in> set gs. namespace_allowed env (ars_selector g) ns
        \<and> (\<exists>r \<in> set (ars_records g). full_match env (ar_pattern r) name \<and> ty \<in> set (ar_types r)))"
proof (induction gs arbitrary: a b)
  case (Cons g gs)
  show ?case
    using Cons.IH scan_records_fst [of env name ty "ars_records g" b]
    by (auto split: prod.splits bool.splits)
qed simp

lemma record_set_allowed_iff:
  "fst (record_set_allowed_with env ns name ty zone same) \<longleftrightarrow>
     (same \<and> ns = om_namespace (zone_meta zone)) \<or> granted env zone ns name ty"
  by (auto simp: record_set_allowed_with_def granted_def scan_grants_fst)

lemma scan_grants_message: "snd (scan_grants env ns name ty gs a b) = [] \<longleftrightarrow> fst (scan_grants env ns name ty gs a b)"
  by (induction gs arbitrary: a b) (auto split: prod.splits bool.splits)

section \<open>Properties\<close>

text \<open>
  C21. A record set is admitted exactly when it lives in the zone's own namespace or some grant of
  the zone selects its namespace and lists its owner name and type; a refusal always gives a
  reason.
\<close>

theorem record_set_grant_exact:
  "record_set_allowed_by_zone env rs zone = (ok, msg) \<Longrightarrow>
     (ok \<longleftrightarrow> om_namespace (rset_meta rs) = om_namespace (zone_meta zone)
        \<or> granted env zone (om_namespace (rset_meta rs)) (rs_name (rset_spec rs)) (rs_type (rset_spec rs)))
   \<and> (msg = [] \<longleftrightarrow> ok)"
  using record_set_allowed_iff [of env "om_namespace (rset_meta rs)" "rs_name (rset_spec rs)" "rs_type (rset_spec rs)" zone True]
    scan_grants_message [of env "om_namespace (rset_meta rs)" "rs_name (rset_spec rs)" "rs_type (rset_spec rs)"
      "zs_allowed (zone_rspec zone)" False False]
  by (auto simp: record_set_allowed_by_zone_def record_set_allowed_with_def split: if_splits)

text \<open>
  C24. A withdrawal of a wildcard owner needs an explicit grant for the address's record type, in
  the zone's own namespace as well; any other owner is also admitted from that namespace.
\<close>

theorem withdrawal_grant_exact:
  assumes "parse_addr (ws_address (rw_spec claim)) = Some ip"
  shows "fst (withdrawal_allowed_by_zone env claim zone) \<longleftrightarrow>
     (\<not> has_prefix (ws_name (rw_spec claim)) ''*'' \<and> om_namespace (rw_meta claim) = om_namespace (zone_meta zone))
     \<or> granted env zone (om_namespace (rw_meta claim)) (ws_name (rw_spec claim)) (if is6 ip then TypeAAAA else TypeA)"
  using assms by (simp add: withdrawal_allowed_by_zone_def record_set_allowed_iff)

text \<open>
  C27. A waiver is bound to one claim: two claims it matches are the same object incarnation with
  the same address and spec digest, and the waiver itself is valid, live and carries its risk
  acceptance.
\<close>

theorem waiver_binding:
  assumes "waiver_matches env w c" and "waiver_matches env w d"
  shows "claim_ref (rw_meta c) = claim_ref (rw_meta d) \<and> ws_address (rw_spec c) = ws_address (rw_spec d)
    \<and> de_spec_digest env (rw_spec c) = de_spec_digest env (rw_spec d) \<and> wv_accept_risk (ww_spec w)
    \<and> (\<exists>ip. canonical_ip (ws_address (rw_spec c)) = Some ip \<and> addr_zone ip = [] \<and> \<not> is4in6 ip)"
proof -
  have v: "validate_waiver env w = None" and a: "wv_address (ww_spec w) = ws_address (rw_spec c)"
    using assms(1) by (simp_all add: waiver_matches_def)
  have risk: "wv_accept_risk (ww_spec w)" and "canonical_ip (wv_address (ww_spec w)) \<noteq> None"
    using v by (auto simp: validate_waiver_def Let_def split: if_splits)
  then have "\<exists>ip. canonical_ip (ws_address (rw_spec c)) = Some ip \<and> addr_zone ip = [] \<and> \<not> is4in6 ip"
    unfolding a by (auto simp: canonical_ip_def split: option.splits if_splits)
  with risk assms show ?thesis by (simp add: waiver_matches_def)
qed

section \<open>An example\<close>

text \<open>Every namespace is selected, patterns are literal names and digests are the fields themselves.\<close>

definition demo_decl_env :: decl_env where
  "demo_decl_env = \<lparr>de_namespace = (\<lambda>_. Inr (Some [])), de_selector = (\<lambda>_. Inr (\<lambda>_. True)),
     de_regexp = (\<lambda>p. Some (\<lambda>n. if n = p then Some (0, length n) else None)),
     de_dns_subdomain = (\<lambda>s. s \<noteq> []), de_dns_label = (\<lambda>s. s \<noteq> []), de_spec_digest = ws_address,
     de_waiver_digest = wv_address, de_base32 = (\<lambda>_. [])\<rparr>"

definition demo_meta :: "string \<Rightarrow> string \<Rightarrow> object_meta" where
  "demo_meta ns n = \<lparr>om_namespace = ns, om_name = n, om_uid = ''uid-'' @ n, om_generation = 1, om_creation = 0,
     om_deletion = None, om_labels = [(address_label_key, ''192.0.2.1'')], om_annotations = [], om_finalizers = [], om_owners = []\<rparr>"

definition demo_zone :: zone_res where
  "demo_zone = \<lparr>zone_meta = demo_meta ''dns'' ''zone'', zone_rspec = \<lparr>zs_domain = ''example.com'',
     zs_provider = \<lparr>pr_name = ''p'', pr_version = ''v1''\<rparr>, zs_class_ref = \<lparr>zr_namespace = None, zr_name = ''class''\<rparr>,
     zs_allowed = [\<lparr>ars_selector = \<lparr>ls_match_labels = [(''a'', ''b'')], ls_match_expressions = []\<rparr>,
       ars_records = [\<lparr>ar_pattern = ''www'', ar_types = [''A'']\<rparr>]\<rparr>], zs_adoption = []\<rparr>\<rparr>"

definition demo_record_withdrawal :: record_withdrawal where
  "demo_record_withdrawal = \<lparr>rw_meta = demo_meta ''app'' ''claim'', rw_spec = \<lparr>ws_zone_ref = \<lparr>zr_namespace = Some ''dns'',
     zr_name = ''zone''\<rparr>, ws_name = ''www'', ws_address = ''192.0.2.1''\<rparr>\<rparr>"

definition demo_waiver :: withdrawal_waiver where
  "demo_waiver = \<lparr>ww_meta = demo_meta ''app'' ''waiver'', ww_spec = \<lparr>wv_withdrawal_ref = claim_ref (demo_meta ''app'' ''claim''),
     wv_claim_digest = ''192.0.2.1'', wv_address = ''192.0.2.1'', wv_reservation_ref = claim_ref (demo_meta ''app'' ''r''),
     wv_reason = ''reason'', wv_ticket_ref = ''T-1'', wv_accept_risk = True\<rparr>\<rparr>"

definition demo_record_set :: record_set where
  "demo_record_set = \<lparr>rset_meta = demo_meta ''app'' ''www'', rset_spec = \<lparr>rs_zone_ref = \<lparr>zr_namespace = Some ''dns'', zr_name = ''zone''\<rparr>,
     rs_provider = \<lparr>pr_name = ''p'', pr_version = ''v1''\<rparr>, rs_type = ''A'', rs_name = ''www'', rs_ttl = None,
     rs_payload = \<lparr>rp_a = Some [''192.0.2.9''], rp_aaaa = None, rp_txt = None, rp_cname = None, rp_mx = None, rp_caa = None, rp_ns = None\<rparr>,
     rs_options = [], rs_adoption = []\<rparr>\<rparr>"

theorem record_set_grant_exact_witness: "granted demo_decl_env demo_zone ''app'' ''www'' ''A''"
proof -
  have "record_set_allowed_by_zone demo_decl_env demo_record_set demo_zone = (True, [])" by code_simp
  from record_set_grant_exact [OF this] show ?thesis
    by (simp add: demo_record_set_def demo_meta_def demo_zone_def)
qed

theorem withdrawal_grant_exact_witness: "fst (withdrawal_allowed_by_zone demo_decl_env demo_record_withdrawal demo_zone)"
proof -
  have ip: "parse_addr (ws_address (rw_spec demo_record_withdrawal)) = Some (V4 192 0 2 1)" by code_simp
  have "granted demo_decl_env demo_zone ''app'' ''www'' ''A''"
    by (simp add: granted_def demo_zone_def namespace_allowed_def full_match_def demo_decl_env_def)
  then show ?thesis
    using withdrawal_grant_exact [OF ip, of demo_decl_env demo_zone]
    by (simp add: demo_record_withdrawal_def demo_meta_def is6_def)
qed

theorem waiver_binding_witness: "wv_accept_risk (ww_spec demo_waiver)"
proof -
  have "waiver_matches demo_decl_env demo_waiver demo_record_withdrawal" by code_simp
  from waiver_binding [OF this this] show ?thesis by blast
qed

end
