(* ===== verification/Api_Units.thy ===== *)
theory Api_Units
  imports Api_Types
begin

text \<open>
  The provider contract (\<open>extension_types.go\<close>), the zone unit with its status
  (\<open>zoneunit_types.go\<close>) and the statuses of zones, record sets and withdrawals. Schemas,
  raw payloads and certificate bundles are their bytes.
\<close>

section \<open>Providers (extension\_types.go)\<close>

record webhook_service =
  wsv_namespace :: string
  wsv_name :: string
  wsv_path :: string
  wsv_port :: "int option"

record conversion_webhook =
  cw_service :: webhook_service
  cw_ca_bundle :: string
  cw_timeout :: "int option"

record provider_conversion =
  cv_cel :: string
  cv_webhook :: "conversion_webhook option"

record validation_rule =
  vr_rule :: string
  vr_message :: string

record validation_toggle =
  vt_name :: string
  vt_when :: string

record condition_reason =
  cr_type :: string
  cr_status :: condition_status
  cr_reason :: string

record provider_zone_class =
  pzc_parameters :: "raw option"
  pzc_rules :: "validation_rule list"
  pzc_conversion :: provider_conversion

record provider_zone =
  pz_adoption :: "raw option"
  pz_status_data :: "raw option"
  pz_reasons :: "condition_reason list"
  pz_rules :: "validation_rule list"
  pz_conversion :: provider_conversion

record provider_record_set =
  prs_types :: "record_type list"
  prs_options :: "raw option"
  prs_adoption :: "raw option"
  prs_status_data :: "raw option"
  prs_rules :: "validation_rule list"
  prs_reasons :: "condition_reason list"
  prs_disabled :: "validation_toggle list"
  prs_conversion :: provider_conversion

record provider_withdrawal =
  pw_supported :: bool
  pw_status_data :: "raw option"
  pw_reasons :: "condition_reason list"

record provider_unit =
  pu_disabled :: "validation_toggle list"
  pu_rules :: "validation_rule list"

record provider_identity =
  pid_group :: string
  pid_kind :: string
  pid_scope :: string

record provider_version =
  pvn_name :: string
  pvn_served :: bool
  pvn_storage :: bool
  pvn_identity :: "provider_identity option"
  pvn_zone_class :: provider_zone_class
  pvn_zone :: provider_zone
  pvn_record_set :: provider_record_set
  pvn_withdrawal :: "provider_withdrawal option"
  pvn_unit :: provider_unit

record provider =
  prov_name :: string
  prov_uid :: uid
  prov_versions :: "provider_version list"

section \<open>Zone units (zoneunit\_types.go)\<close>

record unit_zone_spec =
  uz_ref :: object_reference
  uz_observed :: int
  uz_domain :: string
  uz_class_ref :: object_reference
  uz_class_uid :: uid
  uz_class_observed :: int
  uz_adoption :: raw

record unit_spec =
  un_provider :: provider_reference
  un_zone :: unit_zone_spec
  un_record_sets :: "unit_record_set list"
  un_withdrawals :: "unit_withdrawal list"

record unit_zone_status =
  uzs_name_servers :: "string list"
  uzs_provider :: "provider_status option"
  uzs_conditions :: "condition list"

record unit_withdrawal_status =
  uws_claim_namespace :: string
  uws_claim_name :: string
  uws_claim :: withdrawal_ref
  uws_observed :: int
  uws_policy :: string
  uws_checked_names :: "string list"
  uws_required_views :: "string list"
  uws_sampled :: bool
  uws_absent_since :: "gotime option"
  uws_not_before :: "gotime option"
  uws_last_probe :: "gotime option"
  uws_next_probe :: "gotime option"
  uws_verified_at :: "gotime option"
  uws_digest :: string
  uws_provider :: "provider_status option"
  uws_waiver :: "waiver_reference option"
  uws_conditions :: "condition list"

record unit_status =
  ust_observed :: int
  ust_conditions :: "condition list"
  ust_provider :: "provider_status option"
  ust_zone :: "unit_zone_status option"
  ust_record_sets :: "unit_record_set_status list"
  ust_withdrawals :: "unit_withdrawal_status list"

record zone_unit =
  unit_meta :: object_meta
  unit_rspec :: unit_spec
  unit_rstatus :: unit_status

section \<open>Claim statuses\<close>

record zone_status =
  zst_observed :: int
  zst_name_servers :: "string list"
  zst_provider :: "provider_status option"
  zst_conditions :: "condition list"

record record_set_status =
  rst_observed :: int
  rst_zone :: "object_reference option"
  rst_provider :: "provider_status option"
  rst_conditions :: "condition list"

record withdrawal_status =
  rws_observed :: int
  rws_zone :: "withdrawal_ref option"
  rws_unit :: "withdrawal_ref option"
  rws_provider_ref :: "provider_reference option"
  rws_policy :: string
  rws_checked_names :: "string list"
  rws_required_views :: "string list"
  rws_sampled :: bool
  rws_absent_since :: "gotime option"
  rws_not_before :: "gotime option"
  rws_last_probe :: "gotime option"
  rws_next_probe :: "gotime option"
  rws_verified_at :: "gotime option"
  rws_digest :: string
  rws_provider :: "provider_status option"
  rws_waiver :: "waiver_reference option"
  rws_conditions :: "condition list"

end
