(* ===== verification/Provider_Contract.thy ===== *)
theory Provider_Contract
  imports Api_Units
begin

text \<open>
  \<open>internal/go/core/providercontract/provider.go\<close>: the versions of a provider, the
  defaulting and validation of payloads against the provider's schemas, and the conversion of a
  payload to the storage version by CEL or by webhook. JSON coding, schema compilation, CEL and
  the HTTP exchange are parameters.
\<close>

section \<open>Payloads and errors\<close>

datatype target = TargetZoneClass | TargetZone | TargetRecordSet

record payload =
  pl_parameters :: raw
  pl_adoption :: raw
  pl_options :: raw

definition empty_payload :: payload where
  "empty_payload = \<lparr>pl_parameters = [], pl_adoption = [], pl_options = []\<rparr>"

datatype error_kind = SchemaViolation | ConversionRejected | ConversionWebhookUnavailable
  | ConversionWebhookTimeout | ProviderContractNotReady

record payload_error =
  pe_kind :: error_kind
  pe_message :: string

definition payload_error_of :: "error_kind \<Rightarrow> string \<Rightarrow> payload_error" where
  "payload_error_of k m = \<lparr>pe_kind = k, pe_message = m\<rparr>"

record acceptance =
  ac_status :: condition_status
  ac_reason :: string
  ac_message :: string

definition error_to_acceptance :: "payload_error option \<Rightarrow> acceptance" where
  "error_to_acceptance err =
     (case err of None \<Rightarrow> \<lparr>ac_status = ConditionTrue, ac_reason = ''Accepted'', ac_message = []\<rparr>
      | Some e \<Rightarrow>
        (case pe_kind e of
           SchemaViolation \<Rightarrow> \<lparr>ac_status = ConditionFalse, ac_reason = ''InvalidProviderPayload'', ac_message = pe_message e\<rparr>
         | ConversionRejected \<Rightarrow> \<lparr>ac_status = ConditionFalse, ac_reason = ''ProviderConversionFailed'', ac_message = pe_message e\<rparr>
         | ProviderContractNotReady \<Rightarrow>
             \<lparr>ac_status = ConditionUnknown, ac_reason = ''ProviderStorageVersionNotResolved'', ac_message = pe_message e\<rparr>
         | _ \<Rightarrow> \<lparr>ac_status = ConditionUnknown, ac_reason = ''ProviderConversionUnavailable'', ac_message = pe_message e\<rparr>))"

section \<open>Versions\<close>

definition storage_version :: "provider option \<Rightarrow> provider_version option" where
  "storage_version p = (case p of None \<Rightarrow> None | Some pr \<Rightarrow> find pvn_storage (prov_versions pr))"

definition served_version :: "provider \<Rightarrow> string \<Rightarrow> provider_version option" where
  "served_version p name = find (\<lambda>v. pvn_name v = name \<and> pvn_served v) (prov_versions p)"

definition supports_record_type :: "provider_version option \<Rightarrow> record_type \<Rightarrow> bool" where
  "supports_record_type v ty = (case v of None \<Rightarrow> False | Some pv \<Rightarrow> ty \<in> set (prs_types (pvn_record_set pv)))"

section \<open>JSON values and schemas\<close>

text \<open>
  A decoded value: a map is an association list (its order is not observable, the encoder sorts
  the keys). Of a schema the code itself reads the default, the properties and the items.
\<close>

datatype json = JNull | JBool bool | JNum string | JStr string | JArr "json list" | JObj "(string \<times> json) list"

datatype schema = Schema (sc_default: "raw option") (sc_properties: "(string \<times> schema) list") (sc_items: "schema option")

record ('ctx) contract_env =
  pc_unmarshal :: "raw \<Rightarrow> string + json"
  pc_marshal :: "json \<Rightarrow> string + raw"
  pc_schema :: "raw \<Rightarrow> string + schema"
  pc_validator :: "raw \<Rightarrow> string + (json \<Rightarrow> string option)"
  pc_cel :: "string \<Rightarrow> json \<Rightarrow> target \<Rightarrow> provider \<Rightarrow> provider_version \<Rightarrow> provider_version \<Rightarrow> 'ctx
    \<Rightarrow> string + (string \<times> json) list"

definition default_value :: "('c, 'a) contract_env_scheme \<Rightarrow> schema \<Rightarrow> json option" where
  "default_value env s =
     (case sc_default s of None \<Rightarrow> None
      | Some r \<Rightarrow> if r = [] then None else (case pc_unmarshal env r of Inl _ \<Rightarrow> None | Inr v \<Rightarrow> Some v))"

fun has_default :: "schema \<Rightarrow> bool" where
  "has_default (Schema d ps it) \<longleftrightarrow>
     (case d of None \<Rightarrow> False | Some r \<Rightarrow> r \<noteq> [])
   \<or> (\<exists>p \<in> set ps. has_default (snd p))
   \<or> (case it of None \<Rightarrow> False | Some s \<Rightarrow> has_default s)"

fun apply_defaults :: "('c, 'a) contract_env_scheme \<Rightarrow> json \<Rightarrow> schema \<Rightarrow> json" where
  "apply_defaults env v (Schema d ps it) =
     (case v of
        JNull \<Rightarrow> (case default_value env (Schema d ps it) of None \<Rightarrow> JNull | Some dv \<Rightarrow> dv)
      | JObj kvs \<Rightarrow>
          JObj (fold (\<lambda>p m. case map_of m (fst p) of
                  Some current \<Rightarrow> map_put m (fst p) (apply_defaults env current (snd p))
                | None \<Rightarrow> (case default_value env (snd p) of None \<Rightarrow> m | Some dv \<Rightarrow> map_put m (fst p) dv)) ps kvs)
      | JArr vs \<Rightarrow> (case it of None \<Rightarrow> v | Some s \<Rightarrow> JArr (map (\<lambda>x. apply_defaults env x s) vs))
      | _ \<Rightarrow> v)"

text \<open>An absent payload is replaced by the schema's default, or by an empty object with defaults inside.\<close>

definition raw_to_default :: "raw \<Rightarrow> schema \<Rightarrow> raw option" where
  "raw_to_default value s =
     (if value \<noteq> [] then Some value
      else (case sc_default s of
          Some r \<Rightarrow> if r \<noteq> [] then Some r else if has_default s then Some ''{}'' else None
        | None \<Rightarrow> if has_default s then Some ''{}'' else None))"

definition default_raw :: "('c, 'a) contract_env_scheme \<Rightarrow> raw \<Rightarrow> raw option \<Rightarrow> string \<Rightarrow> string + raw" where
  "default_raw env value sch path =
     (case sch of None \<Rightarrow> Inr value
      | Some bytes \<Rightarrow>
        if bytes = [] then Inr value
        else (case pc_schema env bytes of
            Inl e \<Rightarrow> Inl (path @ '' schema is invalid: '' @ e)
          | Inr s \<Rightarrow>
            (case raw_to_default value s of
               None \<Rightarrow> Inr value
             | Some r \<Rightarrow>
               (case pc_unmarshal env r of
                  Inl e \<Rightarrow> Inl (path @ '' must be valid JSON: '' @ e)
                | Inr v \<Rightarrow>
                  (case pc_marshal env (apply_defaults env v s) of
                     Inl e \<Rightarrow> Inl (path @ '' defaults could not be encoded: '' @ e)
                   | Inr out \<Rightarrow> if out = ''null'' then Inr [] else Inr out)))))"

definition default_payload :: "('c, 'a) contract_env_scheme \<Rightarrow> payload \<Rightarrow> provider_version \<Rightarrow> target \<Rightarrow> string + payload" where
  "default_payload env p v t =
     (case t of
        TargetZoneClass \<Rightarrow>
          (case default_raw env (pl_parameters p) (pzc_parameters (pvn_zone_class v)) ''parameters'' of
             Inl e \<Rightarrow> Inl e | Inr r \<Rightarrow> Inr (p\<lparr>pl_parameters := r\<rparr>))
      | TargetZone \<Rightarrow>
          (case default_raw env (pl_adoption p) (pz_adoption (pvn_zone v)) ''adoption'' of
             Inl e \<Rightarrow> Inl e | Inr r \<Rightarrow> Inr (p\<lparr>pl_adoption := r\<rparr>))
      | TargetRecordSet \<Rightarrow>
          (case default_raw env (pl_options p) (prs_options (pvn_record_set v)) ''options'' of
             Inl e \<Rightarrow> Inl e
           | Inr opts \<Rightarrow>
             (case default_raw env (pl_adoption p) (prs_adoption (pvn_record_set v)) ''adoption'' of
                Inl e \<Rightarrow> Inl e | Inr ad \<Rightarrow> Inr (p\<lparr>pl_options := opts, pl_adoption := ad\<rparr>))))"

section \<open>Validation\<close>

definition validate_raw :: "('c, 'a) contract_env_scheme \<Rightarrow> raw \<Rightarrow> raw option \<Rightarrow> string \<Rightarrow> bool \<Rightarrow> string option" where
  "validate_raw env value sch path validate_missing =
     (case sch of None \<Rightarrow> None
      | Some bytes \<Rightarrow>
        if bytes = [] then None
        else if value = [] \<and> \<not> validate_missing then None
        else (case pc_validator env bytes of
            Inl e \<Rightarrow> Some (path @ '' schema is invalid: '' @ e)
          | Inr check \<Rightarrow>
            (case pc_unmarshal env (if value = [] then ''{}'' else value) of
               Inl e \<Rightarrow> Some (path @ '' must be valid JSON: '' @ e)
             | Inr object \<Rightarrow>
               (case check object of None \<Rightarrow> None
                | Some errs \<Rightarrow> Some (path @ '' does not match provider schema: '' @ errs)))))"

definition validate_payload :: "('c, 'a) contract_env_scheme \<Rightarrow> payload \<Rightarrow> provider_version \<Rightarrow> target \<Rightarrow> bool \<Rightarrow> string option" where
  "validate_payload env p v t missing =
     (case t of
        TargetZoneClass \<Rightarrow> validate_raw env (pl_parameters p) (pzc_parameters (pvn_zone_class v)) ''parameters'' missing
      | TargetZone \<Rightarrow> validate_raw env (pl_adoption p) (pz_adoption (pvn_zone v)) ''adoption'' missing
      | TargetRecordSet \<Rightarrow>
          (case validate_raw env (pl_options p) (prs_options (pvn_record_set v)) ''options'' missing of
             Some e \<Rightarrow> Some e
           | None \<Rightarrow> validate_raw env (pl_adoption p) (prs_adoption (pvn_record_set v)) ''adoption'' missing))"

section \<open>The conversion webhook\<close>

record review_request =
  rq_uid :: string
  rq_provider :: string
  rq_target :: target
  rq_from :: string
  rq_to :: string
  rq_payload :: "(string \<times> raw) list"

record review_result =
  rr_status :: string
  rr_reason :: string
  rr_message :: string
  rr_retryable :: bool

record review_response =
  rp_uid :: string
  rp_result :: review_result

record review =
  rv_api_version :: string
  rv_kind :: string
  rv_response :: "review_response option"
  rv_payload :: "(string \<times> raw) list"

text \<open>
  The outcome of the exchange up to the decoded body: failures in the order in which the code
  meets them, then the status code and the body.
\<close>

datatype http_outcome =
    Encode_Error string
  | Bad_Bundle
  | Request_Error string
  | Send_Error bool string
  | Read_Error string
  | Http_Reply int "string + review"

record ('ctx) webhook_env = "'ctx contract_env" +
  wh_uid :: string
  wh_post :: "string \<Rightarrow> string \<Rightarrow> int \<Rightarrow> review_request \<Rightarrow> 'ctx \<Rightarrow> http_outcome"
  wh_decimal :: "int \<Rightarrow> string"

definition webhook_url :: "(int \<Rightarrow> string) \<Rightarrow> conversion_webhook \<Rightarrow> string" where
  "webhook_url show w =
     (let s = cw_service w; path = (if wsv_path s = [] then ''/convert'' else wsv_path s);
          port = (case wsv_port s of None \<Rightarrow> 443 | Some p \<Rightarrow> p)
      in ''https://'' @ wsv_name s @ ''.'' @ wsv_namespace s @ ''.svc:'' @ show port @ path)"

definition webhook_timeout :: "conversion_webhook \<Rightarrow> int" where
  "webhook_timeout w = (case cw_timeout w of None \<Rightarrow> 10 | Some t \<Rightarrow> t)"

definition payload_to_map :: "payload \<Rightarrow> target \<Rightarrow> (string \<times> raw) list" where
  "payload_to_map p t =
     (case t of
        TargetZoneClass \<Rightarrow> (if pl_parameters p \<noteq> [] then [(''parameters'', pl_parameters p)] else [])
      | TargetZone \<Rightarrow> (if pl_adoption p \<noteq> [] then [(''adoption'', pl_adoption p)] else [])
      | TargetRecordSet \<Rightarrow> (if pl_options p \<noteq> [] then [(''options'', pl_options p)] else [])
          @ (if pl_adoption p \<noteq> [] then [(''adoption'', pl_adoption p)] else []))"

definition map_to_payload :: "(string \<times> raw) list \<Rightarrow> payload" where
  "map_to_payload m = \<lparr>pl_parameters = label_value m ''parameters'', pl_adoption = label_value m ''adoption'',
     pl_options = label_value m ''options''\<rparr>"

definition review_outcome :: "string \<Rightarrow> review \<Rightarrow> payload_error + payload" where
  "review_outcome uid rv =
     (if rv_api_version rv \<noteq> ''dns.appthrust.io/v1alpha1'' \<or> rv_kind rv \<noteq> ''ProviderConversionReview''
      then Inl (payload_error_of ConversionRejected ''provider conversion webhook response kind is unsupported'')
      else (case rv_response rv of
        None \<Rightarrow> Inl (payload_error_of ConversionRejected ''provider conversion webhook response kind is unsupported'')
      | Some resp \<Rightarrow>
        if rp_uid resp \<noteq> uid
        then Inl (payload_error_of ConversionRejected ''provider conversion webhook response uid does not match request uid'')
        else
          let res = rp_result resp in
          if rr_status res = ''Success'' then
            (if rv_payload rv = []
             then Inl (payload_error_of ConversionRejected ''provider conversion webhook success response requires payload'')
             else Inr (map_to_payload (rv_payload rv)))
          else if rr_status res = ''Failure'' then
            (let m1 = (if rr_message res = [] then rr_reason res else rr_message res);
                 m2 = (if m1 = [] then ''provider conversion webhook returned failure'' else m1)
             in Inl (payload_error_of (if rr_retryable res then ConversionWebhookUnavailable else ConversionRejected) m2))
          else Inl (payload_error_of ConversionRejected ''provider conversion webhook result.status must be Success or Failure'')))"

definition call_webhook :: "('c, 'a) webhook_env_scheme \<Rightarrow> string \<Rightarrow> target \<Rightarrow> provider_version \<Rightarrow> provider_version
    \<Rightarrow> payload \<Rightarrow> 'c \<Rightarrow> conversion_webhook \<Rightarrow> payload_error + payload" where
  "call_webhook env prov t from_v to_v p ctx w =
     (let req = \<lparr>rq_uid = wh_uid env, rq_provider = prov, rq_target = t, rq_from = pvn_name from_v,
                 rq_to = pvn_name to_v, rq_payload = payload_to_map p t\<rparr> in
      (case wh_post env (webhook_url (wh_decimal env) w) (cw_ca_bundle w) (webhook_timeout w) req ctx of
         Encode_Error e \<Rightarrow> Inl (payload_error_of ConversionRejected e)
       | Bad_Bundle \<Rightarrow> Inl (payload_error_of ConversionWebhookUnavailable
            ''provider conversion webhook caBundle does not contain a PEM certificate'')
       | Request_Error e \<Rightarrow> Inl (payload_error_of ConversionRejected e)
       | Send_Error deadline e \<Rightarrow>
           Inl (payload_error_of (if deadline then ConversionWebhookTimeout else ConversionWebhookUnavailable) e)
       | Read_Error e \<Rightarrow> Inl (payload_error_of ConversionWebhookUnavailable e)
       | Http_Reply code body \<Rightarrow>
         if 500 \<le> code then Inl (payload_error_of ConversionWebhookUnavailable
              (''provider conversion webhook returned HTTP '' @ wh_decimal env code))
         else if code < 200 \<or> 300 \<le> code then Inl (payload_error_of ConversionRejected
              (''provider conversion webhook returned HTTP '' @ wh_decimal env code))
         else (case body of
             Inl e \<Rightarrow> Inl (payload_error_of ConversionRejected
               (''provider conversion webhook response is malformed: '' @ e))
           | Inr rv \<Rightarrow> review_outcome (wh_uid env) rv)))"

section \<open>Conversion by CEL\<close>

definition raw_to_object :: "('c, 'a) webhook_env_scheme \<Rightarrow> raw \<Rightarrow> string + json" where
  "raw_to_object env value = pc_unmarshal env (if value = [] then ''{}'' else value)"

definition payload_to_object :: "('c, 'a) webhook_env_scheme \<Rightarrow> payload \<Rightarrow> target \<Rightarrow> string + (string \<times> json) list" where
  "payload_to_object env p t =
     (case t of
        TargetZoneClass \<Rightarrow> (case raw_to_object env (pl_parameters p) of
            Inl e \<Rightarrow> Inl (''parameters must be valid JSON: '' @ e) | Inr v \<Rightarrow> Inr [(''parameters'', v)])
      | TargetZone \<Rightarrow> (case raw_to_object env (pl_adoption p) of
            Inl e \<Rightarrow> Inl (''adoption must be valid JSON: '' @ e) | Inr v \<Rightarrow> Inr [(''adoption'', v)])
      | TargetRecordSet \<Rightarrow> (case raw_to_object env (pl_options p) of
            Inl e \<Rightarrow> Inl (''options must be valid JSON: '' @ e)
          | Inr opts \<Rightarrow> (case raw_to_object env (pl_adoption p) of
              Inl e \<Rightarrow> Inl (''adoption must be valid JSON: '' @ e)
            | Inr ad \<Rightarrow> Inr [(''options'', opts), (''adoption'', ad)])))"

definition object_field :: "('c, 'a) webhook_env_scheme \<Rightarrow> (string \<times> json) list \<Rightarrow> string \<Rightarrow> string + raw" where
  "object_field env object field =
     (case map_of object field of None \<Rightarrow> Inr []
      | Some v \<Rightarrow> if v = JNull then Inr []
        else (case pc_marshal env v of
            Inl e \<Rightarrow> Inl (field @ '' could not be encoded: '' @ e)
          | Inr r \<Rightarrow> if r = ''null'' then Inr [] else Inr r))"

definition object_to_payload :: "('c, 'a) webhook_env_scheme \<Rightarrow> (string \<times> json) list \<Rightarrow> target \<Rightarrow> string + payload" where
  "object_to_payload env object t =
     (case t of
        TargetZoneClass \<Rightarrow> (case object_field env object ''parameters'' of
            Inl e \<Rightarrow> Inl e | Inr r \<Rightarrow> Inr (empty_payload\<lparr>pl_parameters := r\<rparr>))
      | TargetZone \<Rightarrow> (case object_field env object ''adoption'' of
            Inl e \<Rightarrow> Inl e | Inr r \<Rightarrow> Inr (empty_payload\<lparr>pl_adoption := r\<rparr>))
      | TargetRecordSet \<Rightarrow> (case object_field env object ''options'' of
            Inl e \<Rightarrow> Inl e
          | Inr opts \<Rightarrow> (case object_field env object ''adoption'' of
              Inl e \<Rightarrow> Inl e | Inr ad \<Rightarrow> Inr (empty_payload\<lparr>pl_options := opts, pl_adoption := ad\<rparr>))))"

definition conversion_for :: "provider_version \<Rightarrow> target \<Rightarrow> provider_conversion" where
  "conversion_for v t = (case t of TargetZoneClass \<Rightarrow> pzc_conversion (pvn_zone_class v)
     | TargetZone \<Rightarrow> pz_conversion (pvn_zone v) | TargetRecordSet \<Rightarrow> prs_conversion (pvn_record_set v))"

record ('ctx) conversion_input =
  ci_provider :: "provider option"
  ci_target :: target
  ci_from :: "provider_version option"
  ci_to :: "provider_version option"
  ci_payload :: payload
  ci_context :: 'ctx

definition convert_cel :: "('c, 'a) webhook_env_scheme \<Rightarrow> target \<Rightarrow> provider \<Rightarrow> provider_version \<Rightarrow> provider_version
    \<Rightarrow> payload \<Rightarrow> 'c \<Rightarrow> string + payload" where
  "convert_cel env t prov from_v to_v p ctx =
     (case payload_to_object env p t of Inl e \<Rightarrow> Inl e
      | Inr self \<Rightarrow>
        (case pc_cel env (cv_cel (conversion_for from_v t)) (JObj self) t prov from_v to_v ctx of
           Inl e \<Rightarrow> Inl e | Inr object \<Rightarrow> object_to_payload env object t))"

section \<open>Conversion to the storage version\<close>

text \<open>The converted payload is defaulted and validated against the storage version.\<close>

definition to_storage :: "('c, 'a) webhook_env_scheme \<Rightarrow> payload \<Rightarrow> provider_version \<Rightarrow> target \<Rightarrow> payload_error + payload" where
  "to_storage env p to_v t =
     (case default_payload env p to_v t of
        Inl e \<Rightarrow> Inl (payload_error_of ConversionRejected e)
      | Inr stored \<Rightarrow>
        (case validate_payload env stored to_v t False of
           Some e \<Rightarrow> Inl (payload_error_of ConversionRejected (''converted payload does not match storage schema: '' @ e))
         | None \<Rightarrow> Inr stored))"

definition convert_payload :: "('c, 'a) webhook_env_scheme \<Rightarrow> 'c conversion_input \<Rightarrow> payload_error + payload" where
  "convert_payload env i =
     (case (ci_provider i, ci_from i, ci_to i) of
        (Some prov, Some from_v, Some to_v) \<Rightarrow>
          (let t = ci_target i in
           (case default_payload env (ci_payload i) from_v t of
              Inl e \<Rightarrow> Inl (payload_error_of SchemaViolation e)
            | Inr p \<Rightarrow>
              (case validate_payload env p from_v t False of
                 Some e \<Rightarrow> Inl (payload_error_of SchemaViolation e)
               | None \<Rightarrow>
                 if pvn_name from_v = pvn_name to_v then Inr p
                 else if \<not> blank (cv_cel (conversion_for from_v t)) then
                   (case convert_cel env t prov from_v to_v p (ci_context i) of
                      Inl e \<Rightarrow> Inl (payload_error_of ConversionRejected e)
                    | Inr converted \<Rightarrow> to_storage env converted to_v t)
                 else (case cv_webhook (conversion_for from_v t) of
                     Some w \<Rightarrow>
                       (case call_webhook env (prov_name prov) t from_v to_v p (ci_context i) w of
                          Inl e \<Rightarrow> Inl e
                        | Inr converted \<Rightarrow> to_storage env converted to_v t)
                   | None \<Rightarrow> Inl (payload_error_of ConversionRejected (''provider version '' @ pvn_name from_v
                       @ '' does not define conversion to '' @ pvn_name to_v))))))
      | _ \<Rightarrow> Inl (payload_error_of ProviderContractNotReady ''provider contract version is not resolved''))"

definition convert_zone_class_parameters :: "('c, 'a) webhook_env_scheme \<Rightarrow> provider option \<Rightarrow> provider_version option
    \<Rightarrow> raw \<Rightarrow> 'c \<Rightarrow> payload_error + raw" where
  "convert_zone_class_parameters env prov v params ctx =
     (case storage_version prov of
        None \<Rightarrow> Inl (payload_error_of ProviderContractNotReady ''provider storage version is not resolved'')
      | Some to_v \<Rightarrow>
        (case convert_payload env \<lparr>ci_provider = prov, ci_target = TargetZoneClass, ci_from = v, ci_to = Some to_v,
                ci_payload = empty_payload\<lparr>pl_parameters := params\<rparr>, ci_context = ctx\<rparr> of
           Inl e \<Rightarrow> Inl e | Inr p \<Rightarrow> Inr (pl_parameters p)))"

section \<open>Defaulting only adds\<close>

text \<open>
  What defaulting promises: a value that is not null keeps its shape; an object keeps every key,
  with its value at most extended; an array is extended element by element.
\<close>

inductive extends :: "json \<Rightarrow> json \<Rightarrow> bool" where
  null: "extends JNull w"
| scalar: "extends v v"
| obj: "(\<And>k v. map_of kvs k = Some v \<Longrightarrow> \<exists>w. map_of kws k = Some w \<and> extends v w) \<Longrightarrow> extends (JObj kvs) (JObj kws)"
| arr: "list_all2 extends vs ws \<Longrightarrow> extends (JArr vs) (JArr ws)"

text \<open>One step of the loop over the properties keeps the object extended.\<close>

definition object_extends :: "(string \<times> json) list \<Rightarrow> (string \<times> json) list \<Rightarrow> bool" where
  "object_extends kvs kws \<longleftrightarrow> (\<forall>k v. map_of kvs k = Some v \<longrightarrow> (\<exists>w. map_of kws k = Some w \<and> extends v w))"

lemma extends_JObj: "object_extends kvs kws \<Longrightarrow> extends (JObj kvs) (JObj kws)"
  by (rule extends.obj) (simp add: object_extends_def)

lemma extends_trans: "extends u v \<Longrightarrow> extends v w \<Longrightarrow> extends u w"
proof (induction arbitrary: w rule: extends.induct)
  case (obj kvs kws)
  from \<open>extends (JObj kws) w\<close> show ?case
  proof cases
    case scalar
    have "extends (JObj kvs) (JObj kws)" by (rule extends.obj) (use obj.IH in blast)
    with scalar show ?thesis by simp
  next
    case (obj kxs)
    show ?thesis unfolding obj(1)
    proof (rule extends.obj)
      fix k v assume "map_of kvs k = Some v"
      then obtain v' where v': "map_of kws k = Some v'" "\<And>w. extends v' w \<Longrightarrow> extends v w"
        using obj.IH by blast
      then obtain w' where "map_of kxs k = Some w'" "extends v' w'" using obj(2) by blast
      with v' show "\<exists>w. map_of kxs k = Some w \<and> extends v w" by blast
    qed
  qed
next
  case (arr vs ws)
  from \<open>extends (JArr ws) w\<close> show ?case
  proof cases
    case scalar
    have "list_all2 extends vs ws" using arr.IH by (auto elim!: list_all2_mono)
    then show ?thesis using scalar by (auto intro: extends.arr)
  next
    case (arr xs)
    have "list_all2 extends vs xs"
      by (rule list_all2_trans [OF _ arr.IH arr(2)]) blast
    then show ?thesis using arr by (auto intro: extends.arr)
  qed
qed (auto intro: extends.intros)

lemma object_extends_put:
  assumes "object_extends kvs m" and "\<And>v. map_of m k = Some v \<Longrightarrow> extends v w"
  shows "object_extends kvs (map_put m k w)"
  using assms unfolding object_extends_def by (auto dest: extends_trans)

lemma apply_defaults_extends: "extends v (apply_defaults env v s)"
proof (induction env v s rule: apply_defaults.induct)
  case (1 env v d ps it)
  show ?case
  proof (cases v)
    case (JArr vs)
    then show ?thesis
      by (cases it) (auto simp: list_all2_map2 list_all2_same intro!: extends.arr intro: extends.scalar 1(1) [OF JArr])
  next
    case (JObj kvs)
    let ?f = "\<lambda>p m. case map_of m (fst p) of
                  Some current \<Rightarrow> map_put m (fst p) (apply_defaults env current (snd p))
                | None \<Rightarrow> (case default_value env (snd p) of None \<Rightarrow> m | Some dv \<Rightarrow> map_put m (fst p) dv)"
    have ih: "p \<in> set ps \<Longrightarrow> map_of m (fst p) = Some x \<Longrightarrow> extends x (apply_defaults env x (snd p))" for p m x
      by (rule 1(2) [OF JObj])
    have step: "object_extends kvs m \<Longrightarrow> p \<in> set ps \<Longrightarrow> object_extends kvs (?f p m)" for p m
      by (auto split: option.splits intro!: object_extends_put intro: ih)
    have "object_extends kvs m \<Longrightarrow> set qs \<subseteq> set ps \<Longrightarrow> object_extends kvs (fold ?f qs m)" for qs m
      using step by (induction qs arbitrary: m) auto
    from this [of kvs ps] have "object_extends kvs (fold ?f ps kvs)"
      by (auto simp: object_extends_def intro: extends.scalar)
    then show ?thesis using JObj by (simp add: extends_JObj)
  qed (auto intro: extends.intros)
qed

lemma to_storage_validated:
  "to_storage env p v t = Inr q \<Longrightarrow> validate_payload env q v t False = None"
  by (auto simp: to_storage_def split: sum.splits option.splits)

lemma to_storage_rejected:
  "to_storage env p v t = Inl e \<Longrightarrow> pe_kind e = ConversionRejected"
  by (auto simp: to_storage_def payload_error_of_def split: sum.splits option.splits)

section \<open>Properties\<close>

text \<open>
  C30. A payload is only ever handed on after validation: what a successful conversion returns
  satisfies the schema of the version it is for, the storage version, or the equally named
  version it came from.
\<close>

theorem convert_payload_validated:
  assumes "convert_payload env i = Inr p"
  shows "\<exists>from_v to_v. ci_from i = Some from_v \<and> ci_to i = Some to_v
     \<and> validate_payload env p (if pvn_name from_v = pvn_name to_v then from_v else to_v) (ci_target i) False = None"
  using assms
  by (auto simp: convert_payload_def Let_def split: option.splits sum.splits if_splits dest: to_storage_validated)

text \<open>
  Defaulting only adds: every value of the given payload that is not null survives, an object
  keeps all its keys and an array all its elements, at every depth.
\<close>

theorem defaults_extend: "extends v (apply_defaults env v s)"
  by (rule apply_defaults_extends)


text \<open>
  The payload of a target survives the way to the webhook's map and back; the fields of other
  targets are not sent.
\<close>

theorem payload_map_roundtrip:
  "map_to_payload (payload_to_map p t) = (case t of
     TargetZoneClass \<Rightarrow> empty_payload\<lparr>pl_parameters := pl_parameters p\<rparr>
   | TargetZone \<Rightarrow> empty_payload\<lparr>pl_adoption := pl_adoption p\<rparr>
   | TargetRecordSet \<Rightarrow> empty_payload\<lparr>pl_options := pl_options p, pl_adoption := pl_adoption p\<rparr>)"
  by (cases t) (auto simp: map_to_payload_def payload_to_map_def empty_payload_def label_value_def)

section \<open>An example\<close>

text \<open>A record set whose provider has one version without schemas, served and stored.\<close>

definition demo_version :: provider_version where
  "demo_version = (let conv = \<lparr>cv_cel = [], cv_webhook = None\<rparr> in
     \<lparr>pvn_name = ''v1'', pvn_served = True, pvn_storage = True, pvn_identity = None,
      pvn_zone_class = \<lparr>pzc_parameters = None, pzc_rules = [], pzc_conversion = conv\<rparr>,
      pvn_zone = \<lparr>pz_adoption = None, pz_status_data = None, pz_reasons = [], pz_rules = [], pz_conversion = conv\<rparr>,
      pvn_record_set = \<lparr>prs_types = [''A'', ''AAAA'', ''CNAME'', ''TXT''], prs_options = None, prs_adoption = None,
        prs_status_data = None, prs_rules = [], prs_reasons = [], prs_disabled = [], prs_conversion = conv\<rparr>,
      pvn_withdrawal = Some \<lparr>pw_supported = True, pw_status_data = None, pw_reasons = []\<rparr>,
      pvn_unit = \<lparr>pu_disabled = [], pu_rules = []\<rparr>\<rparr>)"

definition demo_provider :: provider where
  "demo_provider = \<lparr>prov_name = ''p'', prov_uid = ''p-uid'', prov_versions = [demo_version]\<rparr>"

definition demo_contract_env :: "unit webhook_env" where
  "demo_contract_env = \<lparr>pc_unmarshal = (\<lambda>r. Inr (JStr r)), pc_marshal = (\<lambda>v. Inr ''x''), pc_schema = (\<lambda>_. Inr (Schema None [] None)),
     pc_validator = (\<lambda>_. Inr (\<lambda>_. None)), pc_cel = (\<lambda>_ _ _ _ _ _ _. Inl []), wh_uid = ''u'',
     wh_post = (\<lambda>_ _ _ _ _. Bad_Bundle), wh_decimal = (\<lambda>_. [])\<rparr>"

definition demo_conversion :: "provider_version option \<Rightarrow> unit conversion_input" where
  "demo_conversion v = \<lparr>ci_provider = Some demo_provider, ci_target = TargetRecordSet, ci_from = v, ci_to = Some demo_version,
     ci_payload = empty_payload\<lparr>pl_options := ''o''\<rparr>, ci_context = ()\<rparr>"

theorem convert_payload_validated_witness:
  "validate_payload demo_contract_env (empty_payload\<lparr>pl_options := ''o''\<rparr>) demo_version TargetRecordSet False = None"
proof -
  have "convert_payload demo_contract_env (demo_conversion (Some demo_version)) = Inr (empty_payload\<lparr>pl_options := ''o''\<rparr>)"
    by (simp add: convert_payload_def demo_conversion_def default_payload_def default_raw_def validate_payload_def
        validate_raw_def demo_version_def empty_payload_def Let_def)
  from convert_payload_validated [OF this] show ?thesis by (simp add: demo_conversion_def)
qed


end
