(* ===== verification/Core_Composition.thy ===== *)
theory Core_Composition
  imports Core_Declaration Provider_Contract "HOL-Library.Product_Lexorder" "HOL-Library.Multiset"
begin

text \<open>
  \<open>internal/go/core/controllers/zoneunit\<close>: how a zone and its record sets become the
  items of the zone unit (\<open>zoneunit_controller.go\<close>, \<open>zoneunit_watches.go\<close>,
  \<open>zoneunit_lifecycle.go\<close>). Reads have been done, writes are a list of actions in the
  order in which the code performs them. CEL, the unstructured conversion of objects and the
  lookup of a condition are parameters.
\<close>

section \<open>Keys and identities\<close>

definition claim_key :: "string \<Rightarrow> string \<Rightarrow> string" where
  "claim_key ns name = ns @ [CHR 0x00] @ name"

definition item_key :: "unit_record_set \<Rightarrow> string" where
  "item_key i = claim_key (ur_namespace i) (ur_name i)"

definition status_key :: "unit_record_set_status \<Rightarrow> string" where
  "status_key s = claim_key (us_namespace s) (us_name s)"

definition set_key :: "record_set \<Rightarrow> string" where
  "set_key r = claim_key (om_namespace (rset_meta r)) (om_name (rset_meta r))"

definition ref_namespace :: "string \<Rightarrow> zone_reference \<Rightarrow> string" where
  "ref_namespace own r = (case zr_namespace r of Some n \<Rightarrow> if n \<noteq> [] then n else own | None \<Rightarrow> own)"

definition record_set_zone_key :: "record_set \<Rightarrow> string \<times> string" where
  "record_set_zone_key r = (ref_namespace (om_namespace (rset_meta r)) (rs_zone_ref (rset_spec r)), zr_name (rs_zone_ref (rset_spec r)))"

definition uids_match :: "uid \<Rightarrow> uid \<Rightarrow> bool" where
  "uids_match a b \<longleftrightarrow> a \<noteq> [] \<and> b \<noteq> [] \<and> a = b"

definition item_matches :: "unit_record_set \<Rightarrow> record_set \<Rightarrow> bool" where
  "item_matches i r \<longleftrightarrow> uids_match (ur_uid i) (om_uid (rset_meta r))"

definition pending_predecessor :: "unit_record_set \<Rightarrow> record_set \<Rightarrow> bool" where
  "pending_predecessor i r \<longleftrightarrow> ur_deletion i \<and> ur_uid i \<noteq> [] \<and> om_uid (rset_meta r) \<noteq> [] \<and> ur_uid i \<noteq> om_uid (rset_meta r)"

text \<open>A Go map filled by a loop: the last entry of a key wins.\<close>

definition by_key :: "('a \<Rightarrow> string) \<Rightarrow> 'a list \<Rightarrow> string \<Rightarrow> 'a option" where
  "by_key key xs k = map_of (rev (map (\<lambda>x. (key x, x)) xs)) k"

type_synonym statuses = "string \<Rightarrow> unit_record_set_status option"

definition deletion_completed :: "statuses \<Rightarrow> string \<Rightarrow> uid \<Rightarrow> bool" where
  "deletion_completed st k uid \<longleftrightarrow>
     (case st k of None \<Rightarrow> False | Some s \<Rightarrow> us_deletion_completed s \<and> uids_match (us_uid s) uid)"

definition spec_equal :: "unit_record_set \<Rightarrow> unit_record_set \<Rightarrow> bool" where
  "spec_equal a b \<longleftrightarrow> a\<lparr>ur_observed := ur_observed b, ur_allowed := ur_allowed b\<rparr> = b"

section \<open>Record sets of a zone\<close>

text \<open>The order of claims: creation time, then namespace, then name.\<close>

definition record_sets_for_zone :: "record_set list \<Rightarrow> string \<times> string \<Rightarrow> record_set list" where
  "record_sets_for_zone all key =
     sort_key (\<lambda>r. (om_creation (rset_meta r), om_namespace (rset_meta r), om_name (rset_meta r)))
       (filter (\<lambda>r. record_set_zone_key r = key) all)"

record rejected =
  rj_set :: record_set
  rj_status :: condition_status
  rj_reason :: string
  rj_message :: string

definition sets_allowed_by_zone :: "decl_env \<Rightarrow> zone_res \<Rightarrow> record_set list \<Rightarrow> record_set list \<times> rejected list" where
  "sets_allowed_by_zone env zone rs =
     (filter (\<lambda>r. fst (record_set_allowed_by_zone env r zone)) rs,
      map (\<lambda>r. \<lparr>rj_set = r, rj_status = ConditionFalse, rj_reason = ''NotAllowedByZone'',
                 rj_message = snd (record_set_allowed_by_zone env r zone)\<rparr>)
        (filter (\<lambda>r. \<not> fst (record_set_allowed_by_zone env r zone)) rs))"

definition sets_matching_provider :: "provider_reference \<Rightarrow> record_set list \<Rightarrow> record_set list \<times> rejected list" where
  "sets_matching_provider ref rs =
     (filter (\<lambda>r. rs_provider (rset_spec r) = ref) rs,
      map (\<lambda>r. \<lparr>rj_set = r, rj_status = ConditionFalse, rj_reason = ''ProviderMismatch'',
                 rj_message = ''RecordSet provider does not match referenced ZoneClass''\<rparr>)
        (filter (\<lambda>r. rs_provider (rset_spec r) \<noteq> ref) rs))"

text \<open>Why a provider does not support a record set, if it does not.\<close>

definition unsupported :: "provider \<Rightarrow> record_set \<Rightarrow> rejected option" where
  "unsupported prov r =
     (case served_version prov (pr_version (rs_provider (rset_spec r))) of
        None \<Rightarrow> Some \<lparr>rj_set = r, rj_status = ConditionUnknown, rj_reason = ''ProviderStorageVersionNotResolved'',
                       rj_message = ''RecordSet provider version is not served by the provider''\<rparr>
      | Some v \<Rightarrow>
        if \<not> supports_record_type (Some v) (rs_type (rset_spec r))
        then Some \<lparr>rj_set = r, rj_status = ConditionFalse, rj_reason = ''InvalidProvider'',
                    rj_message = ''RecordSet type is not supported by the provider''\<rparr>
        else None)"

definition sets_supported :: "provider \<Rightarrow> record_set list \<Rightarrow> record_set list \<times> rejected list" where
  "sets_supported prov rs = (filter (\<lambda>r. unsupported prov r = None) rs, List.map_filter (unsupported prov) rs)"

section \<open>Conflicts\<close>

text \<open>What a rule of the unit sees of an item.\<close>

record cel_item =
  ci_namespace :: string
  ci_set_name :: string
  ci_observed :: int
  ci_name :: string
  ci_type :: string

definition cel_environment :: "unit_record_set \<Rightarrow> cel_item" where
  "cel_environment i = \<lparr>ci_namespace = ur_namespace i, ci_set_name = ur_name i, ci_observed = ur_observed i,
     ci_name = ur_owner i, ci_type = ur_type i\<rparr>"

record ('ctx) core_env =
  co_decl :: decl_env
  co_contract :: "'ctx webhook_env"
  co_zone_context :: "zone_res \<Rightarrow> 'ctx"
  co_set_context :: "zone_res \<Rightarrow> record_set \<Rightarrow> 'ctx"
  co_cel :: "string \<Rightarrow> cel_item \<Rightarrow> cel_item \<Rightarrow> zone_res \<Rightarrow> provider \<Rightarrow> provider_version \<Rightarrow> bool option"
  co_find_condition :: "condition list \<Rightarrow> string \<Rightarrow> condition option"
  co_set_condition :: "condition list \<Rightarrow> condition \<Rightarrow> condition list"

definition cname_coexists :: "'c core_env \<Rightarrow> zone_res \<Rightarrow> provider \<Rightarrow> provider_version \<Rightarrow> unit_record_set \<Rightarrow> unit_record_set \<Rightarrow> bool" where
  "cname_coexists env zone prov v self other \<longleftrightarrow>
     (\<exists>t \<in> set (pu_disabled (pvn_unit v)). vt_name t = ''forbid-cname-coexistence''
        \<and> co_cel env (vt_when t) (cel_environment self) (cel_environment other) zone prov v = Some True)"

definition items_conflict :: "'c core_env \<Rightarrow> zone_res \<Rightarrow> provider \<Rightarrow> provider_version \<Rightarrow> unit_record_set \<Rightarrow> unit_record_set \<Rightarrow> bool" where
  "items_conflict env zone prov v self other \<longleftrightarrow>
     ur_owner self = ur_owner other \<and>
     (ur_type self = ur_type other
      \<or> (\<not> cname_coexists env zone prov v self other \<and> (ur_type self = TypeCNAME \<or> ur_type other = TypeCNAME))
      \<or> (\<exists>r \<in> set (pu_rules (pvn_unit v)).
           co_cel env (vr_rule r) (cel_environment self) (cel_environment other) zone prov v \<noteq> Some True))"

definition conflicting_owner :: "(unit_record_set \<Rightarrow> unit_record_set \<Rightarrow> bool) \<Rightarrow> unit_record_set \<Rightarrow> string
    \<Rightarrow> unit_record_set list \<Rightarrow> unit_record_set option" where
  "conflicting_owner conflict item k owners = find (\<lambda>o1. item_key o1 \<noteq> k \<and> conflict item o1) owners"

definition format_ref_key :: "string \<Rightarrow> string" where
  "format_ref_key k = (case cut (CHR 0x00) k of (ns, name, found) \<Rightarrow> if \<not> found then k else ns @ ''/'' @ name)"

definition conflict_message :: "zone_res \<Rightarrow> unit_record_set \<Rightarrow> string \<Rightarrow> string" where
  "conflict_message zone item owner_key = ''RecordSet type='' @ ur_type item @ '' name='' @ ur_owner item @ '' in Zone ''
     @ om_namespace (zone_meta zone) @ ''/'' @ om_name (zone_meta zone) @ '' conflicts with owner RecordSet ''
     @ format_ref_key owner_key @ ''.''"

definition conflict_rejection :: "zone_res \<Rightarrow> record_set \<Rightarrow> unit_record_set \<Rightarrow> string \<Rightarrow> rejected" where
  "conflict_rejection zone r item owner_key = \<lparr>rj_set = r, rj_status = ConditionFalse, rj_reason = ''RecordSetConflict'',
     rj_message = conflict_message zone item owner_key\<rparr>"

section \<open>Items\<close>

definition unit_item :: "record_set \<Rightarrow> payload \<Rightarrow> unit_record_set" where
  "unit_item r p = (let m = rset_meta r; s = rset_spec r in
     \<lparr>ur_namespace = om_namespace m, ur_name = om_name m, ur_uid = om_uid m, ur_observed = om_generation m,
      ur_owner = rs_name s, ur_type = rs_type s, ur_ttl = rs_ttl s, ur_payload = rs_payload s,
      ur_options = pl_options p, ur_adoption = pl_adoption p, ur_allowed = None, ur_deletion = deleting m\<rparr>)"

definition pending_deletion :: "statuses \<Rightarrow> record_set \<Rightarrow> bool" where
  "pending_deletion st r \<longleftrightarrow> deleting (rset_meta r) \<and> \<not> deletion_completed st (set_key r) (om_uid (rset_meta r))"

text \<open>The existing items that keep their claim on a name.\<close>

definition retained_existing :: "statuses \<Rightarrow> record_set list \<Rightarrow> unit_record_set list \<Rightarrow> unit_record_set list" where
  "retained_existing st rs existing =
     filter (\<lambda>i. \<not> (ur_deletion i \<and> deletion_completed st (item_key i) (ur_uid i))
        \<and> (case by_key set_key rs (item_key i) of None \<Rightarrow> True
           | Some r \<Rightarrow> item_matches i r \<or> (ur_deletion i \<and> ur_uid i \<noteq> []))) existing"

definition pending_predecessor_items :: "statuses \<Rightarrow> record_set list \<Rightarrow> unit_record_set list \<Rightarrow> unit_record_set list" where
  "pending_predecessor_items st rs existing =
     filter (\<lambda>i. (case by_key set_key rs (item_key i) of None \<Rightarrow> False
        | Some r \<Rightarrow> pending_predecessor i r \<and> \<not> deletion_completed st (item_key i) (ur_uid i))) existing"

definition bare_item :: "record_set \<Rightarrow> unit_record_set" where
  "bare_item r = (let m = rset_meta r; s = rset_spec r in
     \<lparr>ur_namespace = om_namespace m, ur_name = om_name m, ur_uid = om_uid m, ur_observed = om_generation m,
      ur_owner = rs_name s, ur_type = rs_type s, ur_ttl = None,
      ur_payload = \<lparr>rp_a = None, rp_aaaa = None, rp_txt = None, rp_cname = None, rp_mx = None, rp_caa = None, rp_ns = None\<rparr>,
      ur_options = [], ur_adoption = [], ur_allowed = None, ur_deletion = False\<rparr>)"

text \<open>The item that stands for a record set whose deletion is pending.\<close>

definition pending_deletion_item :: "(string \<Rightarrow> unit_record_set option) \<Rightarrow> record_set \<Rightarrow> unit_record_set" where
  "pending_deletion_item existing r =
     (case existing (set_key r) of
        Some i \<Rightarrow> if item_matches i r then i else bare_item r | None \<Rightarrow> bare_item r)"

section \<open>Accepted items\<close>

text \<open>What the controller writes, in order.\<close>

datatype action =
    Ensure_Zone_Finalizer
  | Remove_Zone_Finalizer
  | Remove_Unit_Finalizer
  | Ensure_Set_Finalizer record_set
  | Remove_Set_Finalizer record_set
  | Patch_Zone_Status zone_status
  | Patch_Set_Status record_set record_set_status
  | Create_Unit object_meta unit_spec
  | Patch_Unit object_meta unit_spec
  | Delete_Unit

record accept_state =
  as_actions :: "action list"
  as_items :: "unit_record_set list"
  as_rejected :: "rejected list"
  as_accepted :: "unit_record_set list"

definition reject :: "rejected \<Rightarrow> accept_state \<Rightarrow> accept_state" where
  "reject rj acc = acc\<lparr>as_rejected := as_rejected acc @ [rj]\<rparr>"

text \<open>The two ownership checks at the end of the loop body, and the acceptance.\<close>

definition place_free :: "(unit_record_set \<Rightarrow> unit_record_set \<Rightarrow> bool) \<Rightarrow> zone_res \<Rightarrow> unit_record_set list
    \<Rightarrow> record_set \<Rightarrow> unit_record_set \<Rightarrow> bool \<Rightarrow> accept_state \<Rightarrow> accept_state" where
  "place_free conflict zone pending r item del acc =
     (case (if del then None else conflicting_owner conflict item (set_key r) pending) of
        Some o1 \<Rightarrow> reject (conflict_rejection zone r item (item_key o1)) acc
      | None \<Rightarrow>
        (case conflicting_owner conflict item (set_key r) (as_accepted acc) of
           Some o1 \<Rightarrow> reject (conflict_rejection zone r item (item_key o1)) acc
         | None \<Rightarrow> acc\<lparr>as_items := as_items acc @ [item], as_accepted := as_accepted acc @ [item]\<rparr>))"

text \<open>The tail of the loop body, from the finalizers on.\<close>

definition place_item :: "(unit_record_set \<Rightarrow> unit_record_set \<Rightarrow> bool) \<Rightarrow> zone_res \<Rightarrow> statuses
    \<Rightarrow> (string \<Rightarrow> unit_record_set option) \<Rightarrow> unit_record_set list \<Rightarrow> record_set \<Rightarrow> unit_record_set
    \<Rightarrow> accept_state \<Rightarrow> accept_state" where
  "place_item conflict zone st existing pending r item acc =
     (let k = set_key r; del = deleting (rset_meta r); ex = existing k in
      if del \<and> deletion_completed st k (om_uid (rset_meta r))
      then acc\<lparr>as_actions := as_actions acc @ [Remove_Set_Finalizer r]\<rparr>
      else
        let acc1 = (if del then acc else acc\<lparr>as_actions := as_actions acc @ [Ensure_Set_Finalizer r]\<rparr>) in
        (case ex of
           Some e \<Rightarrow>
             if pending_predecessor e r \<or> (\<not> del \<and> \<not> spec_equal e item)
             then reject (conflict_rejection zone r item (item_key e)) acc1
             else place_free conflict zone pending r item del acc1
         | None \<Rightarrow> place_free conflict zone pending r item del acc1))"

definition accept_one :: "'c core_env \<Rightarrow> zone_res \<Rightarrow> provider \<Rightarrow> provider_version \<Rightarrow> statuses
    \<Rightarrow> (string \<Rightarrow> unit_record_set option) \<Rightarrow> unit_record_set list \<Rightarrow> record_set \<Rightarrow> accept_state \<Rightarrow> accept_state" where
  "accept_one env zone prov storage st existing pending r acc =
     (case served_version prov (pr_version (rs_provider (rset_spec r))) of
        None \<Rightarrow> reject \<lparr>rj_set = r, rj_status = ConditionUnknown, rj_reason = ''ProviderStorageVersionNotResolved'',
                    rj_message = ''RecordSet provider version is not served by the provider''\<rparr> acc
      | Some served \<Rightarrow>
        (case convert_payload (co_contract env) \<lparr>ci_provider = Some prov, ci_target = TargetRecordSet, ci_from = Some served,
                ci_to = Some storage, ci_payload = empty_payload\<lparr>pl_options := rs_options (rset_spec r),
                  pl_adoption := rs_adoption (rset_spec r)\<rparr>, ci_context = co_set_context env zone r\<rparr> of
           Inl e \<Rightarrow> (let a = error_to_acceptance (Some e) in
             reject \<lparr>rj_set = r, rj_status = ac_status a, rj_reason = ac_reason a, rj_message = ac_message a\<rparr> acc)
         | Inr p \<Rightarrow> place_item (items_conflict env zone prov storage) zone st existing pending r (unit_item r p) acc))"

definition accepted_items :: "'c core_env \<Rightarrow> zone_res \<Rightarrow> provider \<Rightarrow> provider_version \<Rightarrow> statuses
    \<Rightarrow> record_set list \<Rightarrow> unit_record_set list \<Rightarrow> accept_state" where
  "accepted_items env zone prov storage st rs existing0 =
     (let conflict = items_conflict env zone prov storage;
          existing = retained_existing st rs existing0;
          by_ref = by_key item_key existing;
          pending = map (pending_deletion_item by_ref) (filter (pending_deletion st) rs);
          kept = filter (\<lambda>i. conflicting_owner conflict i (item_key i) pending = None) existing;
          ordered = sort_key (\<lambda>r. if pending_deletion st r then 0 else (1 :: nat)) rs
      in fold (accept_one env zone prov storage st by_ref pending) ordered
           \<lparr>as_actions = [], as_items = [], as_rejected = [], as_accepted = kept\<rparr>)"

text \<open>Existing items of claims the zone no longer admits are kept, disallowed, until they are deleted.\<close>

fun retained_not_allowed :: "statuses \<Rightarrow> (string \<Rightarrow> unit_record_set option) \<Rightarrow> rejected list
    \<Rightarrow> action list \<times> unit_record_set list" where
  "retained_not_allowed st existing [] = ([], [])"
| "retained_not_allowed st existing (rj # rjs) =
     (let r = rj_set rj; k = set_key r; del = deleting (rset_meta r);
          (acts, items) = retained_not_allowed st existing rjs in
      case existing k of
        None \<Rightarrow> (acts, items)
      | Some e \<Rightarrow>
        if del \<and> deletion_completed st k (om_uid (rset_meta r)) then (Remove_Set_Finalizer r # acts, items)
        else
          let acts1 = (if del then acts else Ensure_Set_Finalizer r # acts) in
          if \<not> item_matches e r then
            if pending_predecessor e r \<and> \<not> deletion_completed st k (ur_uid e) then (acts1, items)
            else if del then (acts1, (unit_item r empty_payload)\<lparr>ur_allowed := Some False\<rparr> # items)
            else (acts1, items)
          else (acts1, e\<lparr>ur_allowed := Some False, ur_deletion := del\<rparr> # items))"

section \<open>What acceptance promises\<close>

text \<open>
  The contract of one step of the loop over the claims: the claim is let go because its deletion
  is confirmed, or it is refused with a reason, or its item is taken after it was found free of
  conflicts with every item accepted so far.
\<close>

definition conflict_free :: "(unit_record_set \<Rightarrow> unit_record_set \<Rightarrow> bool) \<Rightarrow> unit_record_set \<Rightarrow> unit_record_set list \<Rightarrow> bool" where
  "conflict_free conflict i owners \<longleftrightarrow> (\<forall>o1 \<in> set owners. item_key o1 \<noteq> item_key i \<longrightarrow> \<not> conflict i o1)"

inductive placed :: "(unit_record_set \<Rightarrow> unit_record_set \<Rightarrow> bool) \<Rightarrow> statuses \<Rightarrow> record_set \<Rightarrow> accept_state \<Rightarrow> accept_state \<Rightarrow> bool"
  for conflict st r acc where
  let_go: "deleting (rset_meta r) \<Longrightarrow> deletion_completed st (set_key r) (om_uid (rset_meta r)) \<Longrightarrow>
     placed conflict st r acc (acc\<lparr>as_actions := as_actions acc @ [Remove_Set_Finalizer r]\<rparr>)"
| refused: "rj_set rj = r \<Longrightarrow> acts = [] \<or> acts = [Ensure_Set_Finalizer r] \<and> \<not> deleting (rset_meta r) \<Longrightarrow>
     placed conflict st r acc (acc\<lparr>as_actions := as_actions acc @ acts, as_rejected := as_rejected acc @ [rj]\<rparr>)"
| taken: "item_key i = set_key r \<Longrightarrow> ur_uid i = om_uid (rset_meta r) \<Longrightarrow> ur_deletion i = deleting (rset_meta r) \<Longrightarrow>
     conflict_free conflict i (as_accepted acc) \<Longrightarrow> acts = (if deleting (rset_meta r) then [] else [Ensure_Set_Finalizer r]) \<Longrightarrow>
     placed conflict st r acc (acc\<lparr>as_actions := as_actions acc @ acts, as_items := as_items acc @ [i],
       as_accepted := as_accepted acc @ [i]\<rparr>)"



fun removed_set :: "action \<Rightarrow> record_set option" where
  "removed_set (Remove_Set_Finalizer r) = Some r"
| "removed_set _ = None"

definition removed_sets :: "action list \<Rightarrow> record_set list" where
  "removed_sets = List.map_filter removed_set"

lemma removed_sets_append [simp]: "removed_sets (xs @ ys) = removed_sets xs @ removed_sets ys"
  by (simp add: removed_sets_def List.map_filter_def)

lemma removed_sets_simps [simp]: "removed_sets [] = []" "removed_sets (Remove_Set_Finalizer r # xs) = r # removed_sets xs"
  "removed_sets (Ensure_Set_Finalizer r # xs) = removed_sets xs"
  by (simp_all add: removed_sets_def List.map_filter_def)

lemma removed_sets_iff: "r \<in> set (removed_sets acts) \<longleftrightarrow> Remove_Set_Finalizer r \<in> set acts"
  by (induction acts) (auto simp: removed_sets_def List.map_filter_def elim: removed_set.elims split: option.splits)

locale claim_placement =
  fixes conflict :: "unit_record_set \<Rightarrow> unit_record_set \<Rightarrow> bool"
    and st :: statuses
    and step :: "record_set \<Rightarrow> accept_state \<Rightarrow> accept_state"
  assumes step_placed: "placed conflict st r acc (step r acc)"
begin

lemma accounted:
  "mset (map item_key (as_items (fold step rs acc))) + mset (map (\<lambda>rj. set_key (rj_set rj)) (as_rejected (fold step rs acc)))
     + mset (map set_key (removed_sets (as_actions (fold step rs acc))))
   = mset (map item_key (as_items acc)) + mset (map (\<lambda>rj. set_key (rj_set rj)) (as_rejected acc))
     + mset (map set_key (removed_sets (as_actions acc))) + mset (map set_key rs)"
proof (induction rs arbitrary: acc)
  case (Cons r rs)
  show ?case unfolding fold_simps(2) Cons.IH using step_placed [of r acc]
    by cases auto
qed simp

lemma removals:
  assumes "\<And>q. q \<in> set (removed_sets (as_actions acc)) \<Longrightarrow> deleting (rset_meta q) \<and> deletion_completed st (set_key q) (om_uid (rset_meta q))"
    and "q \<in> set (removed_sets (as_actions (fold step rs acc)))"
  shows "deleting (rset_meta q) \<and> deletion_completed st (set_key q) (om_uid (rset_meta q))"
  using assms
proof (induction rs arbitrary: acc)
  case (Cons r rs)
  have "deleting (rset_meta q) \<and> deletion_completed st (set_key q) (om_uid (rset_meta q))"
    if "q \<in> set (removed_sets (as_actions (step r acc)))" for q
    using step_placed [of r acc] by cases (use Cons.prems(1) that in \<open>auto split: if_splits\<close>)
  from Cons.IH [OF this] Cons.prems(2) show ?case by simp
qed simp

lemma free:
  assumes "as_accepted acc = kept @ as_items acc" and "sorted_wrt (\<lambda>a b. item_key a \<noteq> item_key b \<longrightarrow> \<not> conflict b a) (as_items acc)"
    and "\<And>i. i \<in> set (as_items acc) \<Longrightarrow> conflict_free conflict i kept"
  shows "sorted_wrt (\<lambda>a b. item_key a \<noteq> item_key b \<longrightarrow> \<not> conflict b a) (as_items (fold step rs acc))
    \<and> (\<forall>i \<in> set (as_items (fold step rs acc)). conflict_free conflict i kept)"
  using assms
proof (induction rs arbitrary: acc)
  case (Cons r rs)
  from step_placed [of r acc] have "as_accepted (step r acc) = kept @ as_items (step r acc)
      \<and> sorted_wrt (\<lambda>a b. item_key a \<noteq> item_key b \<longrightarrow> \<not> conflict b a) (as_items (step r acc))
      \<and> (\<forall>i \<in> set (as_items (step r acc)). conflict_free conflict i kept)"
    by cases (use Cons.prems in \<open>auto simp: sorted_wrt_append conflict_free_def\<close>)
  with Cons.IH [of "step r acc"] show ?case by simp
qed simp

lemma never_taken:
  assumes "\<And>q acc. q \<in> set rs \<Longrightarrow> set_key q = k \<Longrightarrow> as_items (step q acc) = as_items acc"
    and "k \<notin> item_key ` set (as_items acc)"
  shows "k \<notin> item_key ` set (as_items (fold step rs acc))"
  using assms
proof (induction rs arbitrary: acc)
  case (Cons r rs)
  have "k \<notin> item_key ` set (as_items (step r acc))"
  proof (cases "set_key r = k")
    case True
    then show ?thesis using Cons.prems(1) [of r acc] Cons.prems(2) by simp
  next
    case False
    from step_placed [of r acc] show ?thesis by cases (use Cons.prems(2) False in auto)
  qed
  from Cons.IH [OF Cons.prems(1) this] show ?case by simp
qed simp

end

lemma conflicting_owner_None: "conflicting_owner conflict i (item_key i) owners = None \<longleftrightarrow> conflict_free conflict i owners"
  by (auto simp: conflicting_owner_def conflict_free_def find_None_iff)

lemma item_key_unit_item [simp]: "item_key (unit_item r p) = set_key r" "ur_uid (unit_item r p) = om_uid (rset_meta r)"
  "ur_deletion (unit_item r p) = deleting (rset_meta r)"
  by (simp_all add: unit_item_def item_key_def set_key_def Let_def)

lemma rj_set_conflict_rejection [simp]: "rj_set (conflict_rejection zone r item k) = r"
  by (simp add: conflict_rejection_def)

lemma place_item_placed:
  "placed conflict st r acc (place_item conflict zone st existing pending r (unit_item r p) acc)"
proof -
  let ?i = "unit_item r p" and ?acts = "if deleting (rset_meta r) then [] else [Ensure_Set_Finalizer r]"
  have acts: "?acts = [] \<or> ?acts = [Ensure_Set_Finalizer r] \<and> \<not> deleting (rset_meta r)" by simp
  let ?acc = "acc\<lparr>as_actions := as_actions acc @ ?acts\<rparr>"
  have acc1: "(if deleting (rset_meta r) then acc else acc\<lparr>as_actions := as_actions acc @ [Ensure_Set_Finalizer r]\<rparr>) = ?acc"
    by simp
  have no: "placed conflict st r acc (reject (conflict_rejection zone r ?i k) ?acc)" for k
    using placed.refused [OF rj_set_conflict_rejection acts, of conflict st acc zone ?i k] by (simp add: reject_def)
  have "conflicting_owner conflict ?i (set_key r) (as_accepted acc) = None \<Longrightarrow> conflict_free conflict ?i (as_accepted acc)"
    by (metis conflicting_owner_None item_key_unit_item(1))
  then have free: "placed conflict st r acc (place_free conflict zone pending r ?i d ?acc)" for d
    using no placed.taken [of ?i r conflict acc ?acts st] by (auto simp: place_free_def split: option.splits simp del: if_cancel)
  show ?thesis
    unfolding place_item_def Let_def acc1
    using no free placed.let_go [of r st conflict acc] by (auto split: option.splits)
qed

lemma accept_one_placed:
  "placed (items_conflict env zone prov storage) st r acc (accept_one env zone prov storage st existing pending r acc)"
proof -
  have "placed c st r acc (reject rj acc)" if "rj_set rj = r" for c rj
    using placed.refused [OF that, of "[]" c st acc] by (simp add: reject_def)
  then show ?thesis by (auto simp: accept_one_def Let_def place_item_placed split: option.splits sum.splits)
qed

interpretation acceptance: claim_placement "items_conflict env zone prov storage" st
    "accept_one env zone prov storage st existing pending" for env zone prov storage st existing pending
  by unfold_locales (rule accept_one_placed)

section \<open>Properties\<close>

definition kept_items :: "'c core_env \<Rightarrow> zone_res \<Rightarrow> provider \<Rightarrow> provider_version \<Rightarrow> statuses \<Rightarrow> record_set list
    \<Rightarrow> unit_record_set list \<Rightarrow> unit_record_set list" where
  "kept_items env zone prov storage st rs existing0 =
     (let existing = retained_existing st rs existing0;
          pending = map (pending_deletion_item (by_key item_key existing)) (filter (pending_deletion st) rs)
      in filter (\<lambda>i. conflicting_owner (items_conflict env zone prov storage) i (item_key i) pending = None) existing)"

lemma accepted_items_fold:
  obtains pending ordered where "mset ordered = mset rs" and "accepted_items env zone prov storage st rs existing0 =
     fold (accept_one env zone prov storage st (by_key item_key (retained_existing st rs existing0)) pending) ordered
       \<lparr>as_actions = [], as_items = [], as_rejected = [], as_accepted = kept_items env zone prov storage st rs existing0\<rparr>"
proof (rule that)
  show "mset (sort_key (\<lambda>r. if pending_deletion st r then 0 else (1 :: nat)) rs) = mset rs" by simp
qed (simp only: accepted_items_def kept_items_def Let_def)


text \<open>
  C1. The accepted items of a unit do not conflict: a later item conflicts with no earlier one of
  another claim, nor with an item of another claim that the unit keeps.
\<close>

theorem accepted_items_conflict_free:
  "sorted_wrt (\<lambda>a b. item_key a \<noteq> item_key b \<longrightarrow> \<not> items_conflict env zone prov storage b a)
     (as_items (accepted_items env zone prov storage st rs existing))
   \<and> (\<forall>i \<in> set (as_items (accepted_items env zone prov storage st rs existing)).
        conflict_free (items_conflict env zone prov storage) i (kept_items env zone prov storage st rs existing))"
proof -
  obtain pe ordered where f: "accepted_items env zone prov storage st rs existing =
     fold (accept_one env zone prov storage st (by_key item_key (retained_existing st rs existing)) pe) ordered
       \<lparr>as_actions = [], as_items = [], as_rejected = [], as_accepted = kept_items env zone prov storage st rs existing\<rparr>"
    by (rule accepted_items_fold)
  show ?thesis unfolding f by (rule acceptance.free) simp_all
qed


lemma changed_spec_rejected:
  assumes "existing (set_key r) = Some e" and "\<not> deleting (rset_meta r)" and "\<not> spec_equal e (unit_item r p)"
  shows "place_item conflict zone st existing pending r (unit_item r p) acc
    = acc\<lparr>as_actions := as_actions acc @ [Ensure_Set_Finalizer r],
        as_rejected := as_rejected acc @ [conflict_rejection zone r (unit_item r p) (item_key e)]\<rparr>"
  using assms by (simp add: place_item_def reject_def Let_def)

definition converted_item :: "'c core_env \<Rightarrow> zone_res \<Rightarrow> provider \<Rightarrow> provider_version \<Rightarrow> record_set \<Rightarrow> unit_record_set option" where
  "converted_item env zone prov storage r =
     (case served_version prov (pr_version (rs_provider (rset_spec r))) of None \<Rightarrow> None
      | Some served \<Rightarrow>
        (case convert_payload (co_contract env) \<lparr>ci_provider = Some prov, ci_target = TargetRecordSet, ci_from = Some served,
                ci_to = Some storage, ci_payload = empty_payload\<lparr>pl_options := rs_options (rset_spec r),
                  pl_adoption := rs_adoption (rset_spec r)\<rparr>, ci_context = co_set_context env zone r\<rparr> of
           Inl e \<Rightarrow> None | Inr p \<Rightarrow> Some (unit_item r p)))"

lemma converted_item_accept:
  "converted_item env zone prov storage r = Some i \<Longrightarrow> \<exists>p. i = unit_item r p \<and>
     accept_one env zone prov storage st existing pending r acc
       = place_item (items_conflict env zone prov storage) zone st existing pending r i acc"
  by (auto simp: converted_item_def accept_one_def split: option.splits sum.splits)


section \<open>An example\<close>

definition demo_core_env :: "unit core_env" where
  "demo_core_env = \<lparr>co_decl = demo_decl_env, co_contract = demo_contract_env, co_zone_context = (\<lambda>_. ()),
     co_set_context = (\<lambda>_ _. ()), co_cel = (\<lambda>_ _ _ _ _ _. Some True),
     co_find_condition = (\<lambda>cs t. find (\<lambda>c. c_type c = t) cs),
     co_set_condition = (\<lambda>cs c. if \<exists>x \<in> set cs. c_type x = c_type c
        then map (\<lambda>x. if c_type x = c_type c then c else x) cs else cs @ [c])\<rparr>"

definition demo_deleted_set :: record_set where
  "demo_deleted_set = demo_record_set\<lparr>rset_meta := (rset_meta demo_record_set)\<lparr>om_deletion := Some 5\<rparr>\<rparr>"

definition demo_statuses :: statuses where
  "demo_statuses = (\<lambda>k. if k = set_key demo_record_set then Some \<lparr>us_namespace = ''app'', us_name = ''www'', us_uid = ''uid-www'',
     us_observed = 1, us_provider = None, us_deletion_completed = True, us_conditions = []\<rparr> else None)"

lemmas demo_core_simps = demo_core_env_def demo_contract_env_def demo_record_set_def demo_deleted_set_def demo_statuses_def
  demo_meta_def demo_provider_def demo_version_def demo_zone_def

lemma demo_converted: "converted_item demo_core_env demo_zone demo_provider demo_version demo_record_set
    = Some (unit_item demo_record_set empty_payload)"
  by (simp add: demo_core_simps converted_item_def served_version_def convert_payload_def default_payload_def
      default_raw_def validate_payload_def validate_raw_def empty_payload_def Let_def)

lemma demo_accept_deleted: "as_actions (accepted_items demo_core_env demo_zone demo_provider demo_version demo_statuses [demo_deleted_set] [])
    = [Remove_Set_Finalizer demo_deleted_set]"
  by (simp add: demo_core_simps accepted_items_def retained_existing_def accept_one_def served_version_def convert_payload_def
      default_payload_def default_raw_def validate_payload_def validate_raw_def empty_payload_def place_item_def
      deleting_def deletion_completed_def uids_match_def set_key_def claim_key_def Let_def)


theorem accepted_items_conflict_free_witness:
  "conflict_free (items_conflict demo_core_env demo_zone demo_provider demo_version) (unit_item demo_record_set empty_payload)
     (kept_items demo_core_env demo_zone demo_provider demo_version (\<lambda>_. None) [demo_record_set] [])"
proof -
  have "as_items (accepted_items demo_core_env demo_zone demo_provider demo_version (\<lambda>_. None) [demo_record_set] [])
      = [unit_item demo_record_set empty_payload]"
    by (simp add: demo_core_simps accepted_items_def retained_existing_def accept_one_def served_version_def convert_payload_def
      default_payload_def default_raw_def validate_payload_def validate_raw_def empty_payload_def place_item_def by_key_def
      place_free_def conflicting_owner_def deleting_def pending_deletion_def Let_def)
  with accepted_items_conflict_free [of demo_core_env demo_zone demo_provider demo_version "\<lambda>_. None" "[demo_record_set]" "[]"]
  show ?thesis by simp
qed

definition demo_stored_item :: unit_record_set where
  "demo_stored_item = (unit_item demo_record_set empty_payload)\<lparr>ur_ttl := Some 60\<rparr>"


end
