(* ===== verification/Core_Reconcile.thy ===== *)
theory Core_Reconcile
  imports Core_Composition
begin

text \<open>
  \<open>internal/go/core/controllers/zoneunit\<close>, continued: the projection of the provider's
  results onto the claims (\<open>zoneunit_status.go\<close>), finalizers and the application of the unit
  (\<open>zoneunit_lifecycle.go\<close>), the requests of the watches (\<open>zoneunit_watches.go\<close>)
  and one pass of \<open>reconcileZone\<close>. A pass is given what its reads return and yields the writes
  it makes, in order, with the error that ended it. A write that fails ends the pass where it stands,
  so that the writes performed are then a prefix of the list.
\<close>

section \<open>Conditions\<close>

record projected =
  pj_status :: condition_status
  pj_reason :: string
  pj_message :: string

abbreviation Accepted :: string where "Accepted \<equiv> ''Accepted''"
abbreviation Programmed :: string where "Programmed \<equiv> ''Programmed''"

definition condition_at :: "'c core_env \<Rightarrow> condition list \<Rightarrow> string \<Rightarrow> int \<Rightarrow> condition option" where
  "condition_at env cs t gen = (case co_find_condition env cs t of None \<Rightarrow> None
     | Some c \<Rightarrow> if c_observed c \<noteq> gen then None else Some c)"

definition project_condition :: "condition \<Rightarrow> projected" where
  "project_condition c = \<lparr>pj_status = c_status c, pj_reason = c_reason c, pj_message = c_message c\<rparr>"

definition projected_accepted :: "'c core_env \<Rightarrow> int \<Rightarrow> condition list \<Rightarrow> condition list \<Rightarrow> projected" where
  "projected_accepted env gen composition provided =
     (case condition_at env provided Accepted gen of
        Some c \<Rightarrow> project_condition c
      | None \<Rightarrow>
        (case condition_at env composition Accepted gen of
           Some c \<Rightarrow> if c_status c \<noteq> ConditionTrue then project_condition c
             else \<lparr>pj_status = ConditionUnknown, pj_reason = ''OwnerStateNotResolved'', pj_message = ''OwnerStateNotResolved''\<rparr>
         | None \<Rightarrow> \<lparr>pj_status = ConditionUnknown, pj_reason = ''OwnerStateNotResolved'', pj_message = ''OwnerStateNotResolved''\<rparr>))"

abbreviation still_reconciling :: projected where
  "still_reconciling \<equiv> \<lparr>pj_status = ConditionUnknown, pj_reason = ''Reconciling'', pj_message = ''Reconciling''\<rparr>"

definition projected_programmed :: "'c core_env \<Rightarrow> int \<Rightarrow> condition_status \<Rightarrow> condition list \<Rightarrow> projected" where
  "projected_programmed env gen accepted provided =
     (if accepted \<noteq> ConditionTrue then still_reconciling
      else (case condition_at env provided Programmed gen of None \<Rightarrow> still_reconciling | Some c \<Rightarrow> project_condition c))"

definition stale_completed :: "unit_record_set_status \<Rightarrow> unit_record_set \<Rightarrow> bool" where
  "stale_completed s i \<longleftrightarrow> us_deletion_completed s \<and> \<not> ur_deletion i"

definition retained_not_allowed_item :: "unit_record_set \<Rightarrow> bool" where
  "retained_not_allowed_item i \<longleftrightarrow> \<not> is_allowed i \<and> \<not> ur_deletion i"

definition status_matches :: "unit_record_set_status \<Rightarrow> unit_record_set \<Rightarrow> bool" where
  "status_matches s i \<longleftrightarrow> uids_match (us_uid s) (ur_uid i)"

section \<open>Claim statuses\<close>

definition claim_conditions :: "'c core_env \<Rightarrow> int \<Rightarrow> projected \<Rightarrow> projected \<Rightarrow> condition list \<Rightarrow> condition list" where
  "claim_conditions env gen acc prog cs =
     co_set_condition env
       (co_set_condition env cs \<lparr>c_type = Accepted, c_status = pj_status acc, c_reason = pj_reason acc,
          c_message = pj_message acc, c_observed = gen, c_transition = 0\<rparr>)
       \<lparr>c_type = Programmed, c_status = pj_status prog, c_reason = pj_reason prog, c_message = pj_message prog,
        c_observed = gen, c_transition = 0\<rparr>"

text \<open>Of the provider's status only the public data reaches a claim.\<close>

definition public_status :: "provider_status option \<Rightarrow> provider_status option" where
  "public_status p = (case p of None \<Rightarrow> None
     | Some s \<Rightarrow> if ps_data s \<noteq> [] then Some \<lparr>ps_data = ps_data s, ps_state = []\<rparr> else None)"

definition zone_claim_status :: "'c core_env \<Rightarrow> object_meta \<Rightarrow> zone_status \<Rightarrow> projected \<Rightarrow> projected
    \<Rightarrow> unit_zone_status option \<Rightarrow> zone_status" where
  "zone_claim_status env m s acc prog provided =
     (let s1 = s\<lparr>zst_observed := om_generation m,
                 zst_conditions := claim_conditions env (om_generation m) acc prog (zst_conditions s)\<rparr>
      in case provided of None \<Rightarrow> s1
         | Some p \<Rightarrow> s1\<lparr>zst_name_servers := uzs_name_servers p, zst_provider := public_status (uzs_provider p)\<rparr>)"

definition set_zone_status :: "'c core_env \<Rightarrow> zone_res \<Rightarrow> zone_status \<Rightarrow> projected \<Rightarrow> projected
    \<Rightarrow> unit_zone_status option \<Rightarrow> action list" where
  "set_zone_status env zone s acc prog provided =
     (let s' = zone_claim_status env (zone_meta zone) s acc prog provided in if s' = s then [] else [Patch_Zone_Status s'])"

text \<open>The short form: the reason is the message.\<close>

definition plain :: "condition_status \<Rightarrow> string \<Rightarrow> projected" where
  "plain st reason = \<lparr>pj_status = st, pj_reason = reason, pj_message = reason\<rparr>"

definition set_claim_status :: "'c core_env \<Rightarrow> object_meta \<Rightarrow> record_set_status \<Rightarrow> projected \<Rightarrow> projected
    \<Rightarrow> object_reference option \<Rightarrow> provider_status option option \<Rightarrow> record_set_status" where
  "set_claim_status env m s acc prog zone provided =
     s\<lparr>rst_observed := om_generation m,
       rst_zone := (case zone of None \<Rightarrow> rst_zone s | Some z \<Rightarrow> Some z),
       rst_conditions := claim_conditions env (om_generation m) acc prog (rst_conditions s),
       rst_provider := (case provided of None \<Rightarrow> rst_provider s | Some p \<Rightarrow> public_status p)\<rparr>"

type_synonym set_statuses = "string \<Rightarrow> record_set_status"

definition set_record_set_status :: "'c core_env \<Rightarrow> record_set \<Rightarrow> projected \<Rightarrow> projected \<Rightarrow> object_reference option
    \<Rightarrow> provider_status option option \<Rightarrow> set_statuses \<Rightarrow> action list \<times> set_statuses" where
  "set_record_set_status env r acc prog zone provided sts =
     (let s = sts (set_key r); s' = set_claim_status env (rset_meta r) s acc prog zone provided
      in (if s' = s then [] else [Patch_Set_Status r s'], sts(set_key r := s')))"

definition record_set_zone_status :: "zone_res \<Rightarrow> object_reference option" where
  "record_set_zone_status zone = Some \<lparr>obr_namespace = om_namespace (zone_meta zone), obr_name = om_name (zone_meta zone)\<rparr>"

definition write_record_sets :: "'c core_env \<Rightarrow> condition_status \<Rightarrow> record_set list \<Rightarrow> string \<Rightarrow> set_statuses \<Rightarrow> action list" where
  "write_record_sets env accepted rs reason sts =
     concat (map (\<lambda>r. fst (set_record_set_status env r (plain accepted reason) (plain ConditionUnknown ''Reconciling'')
       None None sts)) rs)"

definition write_waiting :: "'c core_env \<Rightarrow> record_set list \<Rightarrow> string \<Rightarrow> set_statuses \<Rightarrow> action list" where
  "write_waiting env = write_record_sets env ConditionUnknown"

definition write_not_accepted :: "'c core_env \<Rightarrow> record_set list \<Rightarrow> string \<Rightarrow> set_statuses \<Rightarrow> action list" where
  "write_not_accepted env = write_record_sets env ConditionFalse"

section \<open>Projection\<close>

text \<open>The provider's results that belong to the current items, and those that do not fit theirs.\<close>

definition relevant_status :: "(string \<Rightarrow> unit_record_set option) \<Rightarrow> unit_record_set_status \<Rightarrow> bool" where
  "relevant_status desired s \<longleftrightarrow> (case desired (status_key s) of None \<Rightarrow> False | Some i \<Rightarrow> \<not> retained_not_allowed_item i)"

definition fitting_status :: "(string \<Rightarrow> unit_record_set option) \<Rightarrow> unit_record_set_status \<Rightarrow> bool" where
  "fitting_status desired s \<longleftrightarrow>
     (case desired (status_key s) of None \<Rightarrow> False | Some i \<Rightarrow> \<not> stale_completed s i \<and> status_matches s i)"

definition project_set :: "'c core_env \<Rightarrow> zone_res \<Rightarrow> unit_record_set list \<Rightarrow> unit_record_set_status list
    \<Rightarrow> set_statuses \<Rightarrow> record_set \<Rightarrow> action list" where
  "project_set env zone items results sts r =
     (let desired = by_key item_key items;
          relevant = filter (relevant_status desired) results;
          fitting = by_key status_key (filter (fitting_status desired) relevant);
          k = set_key r in
      case desired k of None \<Rightarrow> []
      | Some i \<Rightarrow>
        if \<not> item_matches i r then []
        else (case fitting k of
            None \<Rightarrow>
              if \<exists>s \<in> set relevant. status_key s = k \<and> \<not> fitting_status desired s
              then fst (set_record_set_status env r (plain ConditionUnknown ''OwnerStateNotResolved'')
                (plain ConditionUnknown ''Reconciling'') (record_set_zone_status zone) (Some None) sts)
              else []
          | Some s \<Rightarrow>
              (let cs = (if us_observed s = ur_observed i then us_conditions s else []);
                   acc = projected_accepted env (ur_observed i) (rst_conditions (sts k)) cs;
                   prog = projected_programmed env (ur_observed i) (pj_status acc) cs
               in fst (set_record_set_status env r acc prog (record_set_zone_status zone) (Some (us_provider s)) sts))))"

definition project_unit_status :: "'c core_env \<Rightarrow> zone_res \<Rightarrow> zone_status \<Rightarrow> record_set list \<Rightarrow> set_statuses
    \<Rightarrow> unit_spec \<Rightarrow> unit_status \<Rightarrow> action list" where
  "project_unit_status env zone zs rs sts spec status =
     (case ust_zone status of None \<Rightarrow> []
      | Some uz \<Rightarrow>
        (let acc = projected_accepted env (uz_observed (un_zone spec)) (zst_conditions zs) (uzs_conditions uz);
             prog = projected_programmed env (uz_observed (un_zone spec)) (pj_status acc) (uzs_conditions uz)
         in set_zone_status env zone zs acc prog (Some uz)))
     @ concat (map (project_set env zone (un_record_sets spec) (ust_record_sets status) sts) rs)"

section \<open>Finalizers and the unit\<close>

abbreviation core_zone_finalizer :: string where "core_zone_finalizer \<equiv> ''dns.appthrust.io/zone-finalizer''"
abbreviation core_set_finalizer :: string where "core_set_finalizer \<equiv> ''dns.appthrust.io/recordset-finalizer''"
abbreviation core_unit_finalizer :: string where "core_unit_finalizer \<equiv> ''dns.appthrust.io/zoneunit-finalizer''"
abbreviation request_annotation :: string where "request_annotation \<equiv> ''dns.appthrust.io/reconcile-request''"

text \<open>The patched metadata, or \<open>None\<close> when nothing is written.\<close>

definition ensure_finalizer :: "string \<Rightarrow> object_meta \<Rightarrow> object_meta option" where
  "ensure_finalizer f m = (if f \<in> set (om_finalizers m) \<or> deleting m then None
     else Some (m\<lparr>om_finalizers := om_finalizers m @ [f]\<rparr>))"

definition remove_finalizer :: "string \<Rightarrow> object_meta \<Rightarrow> object_meta option" where
  "remove_finalizer f m = (if f \<notin> set (om_finalizers m) then None
     else Some (m\<lparr>om_finalizers := filter (\<lambda>v. v \<noteq> f) (om_finalizers m)\<rparr>))"

definition cleanup_completed :: "object_meta \<Rightarrow> bool" where
  "cleanup_completed m \<longleftrightarrow> (\<forall>f \<in> set (om_finalizers m). f = core_unit_finalizer)"

definition sync_annotation :: "(string \<times> string) list \<Rightarrow> (string \<times> string) list \<Rightarrow> (string \<times> string) list" where
  "sync_annotation own source =
     (case map_of source request_annotation of
        None \<Rightarrow> filter (\<lambda>p. fst p \<noteq> request_annotation) own
      | Some v \<Rightarrow> map_put own request_annotation v)"

type_synonym outcome = "action list \<times> go_error option"

definition apply_unit :: "go_error + zone_unit \<Rightarrow> object_meta \<Rightarrow> unit_spec \<Rightarrow> bool \<Rightarrow> outcome" where
  "apply_unit current m spec create =
     (if create then ([Create_Unit m spec], None)
      else (case current of
          Inl e \<Rightarrow> ([], Some e)
        | Inr cur \<Rightarrow>
          (let cm = unit_meta cur;
               fins = (if core_unit_finalizer \<notin> set (om_finalizers cm) \<and> \<not> deleting cm
                       then om_finalizers cm @ [core_unit_finalizer] else om_finalizers cm);
               anns = sync_annotation (om_annotations cm) (om_annotations m)
           in if spec = unit_rspec cur \<and> anns = om_annotations cm \<and> fins = om_finalizers cm then ([], None)
              else ([Patch_Unit (cm\<lparr>om_finalizers := fins, om_annotations := anns\<rparr>) spec], None))))"


section \<open>One pass over a zone\<close>

text \<open>What the reads of a pass return; \<open>wo_current\<close> is the unit read again before it is patched.\<close>

record world =
  wo_record_sets :: "go_error + record_set list"
  wo_statuses :: set_statuses
  wo_unit :: "go_error + zone_unit option"
  wo_zone :: "go_error + (zone_res \<times> zone_status) option"
  wo_class :: "string \<times> string \<Rightarrow> go_error + zone_class option"
  wo_provider :: "string \<Rightarrow> go_error + provider option"
  wo_current :: "go_error + zone_unit"

definition zone_class_key :: "zone_res \<Rightarrow> string \<times> string" where
  "zone_class_key zone = (ref_namespace (om_namespace (zone_meta zone)) (zs_class_ref (zone_rspec zone)),
     zr_name (zs_class_ref (zone_rspec zone)))"

text \<open>The rejections are written to the claims one after the other.\<close>

fun write_rejected :: "'c core_env \<Rightarrow> zone_res \<Rightarrow> rejected list \<Rightarrow> set_statuses \<Rightarrow> action list \<times> set_statuses" where
  "write_rejected env zone [] sts = ([], sts)"
| "write_rejected env zone (rj # rjs) sts =
     (let msg = (if rj_message rj = [] then rj_reason rj else rj_message rj);
          (a, sts1) = set_record_set_status env (rj_set rj)
             \<lparr>pj_status = rj_status rj, pj_reason = rj_reason rj, pj_message = msg\<rparr>
             \<lparr>pj_status = ConditionUnknown, pj_reason = ''Reconciling'',
              pj_message = ''RecordSet programming is waiting for Accepted=True''\<rparr>
             (record_set_zone_status zone) None sts;
          (as, sts2) = write_rejected env zone rjs sts1
      in (a @ as, sts2))"

record composed =
  cp_actions :: "action list"
  cp_items :: "unit_record_set list"
  cp_rejected :: "rejected list"

text \<open>The composition of the unit's items from the record sets of the zone.\<close>

definition compose_items :: "'c core_env \<Rightarrow> zone_res \<Rightarrow> zone_class \<Rightarrow> provider \<Rightarrow> provider_version \<Rightarrow> record_set list
    \<Rightarrow> unit_record_set list \<Rightarrow> statuses \<Rightarrow> composed" where
  "compose_items env zone zc prov storage rs existing st =
     (let (allowed, policy_rejected) = sets_allowed_by_zone (co_decl env) zone rs;
          (matching, mismatched) = sets_matching_provider (zc_provider zc) allowed;
          (supported, unsupported) = sets_supported prov matching;
          acc = accepted_items env zone prov storage st supported existing;
          predecessors = pending_predecessor_items st rs existing;
          (racts, retained) = retained_not_allowed st (by_key item_key existing) policy_rejected
      in \<lparr>cp_actions = as_actions acc @ racts, cp_items = predecessors @ as_items acc @ retained,
          cp_rejected = policy_rejected @ mismatched @ unsupported @ as_rejected acc\<rparr>)"

definition desired_meta :: "zone_res \<Rightarrow> object_meta" where
  "desired_meta zone = \<lparr>om_namespace = om_namespace (zone_meta zone), om_name = om_name (zone_meta zone), om_uid = [],
     om_generation = 0, om_creation = 0, om_deletion = None, om_labels = [],
     om_annotations = sync_annotation [] (om_annotations (zone_meta zone)), om_finalizers = [core_unit_finalizer], om_owners = []\<rparr>"

definition desired_spec :: "zone_res \<Rightarrow> zone_class \<Rightarrow> provider \<Rightarrow> provider_version \<Rightarrow> raw \<Rightarrow> unit_record_set list
    \<Rightarrow> unit_withdrawal list \<Rightarrow> unit_spec" where
  "desired_spec zone zc prov storage adoption items withdrawals =
     \<lparr>un_provider = \<lparr>pr_name = prov_name prov, pr_version = pvn_name storage\<rparr>,
      un_zone = \<lparr>uz_ref = \<lparr>obr_namespace = om_namespace (zone_meta zone), obr_name = om_name (zone_meta zone)\<rparr>,
        uz_observed = om_generation (zone_meta zone), uz_domain = zs_domain (zone_rspec zone),
        uz_class_ref = \<lparr>obr_namespace = om_namespace (zc_meta zc), obr_name = om_name (zc_meta zc)\<rparr>,
        uz_class_uid = om_uid (zc_meta zc), uz_class_observed = om_generation (zc_meta zc), uz_adoption = adoption\<rparr>,
      un_record_sets = items, un_withdrawals = withdrawals\<rparr>"

definition unit_deleting :: "zone_unit option \<Rightarrow> bool" where
  "unit_deleting u \<longleftrightarrow> (case u of None \<Rightarrow> False | Some x \<Rightarrow> deleting (unit_meta x))"

definition dependency_message :: "nat \<Rightarrow> nat \<Rightarrow> string" where
  "dependency_message sets withdrawals =
     (if withdrawals > 0
      then dec sets @ '' RecordSet and '' @ dec withdrawals @ '' RecordWithdrawal resources still reference this Zone; archive dependent claims before Zone cleanup can continue''
      else dec sets @ '' RecordSet resources still reference this Zone; delete or move them before Zone cleanup can continue'')"

text \<open>A zone that is being deleted: dependents first, then the unit, then the finalizers.\<close>

definition finish_deleting :: "'c core_env \<Rightarrow> world \<Rightarrow> zone_res \<Rightarrow> zone_status \<Rightarrow> zone_unit option \<Rightarrow> unit_spec
    \<Rightarrow> nat \<Rightarrow> nat \<Rightarrow> outcome" where
  "finish_deleting env w zone zs unit spec sets withdrawals =
     (if sets > 0 \<or> withdrawals > 0 then
        (case (if unit_deleting unit then ([], None) else apply_unit (wo_current w) (desired_meta zone) spec (unit = None)) of
           (acts, Some e) \<Rightarrow> (acts, Some e)
         | (acts, None) \<Rightarrow>
             (acts @ set_zone_status env zone zs
                \<lparr>pj_status = ConditionTrue, pj_reason = ''Accepted'', pj_message = ''Zone is accepted''\<rparr>
                \<lparr>pj_status = ConditionFalse, pj_reason = ''ProviderChangePending'',
                 pj_message = dependency_message sets withdrawals\<rparr>
                (case unit of None \<Rightarrow> None | Some u \<Rightarrow> ust_zone (unit_rstatus u)), None))
      else (case unit of
          None \<Rightarrow> ([Remove_Zone_Finalizer], None)
        | Some u \<Rightarrow>
          if \<not> deleting (unit_meta u) then
            (Delete_Unit # set_zone_status env zone zs (plain ConditionUnknown ''Reconciling'')
               (plain ConditionUnknown ''ProviderChangePending'') None, None)
          else if \<not> cleanup_completed (unit_meta u) then
            (set_zone_status env zone zs (plain ConditionUnknown ''Reconciling'')
               (plain ConditionUnknown ''ProviderChangePending'') None, None)
          else ([Remove_Zone_Finalizer, Remove_Unit_Finalizer], None)))"

definition finish_live :: "'c core_env \<Rightarrow> world \<Rightarrow> zone_res \<Rightarrow> zone_status \<Rightarrow> zone_unit option \<Rightarrow> unit_spec
    \<Rightarrow> record_set list \<Rightarrow> set_statuses \<Rightarrow> outcome" where
  "finish_live env w zone zs unit spec rs sts =
     (case apply_unit (wo_current w) (desired_meta zone) spec (unit = None) of
        (acts, Some e) \<Rightarrow> (acts, Some e)
      | (acts, None) \<Rightarrow>
        (case unit of None \<Rightarrow> (acts, None)
         | Some u \<Rightarrow>
           if ust_zone (unit_rstatus u) \<noteq> None \<or> ust_record_sets (unit_rstatus u) \<noteq> []
           then (acts @ project_unit_status env zone zs rs sts spec (unit_rstatus u), None)
           else (acts, None)))"

text \<open>The pass once the zone, its class and the versions of the provider are known.\<close>

definition reconcile_accepted :: "'c core_env \<Rightarrow> world \<Rightarrow> record_set list \<Rightarrow> zone_unit option \<Rightarrow> zone_res \<Rightarrow> zone_status
    \<Rightarrow> zone_class \<Rightarrow> provider \<Rightarrow> provider_version \<Rightarrow> provider_version \<Rightarrow> nat \<Rightarrow> outcome" where
  "reconcile_accepted env w rs unit zone zs zc prov input storage withdrawals =
     (let fin = (if deleting (zone_meta zone) then [] else [Ensure_Zone_Finalizer]) in
      case convert_payload (co_contract env) \<lparr>ci_provider = Some prov, ci_target = TargetZone, ci_from = Some input,
          ci_to = Some storage, ci_payload = empty_payload\<lparr>pl_adoption := zs_adoption (zone_rspec zone)\<rparr>,
          ci_context = co_zone_context env zone\<rparr> of
        Inl e \<Rightarrow>
          (let a = error_to_acceptance (Some e) in
           (fin @ set_zone_status env zone zs \<lparr>pj_status = ac_status a, pj_reason = ac_reason a, pj_message = ac_message a\<rparr>
               still_reconciling None
            @ (if ac_status a = ConditionUnknown then write_waiting env rs (ac_reason a) (wo_statuses w)
               else write_not_accepted env rs ''ZoneNotAccepted'' (wo_statuses w)), None))
      | Inr p \<Rightarrow>
          (let existing = (case unit of None \<Rightarrow> [] | Some u \<Rightarrow> un_record_sets (unit_rspec u));
               st = (case unit of None \<Rightarrow> (\<lambda>_. None) | Some u \<Rightarrow> by_key status_key (ust_record_sets (unit_rstatus u)));
               cp = compose_items env zone zc prov storage rs existing st;
               (wacts, sts) = write_rejected env zone (cp_rejected cp) (wo_statuses w);
               spec = desired_spec zone zc prov storage (pl_adoption p) (cp_items cp)
                 (case unit of None \<Rightarrow> [] | Some u \<Rightarrow> un_withdrawals (unit_rspec u));
               (acts, err) = (if deleting (zone_meta zone)
                 then finish_deleting env w zone zs unit spec (length rs) withdrawals
                 else finish_live env w zone zs unit spec rs sts)
           in (fin @ cp_actions cp @ wacts @ acts, err)))"

definition reconcile_provider :: "'c core_env \<Rightarrow> world \<Rightarrow> record_set list \<Rightarrow> zone_unit option \<Rightarrow> zone_res \<Rightarrow> zone_status
    \<Rightarrow> zone_class \<Rightarrow> nat \<Rightarrow> outcome" where
  "reconcile_provider env w rs unit zone zs zc withdrawals =
     (let unresolved = (set_zone_status env zone zs (plain ConditionUnknown ''ProviderStorageVersionNotResolved'')
            (plain ConditionUnknown ''Reconciling'') None
          @ write_waiting env rs ''ProviderStorageVersionNotResolved'' (wo_statuses w), None) in
      case wo_provider w (pr_name (zc_provider zc)) of
        Inl e \<Rightarrow> ([], Some e)
      | Inr None \<Rightarrow> unresolved
      | Inr (Some prov) \<Rightarrow>
        (case served_version prov (pr_version (zs_provider (zone_rspec zone))) of
           None \<Rightarrow> unresolved
         | Some input \<Rightarrow>
           (case storage_version (Some prov) of
              None \<Rightarrow> unresolved
            | Some storage \<Rightarrow> reconcile_accepted env w rs unit zone zs zc prov input storage withdrawals)))"

definition reconcile_class :: "'c core_env \<Rightarrow> world \<Rightarrow> record_set list \<Rightarrow> zone_unit option \<Rightarrow> zone_res \<Rightarrow> zone_status
    \<Rightarrow> nat \<Rightarrow> outcome" where
  "reconcile_class env w rs unit zone zs withdrawals =
     (case wo_class w (zone_class_key zone) of
        Inl e \<Rightarrow> ([], Some e)
      | Inr None \<Rightarrow>
          (set_zone_status env zone zs (plain ConditionUnknown ''ZoneClassNotResolved'') (plain ConditionUnknown ''Reconciling'') None
           @ write_waiting env rs ''ZoneClassNotResolved'' (wo_statuses w), None)
      | Inr (Some zc) \<Rightarrow>
          if zs_provider (zone_rspec zone) \<noteq> zc_provider zc then
            (set_zone_status env zone zs (plain ConditionFalse ''ProviderMismatch'') (plain ConditionUnknown ''Reconciling'') None
             @ write_not_accepted env rs ''ZoneNotAccepted'' (wo_statuses w), None)
          else (case zone_allowed_by_class (co_decl env) zc (om_namespace (zone_meta zone)) of
              Inl e \<Rightarrow> ([], Some e)
            | Inr False \<Rightarrow>
                (set_zone_status env zone zs \<lparr>pj_status = ConditionFalse, pj_reason = ''NotAllowedByZoneClass'',
                    pj_message = ''Zone namespace is not allowed by ZoneClass''\<rparr> still_reconciling None
                 @ write_not_accepted env rs ''ZoneNotAccepted'' (wo_statuses w), None)
            | Inr True \<Rightarrow> reconcile_provider env w rs unit zone zs zc withdrawals))"

definition reconcile_zone :: "'c core_env \<Rightarrow> world \<Rightarrow> string \<times> string \<Rightarrow> nat \<Rightarrow> outcome" where
  "reconcile_zone env w key withdrawals =
     (case wo_record_sets w of
        Inl e \<Rightarrow> ([], Some e)
      | Inr all \<Rightarrow>
        (let rs = record_sets_for_zone all key in
         case wo_unit w of
           Inl e \<Rightarrow> ([], Some e)
         | Inr unit \<Rightarrow>
           (case wo_zone w of
              Inl e \<Rightarrow> ([], Some e)
            | Inr None \<Rightarrow>
                (if (case unit of None \<Rightarrow> False | Some u \<Rightarrow> deleting (unit_meta u) \<and> cleanup_completed (unit_meta u))
                 then ([Remove_Unit_Finalizer], None)
                 else (write_waiting env rs ''ZoneNotResolved'' (wo_statuses w), None))
            | Inr (Some (zone, zs)) \<Rightarrow> reconcile_class env w rs unit zone zs withdrawals)))"

section \<open>One item per claim\<close>

lemma by_key_Some: "by_key key xs k = Some x \<Longrightarrow> x \<in> set xs \<and> key x = k"
  unfolding by_key_def by (drule map_of_SomeD) auto

lemma by_key_None: "by_key key xs k = None \<longleftrightarrow> k \<notin> key ` set xs"
  by (simp add: by_key_def map_of_eq_None_iff image_image)

lemma by_key_distinct: "distinct (map key xs) \<Longrightarrow> x \<in> set xs \<Longrightarrow> by_key key xs (key x) = Some x"
proof -
  assume d: "distinct (map key xs)" and x: "x \<in> set xs"
  have "map fst (rev (map (\<lambda>x. (key x, x)) xs)) = rev (map key xs)" by (simp add: rev_map comp_def)
  with d have "distinct (map fst (rev (map (\<lambda>x. (key x, x)) xs)))" by simp
  then show ?thesis unfolding by_key_def by (rule map_of_is_SomeI) (use x in simp)
qed

lemma sets_allowed_parts:
  "sets_allowed_by_zone env zone rs = (ok, no) \<Longrightarrow> ok = filter (\<lambda>r. r \<in> set ok) rs \<and> map rj_set no = filter (\<lambda>r. r \<notin> set ok) rs"
  by (auto simp: sets_allowed_by_zone_def comp_def intro!: filter_cong)

lemma accepted_items_keys:
  assumes "distinct (map set_key rs)"
  shows "distinct (map item_key (as_items (accepted_items env zone prov storage st rs existing)))"
    and "item_key ` set (as_items (accepted_items env zone prov storage st rs existing)) \<subseteq> set_key ` set rs"
proof -
  let ?acc = "accepted_items env zone prov storage st rs existing"
  obtain pe ordered where o: "mset ordered = mset rs" and f: "?acc =
     fold (accept_one env zone prov storage st (by_key item_key (retained_existing st rs existing)) pe) ordered
       \<lparr>as_actions = [], as_items = [], as_rejected = [], as_accepted = kept_items env zone prov storage st rs existing\<rparr>"
    by (rule accepted_items_fold)
  have m: "mset (map item_key (as_items ?acc) @ map (\<lambda>rj. set_key (rj_set rj)) (as_rejected ?acc)
      @ map set_key (removed_sets (as_actions ?acc))) = mset (map set_key rs)"
    unfolding f mset_append add.assoc [symmetric] acceptance.accounted by (simp add: o)
  from mset_eq_imp_distinct_iff [OF m] assms show "distinct (map item_key (as_items ?acc))" by simp
  from mset_eq_setD [OF m] show "item_key ` set (as_items ?acc) \<subseteq> set_key ` set rs" by auto
qed

lemma pending_predecessor_not_taken:
  assumes "distinct (map set_key rs)" and "distinct (map item_key existing)" and "i \<in> set existing"
    and "\<And>r. r \<in> set rs \<Longrightarrow> set_key r = item_key i \<Longrightarrow> pending_predecessor i r"
    and "\<not> deletion_completed st (item_key i) (ur_uid i)"
  shows "item_key i \<notin> item_key ` set (as_items (accepted_items env zone prov storage st rs existing))"
proof -
  obtain pe ordered where o: "mset ordered = mset rs" and f: "accepted_items env zone prov storage st rs existing =
     fold (accept_one env zone prov storage st (by_key item_key (retained_existing st rs existing)) pe) ordered
       \<lparr>as_actions = [], as_items = [], as_rejected = [], as_accepted = kept_items env zone prov storage st rs existing\<rparr>"
    by (rule accepted_items_fold)
  have "as_items (accept_one env zone prov storage st (by_key item_key (retained_existing st rs existing)) pe q acc) = as_items acc"
    if "q \<in> set ordered" and "set_key q = item_key i" for q acc
  proof -
    have q: "q \<in> set rs" using that(1) o by (metis set_mset_mset)
    then have p: "pending_predecessor i q" using assms(4) that(2) by blast
    then have "i \<in> set (retained_existing st rs existing)"
      using assms(3,5) by (auto simp: retained_existing_def pending_predecessor_def split: option.splits)
    moreover have "distinct (map item_key (retained_existing st rs existing))"
      using assms(2) by (simp add: retained_existing_def distinct_map_filter)
    ultimately have "by_key item_key (retained_existing st rs existing) (set_key q) = Some i"
      unfolding that(2) by (rule by_key_distinct [rotated])
    with p show ?thesis
      by (auto simp: accept_one_def place_item_def reject_def Let_def split: option.splits sum.splits)
  qed
  from acceptance.never_taken [OF this] show ?thesis unfolding f by simp
qed

lemma retained_not_allowed_keys:
  assumes "distinct (map (\<lambda>rj. set_key (rj_set rj)) rjs)" and "\<And>k e. existing k = Some e \<Longrightarrow> item_key e = k"
  shows "distinct (map item_key (snd (retained_not_allowed st existing rjs)))
    \<and> item_key ` set (snd (retained_not_allowed st existing rjs)) \<subseteq> (\<lambda>rj. set_key (rj_set rj)) ` set rjs"
  using assms(1)
proof (induction rjs)
  case (Cons rj rjs)
  have key [simp]: "item_key (e\<lparr>ur_allowed := a, ur_deletion := d\<rparr>) = item_key e" "item_key (e\<lparr>ur_allowed := a\<rparr>) = item_key e" for e a d
    by (simp_all add: item_key_def)
  show ?case using Cons
    by (cases "retained_not_allowed st existing rjs")
      (auto simp: Let_def image_subset_iff dest: assms(2) split: option.splits)
qed simp

lemma retained_not_allowed_predecessor:
  assumes "item_key i \<in> item_key ` set (snd (retained_not_allowed st existing rjs))" and "existing (item_key i) = Some i"
    and "\<And>k e. existing k = Some e \<Longrightarrow> item_key e = k" and "\<not> deletion_completed st (item_key i) (ur_uid i)"
  shows "\<exists>rj \<in> set rjs. set_key (rj_set rj) = item_key i \<and> \<not> pending_predecessor i (rj_set rj)"
  using assms(1)
proof (induction rjs)
  case (Cons rj rjs)
  have key [simp]: "item_key (e\<lparr>ur_allowed := a, ur_deletion := d\<rparr>) = item_key e" "item_key (e\<lparr>ur_allowed := a\<rparr>) = item_key e" for e a d
    by (simp_all add: item_key_def)
  show ?case
  proof (cases "item_key i \<in> item_key ` set (snd (retained_not_allowed st existing rjs))")
    case True
    with Cons.IH show ?thesis by auto
  next
    case False
    with Cons.prems obtain e where "existing (set_key (rj_set rj)) = Some e" "item_key i = set_key (rj_set rj)"
      and n: "\<not> (pending_predecessor e (rj_set rj) \<and> \<not> deletion_completed st (set_key (rj_set rj)) (ur_uid e)) \<or> item_matches e (rj_set rj)"
      by (cases "retained_not_allowed st existing rjs") (auto simp: Let_def dest: assms(3) split: option.splits if_splits)
    with assms(2,4) show ?thesis
      by (auto simp: item_matches_def uids_match_def pending_predecessor_def)
  qed
qed simp

text \<open>
  C6. The unit composed from claims with distinct names has at most one item per claim, so the
  list map of the resource is well formed.
\<close>

theorem composed_items_distinct:
  assumes "distinct (map set_key rs)" and "distinct (map item_key existing)"
  shows "distinct (map item_key (cp_items (compose_items env zone zc prov storage rs existing st)))"
proof -
  obtain allowed no where a: "sets_allowed_by_zone (co_decl env) zone rs = (allowed, no)" by fastforce
  obtain matching mis where m: "sets_matching_provider (zc_provider zc) allowed = (matching, mis)" by fastforce
  obtain supported un where u: "sets_supported prov matching = (supported, un)" by fastforce
  have parts: "allowed = filter (\<lambda>r. r \<in> set allowed) rs" "map rj_set no = filter (\<lambda>r. r \<notin> set allowed) rs"
    using sets_allowed_parts [OF a] by simp_all
  have supp: "supported = filter (\<lambda>r. unsupported prov r = None) (filter (\<lambda>r. rs_provider (rset_spec r) = zc_provider zc) allowed)"
    using m u by (auto simp: sets_matching_provider_def sets_supported_def)
  then have sub: "set supported \<subseteq> set allowed" by auto
  have d_allowed: "distinct (map set_key allowed)" by (subst parts(1)) (use assms(1) in \<open>simp add: distinct_map_filter\<close>)
  then have ds: "distinct (map set_key supported)" unfolding supp by (simp add: distinct_map_filter)
  have dn: "distinct (map (\<lambda>rj. set_key (rj_set rj)) no)"
    using assms(1) parts(2) by (metis (no_types, lifting) comp_apply distinct_map_filter list.map_comp map_eq_conv)
  have inj: "q = r" if "q \<in> set rs" "r \<in> set rs" "set_key q = set_key r" for q r
    using assms(1) that by (simp add: distinct_map inj_on_def)
  have no_in: "rj_set rj \<in> set rs \<and> rj_set rj \<notin> set allowed" if "rj \<in> set no" for rj
  proof -
    have "rj_set rj \<in> set (map rj_set no)" using that by simp
    then show ?thesis unfolding parts(2) by simp
  qed
  have allowed_in: "set allowed \<subseteq> set rs" by (subst parts(1)) auto
  let ?items = "as_items (accepted_items env zone prov storage st supported existing)"
  let ?pre = "pending_predecessor_items st rs existing"
  let ?ret = "snd (retained_not_allowed st (by_key item_key existing) no)"
  have ex_key: "item_key e = k" if "by_key item_key existing k = Some e" for k e using by_key_Some [OF that] by simp
  note ret = retained_not_allowed_keys [OF dn, of "by_key item_key existing" st, OF ex_key]
  have pre: "i \<in> set existing \<and> \<not> deletion_completed st (item_key i) (ur_uid i)
      \<and> (\<forall>r \<in> set rs. set_key r = item_key i \<longrightarrow> pending_predecessor i r)" if "i \<in> set ?pre" for i
    using that by_key_distinct [OF assms(1)]
    by (auto simp: pending_predecessor_items_def split: option.splits) (metis option.inject)
  have "distinct (map item_key ?pre)" using assms(2) by (simp add: pending_predecessor_items_def distinct_map_filter)
  moreover have "item_key ` set ?pre \<inter> item_key ` set ?items = {}"
    using pending_predecessor_not_taken [OF ds assms(2)] pre sub allowed_in by blast
  moreover have "item_key ` set ?pre \<inter> item_key ` set ?ret = {}"
  proof -
    have "False" if i: "i \<in> set ?pre" and k: "item_key i \<in> item_key ` set ?ret" for i
    proof -
      from pre [OF i] have "by_key item_key existing (item_key i) = Some i" using by_key_distinct [OF assms(2)] by blast
      from retained_not_allowed_predecessor [OF k this ex_key] pre [OF i] no_in show False by blast
    qed
    then show ?thesis by blast
  qed
  moreover have "item_key ` set ?items \<inter> item_key ` set ?ret = {}"
  proof -
    have "False" if k: "k \<in> item_key ` set ?items" "k \<in> item_key ` set ?ret" for k
    proof -
      from k(1) accepted_items_keys(2) [OF ds] have "k \<in> set_key ` set supported" by (rule subsetD [rotated])
      then obtain q where q: "q \<in> set supported" "k = set_key q" by (rule imageE)
      from subsetD [OF conjunct2 [OF ret] k(2)] have "k \<in> (\<lambda>rj. set_key (rj_set rj)) ` set no" .
      then obtain rj where rj: "rj \<in> set no" "k = set_key (rj_set rj)" by (rule imageE)
      from q(1) sub allowed_in have "q \<in> set allowed" "q \<in> set rs" by auto
      with no_in [OF rj(1)] inj [of q "rj_set rj"] q(2) rj(2) show False by simp
    qed
    then show ?thesis by blast
  qed
  ultimately show ?thesis
    using accepted_items_keys(1) [OF ds, of env zone prov storage st existing] ret
    by (simp add: compose_items_def a m u Let_def case_prod_unfold Int_Un_distrib)
qed

section \<open>Releases\<close>

text \<open>The writes that let a zone, its unit or its deletion go on.\<close>

fun is_release :: "action \<Rightarrow> bool" where
  "is_release Remove_Zone_Finalizer \<longleftrightarrow> True"
| "is_release Remove_Unit_Finalizer \<longleftrightarrow> True"
| "is_release Delete_Unit \<longleftrightarrow> True"
| "is_release _ \<longleftrightarrow> False"

definition releases :: "action list \<Rightarrow> action list" where
  "releases = filter is_release"

lemma releases_simps [simp]: "releases [] = []" "releases (a # as) = (if is_release a then a # releases as else releases as)"
  "releases (as @ bs) = releases as @ releases bs"
  by (simp_all add: releases_def)

lemma releases_none: "(\<And>a. a \<in> set as \<Longrightarrow> \<not> is_release a) \<Longrightarrow> releases as = []"
  by (simp add: releases_def)

lemma releases_status [simp]: "releases (set_zone_status env zone zs acc prog p) = []"
  "releases (fst (set_record_set_status env r acc prog z q sts)) = []"
  by (simp_all add: set_zone_status_def set_record_set_status_def Let_def)

lemma releases_concat: "(\<And>x. x \<in> set xs \<Longrightarrow> releases (f x) = []) \<Longrightarrow> releases (concat (map f xs)) = []"
  by (induction xs) simp_all

lemma releases_writes [simp]: "releases (write_waiting env rs reason sts) = []" "releases (write_not_accepted env rs reason sts) = []"
  by (simp_all add: write_waiting_def write_not_accepted_def write_record_sets_def releases_concat)

lemma releases_rejected [simp]: "releases (fst (write_rejected env zone rjs sts)) = []"
proof (induction rjs arbitrary: sts)
  case (Cons rj rjs)
  then show ?case
    by (simp add: Let_def split: prod.splits) (metis fst_conv releases_status(2))
qed simp

lemma releases_project [simp]: "releases (project_unit_status env zone zs rs sts spec status) = []"
proof -
  have "releases (project_set env zone items results sts r) = []" for items results r
    by (simp add: project_set_def Let_def split: option.splits)
  then show ?thesis by (simp add: project_unit_status_def releases_concat Let_def split: option.splits)
qed

lemma releases_apply [simp]: "releases (fst (apply_unit cur m spec create)) = []"
  by (simp add: apply_unit_def Let_def split: sum.splits)

lemma releases_compose [simp]: "releases (cp_actions (compose_items env zone zc prov storage rs existing st)) = []"
proof -
  have "releases (as_actions (fold (accept_one env zone prov storage st ex pe) qs acc)) = releases (as_actions acc)" for ex pe qs acc
  proof (induction qs arbitrary: acc)
    case (Cons q qs)
    from acceptance.step_placed [of env zone prov storage st q acc ex pe] have
      "releases (as_actions (accept_one env zone prov storage st ex pe q acc)) = releases (as_actions acc)"
      by cases auto
    with Cons show ?case by simp
  qed simp
  then have acc: "releases (as_actions (accepted_items env zone prov storage st qs existing)) = []" for qs
    by (simp add: accepted_items_def Let_def)
  have "releases (fst (retained_not_allowed st ex rjs)) = []" for ex rjs
    by (induction rjs) (auto simp: Let_def split: prod.splits option.splits)
  then have "releases x = []" if "retained_not_allowed st ex rjs = (x, y)" for ex rjs x y using that by (metis fst_conv)
  with acc show ?thesis by (simp add: compose_items_def Let_def split: prod.splits)
qed

text \<open>What is left of a pass once only its releases are looked at.\<close>

definition unit_releases :: "zone_unit option \<Rightarrow> action list" where
  "unit_releases unit = (case unit of None \<Rightarrow> [Remove_Zone_Finalizer]
     | Some u \<Rightarrow> if \<not> deleting (unit_meta u) then [Delete_Unit]
         else if cleanup_completed (unit_meta u) then [Remove_Zone_Finalizer, Remove_Unit_Finalizer] else [])"

lemma finish_deleting_releases:
  "releases (fst (finish_deleting env w zone zs unit spec sets withdrawals))
     = (if sets > 0 \<or> withdrawals > 0 then [] else unit_releases unit)"
  by (auto simp: finish_deleting_def unit_releases_def split: option.splits prod.splits)
    (metis fst_conv releases_apply)+

lemma finish_live_releases: "releases (fst (finish_live env w zone zs unit spec rs sts)) = []"
  by (auto simp: finish_live_def split: option.splits prod.splits) (metis fst_conv releases_apply)+

lemma reconcile_accepted_releases:
  "releases (fst (reconcile_accepted env w rs unit zone zs zc prov input storage withdrawals)) =
     (if deleting (zone_meta zone) \<and> rs = [] \<and> withdrawals = 0
         \<and> (\<exists>p. convert_payload (co_contract env) \<lparr>ci_provider = Some prov, ci_target = TargetZone, ci_from = Some input,
          ci_to = Some storage, ci_payload = empty_payload\<lparr>pl_adoption := zs_adoption (zone_rspec zone)\<rparr>,
          ci_context = co_zone_context env zone\<rparr> = Inr p)
      then unit_releases unit else [])"
proof (cases "convert_payload (co_contract env) \<lparr>ci_provider = Some prov, ci_target = TargetZone, ci_from = Some input,
          ci_to = Some storage, ci_payload = empty_payload\<lparr>pl_adoption := zs_adoption (zone_rspec zone)\<rparr>,
          ci_context = co_zone_context env zone\<rparr>")
  case (Inl e)
  then show ?thesis by (simp add: reconcile_accepted_def Let_def)
next
  case (Inr p)
  then show ?thesis
    by (cases "deleting (zone_meta zone)")
      (simp_all add: reconcile_accepted_def Let_def case_prod_unfold finish_deleting_releases finish_live_releases)
qed

text \<open>The releases of a whole pass.\<close>

definition zone_resolved :: "'c core_env \<Rightarrow> world \<Rightarrow> zone_res \<Rightarrow> bool" where
  "zone_resolved env w zone \<longleftrightarrow> (\<exists>zc prov input storage p. wo_class w (zone_class_key zone) = Inr (Some zc)
     \<and> zs_provider (zone_rspec zone) = zc_provider zc
     \<and> zone_allowed_by_class (co_decl env) zc (om_namespace (zone_meta zone)) = Inr True
     \<and> wo_provider w (pr_name (zc_provider zc)) = Inr (Some prov)
     \<and> served_version prov (pr_version (zs_provider (zone_rspec zone))) = Some input
     \<and> storage_version (Some prov) = Some storage
     \<and> convert_payload (co_contract env) \<lparr>ci_provider = Some prov, ci_target = TargetZone, ci_from = Some input,
          ci_to = Some storage, ci_payload = empty_payload\<lparr>pl_adoption := zs_adoption (zone_rspec zone)\<rparr>,
          ci_context = co_zone_context env zone\<rparr> = Inr p)"

lemma reconcile_class_releases:
  "releases (fst (reconcile_class env w rs unit zone zs n)) =
     (if zone_resolved env w zone \<and> deleting (zone_meta zone) \<and> rs = [] \<and> n = 0 then unit_releases unit else [])"
  by (auto simp: reconcile_class_def reconcile_provider_def zone_resolved_def reconcile_accepted_releases Let_def
      split: sum.splits option.splits bool.splits)

lemma record_sets_for_zone_empty: "record_sets_for_zone all key = [] \<longleftrightarrow> (\<forall>r \<in> set all. record_set_zone_key r \<noteq> key)"
proof -
  have "set (record_sets_for_zone all key) = {r \<in> set all. record_set_zone_key r = key}" by (simp add: record_sets_for_zone_def)
  then show ?thesis by (metis (mono_tags, lifting) Collect_empty_eq set_empty)
qed

text \<open>
  C4. Deletion goes from the dependents outwards: the finalizer of a zone is removed only from a
  zone that is being deleted, that no record set or withdrawal refers to any more, and whose unit
  is gone or is itself being deleted with no provider finalizer left on it.
\<close>

theorem zone_released_last:
  assumes "Remove_Zone_Finalizer \<in> set (fst (reconcile_zone env w key withdrawals))"
  shows "\<exists>all zone zs unit. wo_record_sets w = Inr all \<and> wo_zone w = Inr (Some (zone, zs)) \<and> wo_unit w = Inr unit
    \<and> deleting (zone_meta zone) \<and> withdrawals = 0 \<and> (\<forall>r \<in> set all. record_set_zone_key r \<noteq> key)
    \<and> (\<forall>u. unit = Some u \<longrightarrow> deleting (unit_meta u) \<and> set (om_finalizers (unit_meta u)) \<subseteq> {core_unit_finalizer})"
proof -
  have r: "Remove_Zone_Finalizer \<in> set (releases (fst (reconcile_zone env w key withdrawals)))"
    using assms by (simp add: releases_def)
  then obtain all unit where a: "wo_record_sets w = Inr all" "wo_unit w = Inr unit"
    by (auto simp: reconcile_zone_def Let_def split: sum.splits)
  with r obtain zone zs where z: "wo_zone w = Inr (Some (zone, zs))"
    by (auto simp: reconcile_zone_def Let_def split: sum.splits option.splits if_splits)
  let ?rs = "record_sets_for_zone all key"
  from r a z have c: "Remove_Zone_Finalizer \<in> set (if zone_resolved env w zone \<and> deleting (zone_meta zone) \<and> ?rs = []
      \<and> withdrawals = 0 then unit_releases unit else [])"
    by (simp add: reconcile_zone_def Let_def reconcile_class_releases)
  then have d: "deleting (zone_meta zone)" "withdrawals = 0" "Remove_Zone_Finalizer \<in> set (unit_releases unit)" and e: "?rs = []"
    by (auto split: if_splits)
  from e have "\<forall>r \<in> set all. record_set_zone_key r \<noteq> key" by (simp add: record_sets_for_zone_empty)
  moreover from d(3) have "\<forall>u. unit = Some u \<longrightarrow> deleting (unit_meta u) \<and> set (om_finalizers (unit_meta u)) \<subseteq> {core_unit_finalizer}"
    by (auto simp: unit_releases_def cleanup_completed_def split: if_splits)
  ultimately show ?thesis using a z d by blast
qed


section \<open>What a claim may report\<close>

text \<open>
  The documented behaviour of \<open>meta.FindStatusCondition\<close> and \<open>meta.SetStatusCondition\<close>:
  the first condition of a type is found; what was set is found, with a transition time, and the
  other types are untouched.
\<close>

definition condition_laws :: "('c, 'a) core_env_scheme \<Rightarrow> bool" where
  "condition_laws env \<longleftrightarrow>
     (\<forall>cs c. \<exists>time. co_find_condition env (co_set_condition env cs c) (c_type c) = Some (c\<lparr>c_transition := time\<rparr>))
   \<and> (\<forall>cs c t. t \<noteq> c_type c \<longrightarrow> co_find_condition env (co_set_condition env cs c) t = co_find_condition env cs t)
   \<and> (\<forall>cs t. co_find_condition env cs t = find (\<lambda>c. c_type c = t) cs)"

lemma condition_lawsD:
  assumes "condition_laws env"
  shows "\<exists>time. co_find_condition env (co_set_condition env cs c) (c_type c) = Some (c\<lparr>c_transition := time\<rparr>)"
    and "t \<noteq> c_type c \<Longrightarrow> co_find_condition env (co_set_condition env cs c) t = co_find_condition env cs t"
    and "co_find_condition env cs t = find (\<lambda>c. c_type c = t) cs"
  using assms unfolding condition_laws_def by blast+

lemma claim_conditions_found:
  assumes "condition_laws env"
  shows "\<exists>time. co_find_condition env (claim_conditions env gen acc prog cs) Programmed
      = Some \<lparr>c_type = Programmed, c_status = pj_status prog, c_reason = pj_reason prog, c_message = pj_message prog,
          c_observed = gen, c_transition = time\<rparr>"
    and "\<exists>time. co_find_condition env (claim_conditions env gen acc prog cs) Accepted
      = Some \<lparr>c_type = Accepted, c_status = pj_status acc, c_reason = pj_reason acc, c_message = pj_message acc,
          c_observed = gen, c_transition = time\<rparr>"
proof -
  let ?a = "\<lparr>c_type = Accepted, c_status = pj_status acc, c_reason = pj_reason acc, c_message = pj_message acc,
          c_observed = gen, c_transition = 0\<rparr>"
  let ?p = "\<lparr>c_type = Programmed, c_status = pj_status prog, c_reason = pj_reason prog, c_message = pj_message prog,
          c_observed = gen, c_transition = 0\<rparr>"
  note found = condition_lawsD(1) [OF assms] and other = condition_lawsD(2) [OF assms]
  show "\<exists>time. co_find_condition env (claim_conditions env gen acc prog cs) Programmed
      = Some \<lparr>c_type = Programmed, c_status = pj_status prog, c_reason = pj_reason prog, c_message = pj_message prog,
          c_observed = gen, c_transition = time\<rparr>"
    using found [of "co_set_condition env cs ?a" ?p] by (simp add: claim_conditions_def)
  show "\<exists>time. co_find_condition env (claim_conditions env gen acc prog cs) Accepted
      = Some \<lparr>c_type = Accepted, c_status = pj_status acc, c_reason = pj_reason acc, c_message = pj_message acc,
          c_observed = gen, c_transition = time\<rparr>"
    using found [of cs ?a] other [of Accepted ?p "co_set_condition env cs ?a"] by (simp add: claim_conditions_def)
qed

lemma projected_True:
  "pj_status (projected_accepted env gen composition provided) = ConditionTrue \<longleftrightarrow>
     (\<exists>c. co_find_condition env provided Accepted = Some c \<and> c_observed c = gen \<and> c_status c = ConditionTrue)"
  "pj_status (projected_programmed env gen accepted provided) = ConditionTrue \<longleftrightarrow> accepted = ConditionTrue \<and>
     (\<exists>c. co_find_condition env provided Programmed = Some c \<and> c_observed c = gen \<and> c_status c = ConditionTrue)"
  by (auto simp: projected_accepted_def projected_programmed_def condition_at_def project_condition_def split: option.splits)

text \<open>
  The evidence for a programmed claim: a result of the provider for this incarnation of the claim
  and for the generation of its item, with both conditions true, that is no leftover of a
  completed deletion.
\<close>

definition provider_evidence :: "'c core_env \<Rightarrow> unit_record_set \<Rightarrow> unit_record_set_status \<Rightarrow> record_set \<Rightarrow> bool" where
  "provider_evidence env i p r \<longleftrightarrow> item_key i = set_key r \<and> status_key p = set_key r
     \<and> om_uid (rset_meta r) \<noteq> [] \<and> ur_uid i = om_uid (rset_meta r) \<and> us_uid p = om_uid (rset_meta r)
     \<and> us_observed p = ur_observed i \<and> (us_deletion_completed p \<longrightarrow> ur_deletion i)
     \<and> (\<exists>a g. co_find_condition env (us_conditions p) Accepted = Some a \<and> c_status a = ConditionTrue \<and> c_observed a = ur_observed i
          \<and> co_find_condition env (us_conditions p) Programmed = Some g \<and> c_status g = ConditionTrue \<and> c_observed g = ur_observed i)"

lemma set_record_set_status_patch:
  "Patch_Set_Status q s \<in> set (fst (set_record_set_status env r acc prog z p sts)) \<Longrightarrow>
     q = r \<and> s = set_claim_status env (rset_meta r) (sts (set_key r)) acc prog z p"
  by (auto simp: set_record_set_status_def Let_def split: if_splits)

lemma projected_evidence:
  assumes "Patch_Set_Status q s \<in> set (project_set env zone items results sts r)" and "co_find_condition env [] Accepted = None"
  shows "q = r \<and> (\<exists>acc prog z p. s = set_claim_status env (rset_meta r) (sts (set_key r)) acc prog z p
     \<and> (pj_status prog = ConditionTrue \<longrightarrow> (\<exists>i \<in> set items. \<exists>p \<in> set results. provider_evidence env i p r)))"
proof (cases "by_key item_key items (set_key r)")
  case None
  with assms(1) show ?thesis by (simp add: project_set_def Let_def)
next
  case (Some i)
  let ?desired = "by_key item_key items"
  let ?fit = "by_key status_key (filter (fitting_status ?desired) (filter (relevant_status ?desired) results)) (set_key r)"
  from Some assms(1) have m: "item_matches i r" by (auto simp: project_set_def Let_def split: if_splits)
  show ?thesis
  proof (cases ?fit)
    case None
    from Some m None assms(1) have "Patch_Set_Status q s \<in> set (fst (set_record_set_status env r (plain ConditionUnknown ''OwnerStateNotResolved'')
                (plain ConditionUnknown ''Reconciling'') (record_set_zone_status zone) (Some None) sts))"
      by (simp add: project_set_def Let_def split: if_splits)
    moreover have "pj_status (plain ConditionUnknown ''Reconciling'') \<noteq> ConditionTrue" by (simp add: plain_def)
    ultimately show ?thesis using set_record_set_status_patch by blast
  next
    case (Some p)
    let ?cs = "if us_observed p = ur_observed i then us_conditions p else []"
    let ?acc = "projected_accepted env (ur_observed i) (rst_conditions (sts (set_key r))) ?cs"
    let ?prog = "projected_programmed env (ur_observed i) (pj_status ?acc) ?cs"
    from \<open>?desired (set_key r) = Some i\<close> m Some assms(1) have
      "Patch_Set_Status q s \<in> set (fst (set_record_set_status env r ?acc ?prog (record_set_zone_status zone) (Some (us_provider p)) sts))"
      by (simp add: project_set_def Let_def)
    then have s: "q = r" "s = set_claim_status env (rset_meta r) (sts (set_key r)) ?acc ?prog (record_set_zone_status zone) (Some (us_provider p))"
      using set_record_set_status_patch by blast+
    from by_key_Some [OF \<open>?desired (set_key r) = Some i\<close>] by_key_Some [OF Some] have
      i: "i \<in> set items" "item_key i = set_key r" and p: "p \<in> set results" "status_key p = set_key r" "fitting_status ?desired p" by auto
    have "provider_evidence env i p r" if "pj_status ?prog = ConditionTrue"
      using that assms(2) i p m \<open>?desired (set_key r) = Some i\<close>
      by (auto simp: projected_True provider_evidence_def fitting_status_def stale_completed_def status_matches_def uids_match_def
          item_matches_def split: if_splits)
    with s i(1) p(1) show ?thesis by blast
  qed
qed


section \<open>Examples\<close>

definition demo_condition :: "string \<Rightarrow> condition" where
  "demo_condition t = \<lparr>c_type = t, c_status = ConditionTrue, c_reason = t, c_message = [], c_observed = 1, c_transition = 0\<rparr>"

definition demo_result :: unit_record_set_status where
  "demo_result = \<lparr>us_namespace = ''app'', us_name = ''www'', us_uid = ''uid-www'', us_observed = 1, us_provider = None,
     us_deletion_completed = False, us_conditions = [demo_condition ''Accepted'', demo_condition ''Programmed'']\<rparr>"

definition demo_unit_status :: unit_status where
  "demo_unit_status = \<lparr>ust_observed = 1, ust_conditions = [], ust_provider = None, ust_zone = None, ust_record_sets = [demo_result], ust_withdrawals = []\<rparr>"

definition demo_class :: zone_class where
  "demo_class = \<lparr>zc_meta = demo_meta ''dns'' ''class'', zc_provider = \<lparr>pr_name = ''p'', pr_version = ''v1''\<rparr>,
     zc_controller = ''p/controller'', zc_identity = None, zc_parameters = [],
     zc_allowed_zones = \<lparr>np_from = ''All'', np_selector = None\<rparr>, zc_conditions = []\<rparr>"

definition demo_unit_spec :: unit_spec where
  "demo_unit_spec = desired_spec demo_zone demo_class demo_provider demo_version [] [unit_item demo_record_set empty_payload] []"

definition demo_set_status :: record_set_status where
  "demo_set_status = \<lparr>rst_observed = 0, rst_zone = None, rst_provider = None, rst_conditions = []\<rparr>"

lemma demo_condition_laws: "condition_laws demo_core_env"
proof -
  have "find (\<lambda>d. c_type d = c_type c) (if \<exists>x \<in> set cs. c_type x = c_type c
      then map (\<lambda>x. if c_type x = c_type c then c else x) cs else cs @ [c]) = Some c" for cs and c :: condition
    by (induction cs) (auto split: if_splits)
  moreover have "find (\<lambda>d. c_type d = t) (if \<exists>x \<in> set cs. c_type x = c_type c
      then map (\<lambda>x. if c_type x = c_type c then c else x) cs else cs @ [c]) = find (\<lambda>d. c_type d = t) cs"
    if "t \<noteq> c_type c" for cs t and c :: condition
  proof -
    have "find (\<lambda>d. c_type d = t) (map (\<lambda>x. if c_type x = c_type c then c else x) cs) = find (\<lambda>d. c_type d = t) cs"
      using that by (induction cs) auto
    moreover have "find (\<lambda>d. c_type d = t) (cs @ [c]) = find (\<lambda>d. c_type d = t) cs"
      using that by (induction cs) auto
    ultimately show ?thesis by simp
  qed
  moreover have "\<exists>time. c = c\<lparr>c_transition := time\<rparr>" for c :: condition
    by (rule exI [of _ "c_transition c"]) simp
  ultimately show ?thesis
    unfolding condition_laws_def demo_core_env_def core_env.select_convs
    by (intro conjI allI impI) simp_all
qed


text \<open>A zone in deletion that nothing refers to, and its unit.\<close>

definition demo_deleting_zone :: zone_res where
  "demo_deleting_zone = demo_zone\<lparr>zone_meta := (zone_meta demo_zone)\<lparr>om_deletion := Some 7\<rparr>\<rparr>"

definition demo_world :: "zone_unit option \<Rightarrow> world" where
  "demo_world unit = \<lparr>wo_record_sets = Inr [], wo_statuses = (\<lambda>_. demo_set_status), wo_unit = Inr unit,
     wo_zone = Inr (Some (demo_deleting_zone, \<lparr>zst_observed = 1, zst_name_servers = [], zst_provider = None, zst_conditions = []\<rparr>)),
     wo_class = (\<lambda>_. Inr (Some demo_class)), wo_provider = (\<lambda>_. Inr (Some demo_provider)), wo_current = Inr (the unit)\<rparr>"

lemma demo_zone_resolved: "zone_resolved demo_core_env (demo_world unit) demo_deleting_zone"
  unfolding zone_resolved_def
  by (rule exI [of _ demo_class], rule exI [of _ demo_provider], rule exI [of _ demo_version], rule exI [of _ demo_version])
    (simp add: demo_world_def demo_class_def demo_deleting_zone_def demo_core_simps zone_allowed_by_class_def namespace_policy_from_def
      served_version_def storage_version_def convert_payload_def default_payload_def default_raw_def validate_payload_def
      validate_raw_def empty_payload_def demo_decl_env_def Let_def)

lemma demo_reconcile_releases: "releases (fst (reconcile_zone demo_core_env (demo_world unit) (''dns'', ''zone'') 0)) = unit_releases unit"
proof -
  have "deleting (zone_meta demo_deleting_zone)" by (simp add: demo_deleting_zone_def deleting_def)
  with demo_zone_resolved [of unit] show ?thesis
    by (simp add: reconcile_zone_def Let_def reconcile_class_releases record_sets_for_zone_def demo_world_def)
qed

theorem zone_released_last_witness: "deleting (zone_meta demo_deleting_zone)"
proof -
  have "Remove_Zone_Finalizer \<in> set (releases (fst (reconcile_zone demo_core_env (demo_world None) (''dns'', ''zone'') 0)))"
    unfolding demo_reconcile_releases by (simp add: unit_releases_def)
  then have "Remove_Zone_Finalizer \<in> set (fst (reconcile_zone demo_core_env (demo_world None) (''dns'', ''zone'') 0))"
    by (simp add: releases_def)
  from zone_released_last [OF this] show ?thesis by (auto simp: demo_world_def)
qed


theorem composed_items_distinct_witness:
  "distinct (map item_key (cp_items (compose_items demo_core_env demo_zone demo_class demo_provider demo_version [demo_record_set] []
     (\<lambda>_. None))))"
  by (rule composed_items_distinct) simp_all

end
