(* ===== verification/Core_Withdrawals.thy ===== *)
theory Core_Withdrawals
  imports Core_Reconcile
begin

text \<open>
  \<open>internal/go/core/controllers/zoneunit\<close>: withdrawal claims in the composition of a zone
  (\<open>withdrawals.go\<close>), the status of waivers (\<open>withdrawal_waivers.go\<close>) and the
  requests the watches of the controller make (\<open>zoneunit_watches.go\<close>).
\<close>

section \<open>Requests\<close>

definition withdrawal_zone_key :: "record_withdrawal \<Rightarrow> string \<times> string" where
  "withdrawal_zone_key c = (ref_namespace (om_namespace (rw_meta c)) (ws_zone_ref (rw_spec c)), zr_name (ws_zone_ref (rw_spec c)))"

definition object_key :: "object_meta \<Rightarrow> string \<times> string" where
  "object_key m = (om_namespace m, om_name m)"

definition map_record_set :: "record_set \<Rightarrow> (string \<times> string) list" where
  "map_record_set r = [record_set_zone_key r]"

definition map_unit :: "zone_unit \<Rightarrow> (string \<times> string) list" where
  "map_unit u = [(obr_namespace (uz_ref (un_zone (unit_rspec u))), obr_name (uz_ref (un_zone (unit_rspec u))))]"

definition map_class :: "go_error + zone_res list \<Rightarrow> zone_class \<Rightarrow> (string \<times> string) list" where
  "map_class zones zc = (case zones of Inl _ \<Rightarrow> []
     | Inr zs \<Rightarrow> map (\<lambda>z. object_key (zone_meta z)) (filter (\<lambda>z. zone_class_key z = object_key (zc_meta zc)) zs))"

definition map_provider :: "go_error + zone_res list \<Rightarrow> provider \<Rightarrow> (string \<times> string) list" where
  "map_provider zones p = (case zones of Inl _ \<Rightarrow> []
     | Inr zs \<Rightarrow> map (\<lambda>z. object_key (zone_meta z)) (filter (\<lambda>z. pr_name (zs_provider (zone_rspec z)) = prov_name p) zs))"

definition append_request :: "string \<times> string \<Rightarrow> (string \<times> string) list \<Rightarrow> (string \<times> string) list" where
  "append_request key requests = (if key \<in> set requests then requests else requests @ [key])"

definition map_namespace :: "go_error + zone_res list \<Rightarrow> go_error + record_set list \<Rightarrow> go_error + record_withdrawal list
    \<Rightarrow> string \<Rightarrow> (string \<times> string) list" where
  "map_namespace zones sets claims ns =
     (case zones of Inl _ \<Rightarrow> []
      | Inr zs \<Rightarrow>
        (let r1 = fold (\<lambda>z. append_request (object_key (zone_meta z))) (filter (\<lambda>z. om_namespace (zone_meta z) = ns) zs) [] in
         case sets of Inl _ \<Rightarrow> r1
         | Inr rs \<Rightarrow>
           (let r2 = fold (\<lambda>r. append_request (record_set_zone_key r)) (filter (\<lambda>r. om_namespace (rset_meta r) = ns) rs) r1 in
            case claims of Inl _ \<Rightarrow> r2
            | Inr cs \<Rightarrow> fold (\<lambda>c. append_request (withdrawal_zone_key c)) (filter (\<lambda>c. om_namespace (rw_meta c) = ns) cs) r2)))"

definition map_withdrawal :: "record_withdrawal \<Rightarrow> (string \<times> string) list" where
  "map_withdrawal c = [withdrawal_zone_key c]"

definition map_waiver :: "(string \<times> string \<Rightarrow> go_error + record_withdrawal) \<Rightarrow> withdrawal_waiver \<Rightarrow> (string \<times> string) list" where
  "map_waiver get w =
     (case get (wr_namespace (wv_withdrawal_ref (ww_spec w)), wr_name (wv_withdrawal_ref (ww_spec w))) of
        Inl _ \<Rightarrow> [] | Inr c \<Rightarrow> [withdrawal_zone_key c])"

definition map_claim_to_waivers :: "go_error + withdrawal_waiver list \<Rightarrow> object_meta \<Rightarrow> (string \<times> string) list" where
  "map_claim_to_waivers waivers m = (case waivers of Inl _ \<Rightarrow> []
     | Inr ws \<Rightarrow> map (\<lambda>w. object_key (ww_meta w)) (filter (\<lambda>w. wr_namespace (wv_withdrawal_ref (ww_spec w)) = om_namespace m
         \<and> wr_name (wv_withdrawal_ref (ww_spec w)) = om_name m) ws))"

section \<open>The claims of a zone\<close>

definition withdrawal_key :: "object_meta \<Rightarrow> string" where
  "withdrawal_key m = claim_key (om_namespace m) (om_name m)"

definition withdrawals_for_zone :: "record_withdrawal list \<Rightarrow> string \<times> string \<Rightarrow> record_withdrawal list" where
  "withdrawals_for_zone all key = sort_key (\<lambda>c. withdrawal_key (rw_meta c)) (filter (\<lambda>c. withdrawal_zone_key c = key) all)"

definition withdrawal_limit :: nat where "withdrawal_limit = 256"

text \<open>What the reads say about the zone: the version to verify with, the binding of the unit, admission.\<close>

record binding =
  bd_version :: "provider_version option"
  bd_valid :: bool
  bd_allowed :: bool

definition unit_binds :: "zone_res \<Rightarrow> zone_class \<Rightarrow> provider \<Rightarrow> provider_version \<Rightarrow> zone_unit \<Rightarrow> bool" where
  "unit_binds zone zc prov storage u \<longleftrightarrow>
     (let uz = un_zone (unit_rspec u) in
      \<not> deleting (unit_meta u)
      \<and> uz_ref uz = \<lparr>obr_namespace = om_namespace (zone_meta zone), obr_name = om_name (zone_meta zone)\<rparr>
      \<and> uz_observed uz = om_generation (zone_meta zone) \<and> uz_domain uz = zs_domain (zone_rspec zone)
      \<and> uz_class_ref uz = \<lparr>obr_namespace = om_namespace (zc_meta zc), obr_name = om_name (zc_meta zc)\<rparr>
      \<and> uz_class_uid uz = om_uid (zc_meta zc) \<and> uz_class_observed uz = om_generation (zc_meta zc)
      \<and> un_provider (unit_rspec u) = \<lparr>pr_name = prov_name prov, pr_version = pvn_name storage\<rparr>)"

definition withdrawal_supported :: "provider_version \<Rightarrow> bool" where
  "withdrawal_supported v \<longleftrightarrow> (case pvn_withdrawal v of None \<Rightarrow> False | Some w \<Rightarrow> pw_supported w)"

definition resolve_binding :: "'c core_env \<Rightarrow> (string \<times> string \<Rightarrow> go_error + zone_class option)
    \<Rightarrow> (string \<Rightarrow> go_error + provider option) \<Rightarrow> zone_res option \<Rightarrow> zone_unit option \<Rightarrow> go_error + binding" where
  "resolve_binding env classes providers zone unit =
     (let none = \<lparr>bd_version = None, bd_valid = False, bd_allowed = True\<rparr> in
      case zone of None \<Rightarrow> Inr none
      | Some z \<Rightarrow>
        (case classes (zone_class_key z) of
           Inl e \<Rightarrow> Inl e
         | Inr None \<Rightarrow> Inr none
         | Inr (Some zc) \<Rightarrow>
           if zc_provider zc \<noteq> zs_provider (zone_rspec z) then Inr none
           else (case zone_allowed_by_class (co_decl env) zc (om_namespace (zone_meta z)) of
               Inl e \<Rightarrow> Inl e
             | Inr allowed \<Rightarrow>
               (case providers (pr_name (zc_provider zc)) of
                  Inl e \<Rightarrow> Inl e
                | Inr None \<Rightarrow> Inr (none\<lparr>bd_allowed := allowed\<rparr>)
                | Inr (Some prov) \<Rightarrow>
                  (case (served_version prov (pr_version (zs_provider (zone_rspec z))), storage_version (Some prov)) of
                     (Some input, Some storage) \<Rightarrow>
                       Inr \<lparr>bd_version = (if withdrawal_supported input then Some storage else None),
                         bd_valid = (allowed \<and> (case unit of None \<Rightarrow> False | Some u \<Rightarrow> unit_binds z zc prov storage u)),
                         bd_allowed = allowed\<rparr>
                   | _ \<Rightarrow> Inr (none\<lparr>bd_allowed := allowed\<rparr>))))))"

text \<open>Reason and message of a claim's admission.\<close>

definition admission :: "'c core_env \<Rightarrow> binding \<Rightarrow> zone_res option \<Rightarrow> nat \<Rightarrow> record_withdrawal \<Rightarrow> string \<times> string" where
  "admission env b zone claims c =
     (let domain = (case zone of None \<Rightarrow> [] | Some z \<Rightarrow> zs_domain (zone_rspec z)) in
      if \<not> bd_allowed b then (''NotAllowed'', ''Zone namespace is not allowed by the referenced ZoneClass'')
      else if \<not> bd_valid b \<or> claims > withdrawal_limit
      then (''InvalidWithdrawal'', ''Withdrawal Zone binding is unavailable or exceeds the 256 claim limit'')
      else if (case bd_version b of None \<Rightarrow> True | Some v \<Rightarrow> \<not> withdrawal_supported v)
      then (''UnsupportedProvider'', ''The bound Provider version does not support record withdrawal'')
      else (case validate_withdrawal (co_decl env) c of
          Some e \<Rightarrow> (''InvalidWithdrawal'', e)
        | None \<Rightarrow>
          if length (ws_name (rw_spec c)) + length domain + 1 > 253 \<and> ws_name (rw_spec c) \<noteq> ''@''
          then (''InvalidWithdrawal'', ''Withdrawal owner and Zone domain exceed the maximum DNS name length'')
          else (case zone of
              None \<Rightarrow> (''Accepted'', ''Withdrawal binding, grants and provider capability are accepted'')
            | Some z \<Rightarrow>
              (case withdrawal_allowed_by_zone (co_decl env) c z of
                 (True, _) \<Rightarrow> (''Accepted'', ''Withdrawal binding, grants and provider capability are accepted'')
               | (False, detail) \<Rightarrow> (''NotAllowed'', detail)))))"

text \<open>The first waiver, in the order of names, that matches an accepted claim.\<close>

definition claim_waiver :: "'c core_env \<Rightarrow> withdrawal_waiver list \<Rightarrow> record_withdrawal \<Rightarrow> waiver_reference option" where
  "claim_waiver env waivers c =
     map_option (\<lambda>w. \<lparr>wvr_name = om_name (ww_meta w), wvr_uid = om_uid (ww_meta w),
         wvr_digest = de_waiver_digest (co_decl env) (ww_spec w), wvr_reservation_ref = wv_reservation_ref (ww_spec w)\<rparr>)
       (find (\<lambda>w. wr_namespace (wv_withdrawal_ref (ww_spec w)) = om_namespace (rw_meta c)
           \<and> wr_name (wv_withdrawal_ref (ww_spec w)) = om_name (rw_meta c) \<and> waiver_matches (co_decl env) w c) waivers)"

definition withdrawal_item :: "'c core_env \<Rightarrow> withdrawal_waiver list \<Rightarrow> record_withdrawal \<Rightarrow> bool \<Rightarrow> unit_withdrawal" where
  "withdrawal_item env waivers c allowed =
     \<lparr>uw_claim_namespace = om_namespace (rw_meta c), uw_claim_name = om_name (rw_meta c), uw_claim = claim_ref (rw_meta c),
      uw_observed = om_generation (rw_meta c), uw_name = ws_name (rw_spec c), uw_address = ws_address (rw_spec c),
      uw_allowed = allowed, uw_waiver = (if allowed then claim_waiver env waivers c else None)\<rparr>"

section \<open>Status of a claim\<close>

abbreviation Withdrawn :: string where "Withdrawn \<equiv> ''Withdrawn''"
abbreviation Ready :: string where "Ready \<equiv> ''Ready''"
abbreviation OverrideAccepted :: string where "OverrideAccepted \<equiv> ''OverrideAccepted''"

text \<open>The results of the unit are read only when they are current and the unit holds this very item.\<close>

definition result_matches :: "record_withdrawal \<Rightarrow> unit_withdrawal \<Rightarrow> unit_withdrawal_status \<Rightarrow> bool" where
  "result_matches c item s \<longleftrightarrow> uws_claim s = uw_claim item \<and> uws_claim_namespace s = om_namespace (rw_meta c)
     \<and> uws_claim_name s = om_name (rw_meta c) \<and> uws_observed s = om_generation (rw_meta c)"

definition project_withdrawal :: "'c core_env \<Rightarrow> record_withdrawal \<Rightarrow> unit_withdrawal \<Rightarrow> zone_unit
    \<Rightarrow> withdrawal_status \<Rightarrow> withdrawal_status" where
  "project_withdrawal env c item u st =
     (let uz = un_zone (unit_rspec u); gen = om_generation (rw_meta c) in
      if ust_observed (unit_rstatus u) \<noteq> om_generation (unit_meta u) \<or> uz_class_uid uz = [] \<or> uz_class_observed uz < 1 then st
      else if item \<notin> set (un_withdrawals (unit_rspec u)) then st
      else (case find (result_matches c item) (ust_withdrawals (unit_rstatus u)) of
          None \<Rightarrow> st
        | Some res \<Rightarrow>
          (case (condition_at env (uws_conditions res) Withdrawn gen, condition_at env (uws_conditions res) Ready gen) of
             (Some withdrawn, Some ready) \<Rightarrow>
               (let st1 = st\<lparr>rws_policy := uws_policy res, rws_checked_names := uws_checked_names res,
                      rws_required_views := uws_required_views res, rws_sampled := uws_sampled res,
                      rws_absent_since := uws_absent_since res, rws_not_before := uws_not_before res,
                      rws_last_probe := uws_last_probe res, rws_next_probe := uws_next_probe res,
                      rws_verified_at := uws_verified_at res, rws_digest := uws_digest res,
                      rws_provider := (case uws_provider res of None \<Rightarrow> rws_provider st
                        | Some p \<Rightarrow> Some \<lparr>ps_data = ps_data p, ps_state = []\<rparr>),
                      rws_conditions := rws_conditions st @ [withdrawn, ready]\<rparr> in
                case (uw_waiver item, uws_waiver res) of
                  (Some w, Some wr) \<Rightarrow>
                    if wr = w then
                      (case condition_at env (uws_conditions res) OverrideAccepted gen of
                         None \<Rightarrow> st1
                       | Some override \<Rightarrow>
                         if c_status override = ConditionTrue \<and> c_reason override = ''OperatorAuthorizedRelease''
                         then st1\<lparr>rws_waiver := Some wr, rws_conditions := rws_conditions st1 @ [override]\<rparr> else st1)
                    else st1
                | _ \<Rightarrow> st1)
           | _ \<Rightarrow> st)))"

definition no_observation :: "int \<Rightarrow> condition list" where
  "no_observation gen =
     (let c = (\<lambda>t s. \<lparr>c_type = t, c_status = s, c_reason = ''DNSProbeFailed'',
            c_message = ''No current identity-bound withdrawal observation is available'', c_observed = gen, c_transition = 0\<rparr>)
      in [c Withdrawn ConditionUnknown, c Ready ConditionFalse])"

definition empty_withdrawal_status :: withdrawal_status where
  "empty_withdrawal_status = \<lparr>rws_observed = 0, rws_zone = None, rws_unit = None, rws_provider_ref = None, rws_policy = [],
     rws_checked_names = [], rws_required_views = [], rws_sampled = False, rws_absent_since = None, rws_not_before = None,
     rws_last_probe = None, rws_next_probe = None, rws_verified_at = None, rws_digest = [], rws_provider = None,
     rws_waiver = None, rws_conditions = []\<rparr>"

text \<open>The status built for a claim before it is merged into the stored conditions.\<close>

definition withdrawal_status_of :: "'c core_env \<Rightarrow> zone_res option \<Rightarrow> zone_unit option \<Rightarrow> record_withdrawal \<Rightarrow> unit_withdrawal
    \<Rightarrow> string \<times> string \<Rightarrow> withdrawal_status" where
  "withdrawal_status_of env zone unit c item adm =
     (let gen = om_generation (rw_meta c);
          base = empty_withdrawal_status\<lparr>rws_observed := gen,
            rws_zone := map_option (\<lambda>z. claim_ref (zone_meta z)) zone,
            rws_unit := map_option (\<lambda>u. claim_ref (unit_meta u)) unit,
            rws_provider_ref := map_option (\<lambda>u. un_provider (unit_rspec u)) unit,
            rws_conditions := [\<lparr>c_type = Accepted, c_status = (if uw_allowed item then ConditionTrue else ConditionFalse),
              c_reason = fst adm, c_message = snd adm, c_observed = gen, c_transition = 0\<rparr>]\<rparr>;
          st = (case unit of Some u \<Rightarrow> if uw_allowed item then project_withdrawal env c item u base else base | None \<Rightarrow> base)
      in if co_find_condition env (rws_conditions st) Withdrawn = None
         then st\<lparr>rws_conditions := rws_conditions st @ no_observation gen\<rparr> else st)"

text \<open>\<open>setWithdrawalStatus\<close>; \<open>remove\<close> is \<open>meta.RemoveStatusCondition\<close>.\<close>

definition merge_withdrawal_status :: "'c core_env \<Rightarrow> (condition list \<Rightarrow> string \<Rightarrow> condition list) \<Rightarrow> withdrawal_status
    \<Rightarrow> withdrawal_status \<Rightarrow> withdrawal_status" where
  "merge_withdrawal_status env remove old st =
     (let cs = fold (\<lambda>c acc. co_set_condition env acc c) (rws_conditions st) (rws_conditions old)
      in st\<lparr>rws_conditions := (if rws_waiver st = None then remove cs OverrideAccepted else cs)\<rparr>)"

section \<open>Reconciling the claims\<close>

datatype withdrawal_action =
    Patch_Withdrawal_Status record_withdrawal withdrawal_status
  | Patch_Unit_Withdrawals "unit_withdrawal list"

record withdrawal_world =
  ww_zone :: "go_error + zone_res option"
  ww_unit :: "go_error + zone_unit option"
  ww_class :: "string \<times> string \<Rightarrow> go_error + zone_class option"
  ww_provider :: "string \<Rightarrow> go_error + provider option"
  ww_waivers :: "go_error + withdrawal_waiver list"
  ww_statuses :: "record_withdrawal \<Rightarrow> withdrawal_status"
  ww_remove :: "condition list \<Rightarrow> string \<Rightarrow> condition list"

text \<open>Above the limit the previous items are kept, disallowed and without waivers.\<close>

definition retained_withdrawals :: "zone_unit option \<Rightarrow> nat \<Rightarrow> unit_withdrawal list" where
  "retained_withdrawals unit claims =
     (if claims > withdrawal_limit
      then map (\<lambda>i. i\<lparr>uw_allowed := False, uw_waiver := None\<rparr>) (case unit of None \<Rightarrow> [] | Some u \<Rightarrow> un_withdrawals (unit_rspec u))
      else [])"

definition admitted_item :: "'c core_env \<Rightarrow> binding \<Rightarrow> zone_res option \<Rightarrow> nat \<Rightarrow> withdrawal_waiver list \<Rightarrow> record_withdrawal
    \<Rightarrow> unit_withdrawal" where
  "admitted_item env b zone n waivers c = withdrawal_item env waivers c (fst (admission env b zone n c) = ''Accepted'')"

definition withdrawal_items :: "'c core_env \<Rightarrow> binding \<Rightarrow> zone_res option \<Rightarrow> zone_unit option \<Rightarrow> withdrawal_waiver list
    \<Rightarrow> record_withdrawal list \<Rightarrow> unit_withdrawal list" where
  "withdrawal_items env b zone unit waivers claims =
     retained_withdrawals unit (length claims)
     @ map (admitted_item env b zone (length claims) waivers)
         (filter (\<lambda>c. length claims \<le> withdrawal_limit \<and> validate_withdrawal (co_decl env) c = None) claims)"

definition withdrawal_writes :: "'c core_env \<Rightarrow> withdrawal_world \<Rightarrow> binding \<Rightarrow> zone_res option \<Rightarrow> zone_unit option
    \<Rightarrow> withdrawal_waiver list \<Rightarrow> record_withdrawal list \<Rightarrow> withdrawal_action list" where
  "withdrawal_writes env w b zone unit waivers claims =
     concat (map (\<lambda>c.
        let st = merge_withdrawal_status env (ww_remove w) (ww_statuses w c)
              (withdrawal_status_of env zone unit c (admitted_item env b zone (length claims) waivers c)
                 (admission env b zone (length claims) c))
        in if st = ww_statuses w c then [] else [Patch_Withdrawal_Status c st]) claims)"

definition reconcile_withdrawals :: "'c core_env \<Rightarrow> withdrawal_world \<Rightarrow> record_withdrawal list
    \<Rightarrow> withdrawal_action list \<times> go_error option" where
  "reconcile_withdrawals env w claims =
     (case ww_zone w of Inl e \<Rightarrow> ([], Some e)
      | Inr zone \<Rightarrow>
        (case ww_unit w of Inl e \<Rightarrow> ([], Some e)
         | Inr unit \<Rightarrow>
           (case resolve_binding env (ww_class w) (ww_provider w) zone unit of
              Inl e \<Rightarrow> ([], Some e)
            | Inr b \<Rightarrow>
              (case (if claims = [] then Inr [] else ww_waivers w) of
                 Inl e \<Rightarrow> ([], Some e)
               | Inr ws \<Rightarrow>
                 (let waivers = sort_key (\<lambda>v. withdrawal_key (ww_meta v)) ws;
                      items = withdrawal_items env b zone unit waivers claims;
                      writes = withdrawal_writes env w b zone unit waivers claims
                  in (writes @ (case unit of None \<Rightarrow> []
                        | Some u \<Rightarrow> if deleting (unit_meta u) \<or> un_withdrawals (unit_rspec u) = items then []
                            else [Patch_Unit_Withdrawals items]), None))))))"

section \<open>Waivers (withdrawal\_waivers.go)\<close>

definition waiver_valid :: "'c core_env \<Rightarrow> withdrawal_waiver \<Rightarrow> record_withdrawal option \<Rightarrow> bool" where
  "waiver_valid env w c = (case c of None \<Rightarrow> False | Some x \<Rightarrow> waiver_matches (co_decl env) w x)"

definition waiver_condition :: "int \<Rightarrow> bool \<Rightarrow> condition" where
  "waiver_condition gen valid =
     (if valid then \<lparr>c_type = Accepted, c_status = ConditionTrue, c_reason = ''Accepted'',
        c_message = ''Waiver is bound to the exact claim and receiving reservation'', c_observed = gen, c_transition = 0\<rparr>
      else \<lparr>c_type = Accepted, c_status = ConditionFalse, c_reason = ''InvalidWithdrawal'',
        c_message = ''Waiver does not match the exact claim UID, immutable spec digest and address'', c_observed = gen, c_transition = 0\<rparr>)"

text \<open>A pass over a waiver: the new observed generation and conditions, or nothing when they are unchanged.\<close>

definition reconcile_waiver :: "'c core_env \<Rightarrow> go_error + withdrawal_waiver option \<Rightarrow> go_error + record_withdrawal option
    \<Rightarrow> int \<times> condition list \<Rightarrow> go_error + (int \<times> condition list) option" where
  "reconcile_waiver env waiver claim old =
     (case waiver of Inl e \<Rightarrow> Inl e
      | Inr None \<Rightarrow> Inr None
      | Inr (Some w) \<Rightarrow>
        (case claim of Inl e \<Rightarrow> Inl e
         | Inr c \<Rightarrow>
           (let gen = om_generation (ww_meta w);
                new = (gen, co_set_condition env (snd old) (waiver_condition gen (waiver_valid env w c)))
            in Inr (if new = old then None else Some new))))"

section \<open>Facts\<close>

lemma append_request_facts:
  "distinct rs \<Longrightarrow> distinct (fold (\<lambda>x. append_request (key x)) xs rs)"
  "set (fold (\<lambda>x. append_request (key x)) xs rs) = set rs \<union> key ` set xs"
  by (induction xs arbitrary: rs) (auto simp: append_request_def)

lemma claim_waiver_Some:
  assumes "claim_waiver env waivers c = Some r"
  shows "\<exists>w \<in> set waivers. waiver_matches (co_decl env) w c \<and> wvr_name r = om_name (ww_meta w) \<and> wvr_uid r = om_uid (ww_meta w)
    \<and> wvr_digest r = de_waiver_digest (co_decl env) (ww_spec w) \<and> wvr_reservation_ref r = wv_reservation_ref (ww_spec w)"
  using assms by (auto simp: claim_waiver_def find_Some_iff)

lemma admission_limit: "claims > withdrawal_limit \<Longrightarrow> fst (admission env b zone claims c) \<noteq> ''Accepted''"
  by (simp add: admission_def Let_def)

lemma find_set_conditions:
  assumes "condition_laws env"
  shows "(\<exists>c \<in> set cs. c_type c = t) \<Longrightarrow>
     \<exists>c time. c \<in> set cs \<and> c_type c = t \<and> co_find_condition env (fold (\<lambda>c acc. co_set_condition env acc c) cs old) t = Some (c\<lparr>c_transition := time\<rparr>)"
    and "(\<forall>c \<in> set cs. c_type c \<noteq> t) \<Longrightarrow>
     co_find_condition env (fold (\<lambda>c acc. co_set_condition env acc c) cs old) t = co_find_condition env old t"
proof -
  note found = condition_lawsD(1) [OF assms] and other = condition_lawsD(2) [OF assms]
  show none: "co_find_condition env (fold (\<lambda>c acc. co_set_condition env acc c) cs old) t = co_find_condition env old t"
    if "\<forall>c \<in> set cs. c_type c \<noteq> t" for cs old
    using that by (induction cs arbitrary: old) (auto simp: other)
  show "\<exists>c time. c \<in> set cs \<and> c_type c = t \<and> co_find_condition env (fold (\<lambda>c acc. co_set_condition env acc c) cs old) t = Some (c\<lparr>c_transition := time\<rparr>)"
    if "\<exists>c \<in> set cs. c_type c = t" for cs old
    using that
  proof (induction cs arbitrary: old)
    case (Cons d cs)
    show ?case
    proof (cases "\<exists>c \<in> set cs. c_type c = t")
      case True
      from Cons.IH [OF True, of "co_set_condition env old d"] show ?thesis by auto
    next
      case False
      with Cons.prems have "c_type d = t" by auto
      with none [of cs "co_set_condition env old d"] False found [of old d] show ?thesis by auto
    qed
  qed simp
qed

text \<open>Evidence for a withdrawn claim in the unit.\<close>

definition withdrawn_evidence :: "'c core_env \<Rightarrow> record_withdrawal \<Rightarrow> unit_withdrawal \<Rightarrow> zone_unit \<Rightarrow> bool" where
  "withdrawn_evidence env c item u \<longleftrightarrow> ust_observed (unit_rstatus u) = om_generation (unit_meta u)
     \<and> uz_class_uid (un_zone (unit_rspec u)) \<noteq> [] \<and> 1 \<le> uz_class_observed (un_zone (unit_rspec u))
     \<and> item \<in> set (un_withdrawals (unit_rspec u))
     \<and> (\<exists>res \<in> set (ust_withdrawals (unit_rstatus u)). uws_claim res = claim_ref (rw_meta c)
          \<and> uws_observed res = om_generation (rw_meta c)
          \<and> (\<exists>g. co_find_condition env (uws_conditions res) Withdrawn = Some g \<and> c_status g = ConditionTrue
               \<and> c_observed g = om_generation (rw_meta c)))"

lemma withdrawal_status_evidence:
  assumes "condition_laws env" and "uw_claim item = claim_ref (rw_meta c)"
    and "g \<in> set (rws_conditions (withdrawal_status_of env zone unit c item adm))" and "c_type g = Withdrawn" and "c_status g = ConditionTrue"
  shows "uw_allowed item \<and> (\<exists>u. unit = Some u \<and> withdrawn_evidence env c item u)"
proof -
  note first = condition_lawsD(3) [OF assms(1)]
  have nobs: "h \<notin> set (no_observation gen)" if "c_type h = Withdrawn" "c_status h = ConditionTrue" for h gen
    using that by (auto simp: no_observation_def Let_def)
  have proj: "withdrawn_evidence env c item u"
    if g: "g \<in> set (rws_conditions (project_withdrawal env c item u base))" and base: "\<forall>h \<in> set (rws_conditions base). c_type h = Accepted" for u base
  proof -
    let ?gen = "om_generation (rw_meta c)"
    from base assms(4) have nb: "g \<notin> set (rws_conditions base)" by auto
    from g nb have cur: "ust_observed (unit_rstatus u) = om_generation (unit_meta u)" "uz_class_uid (un_zone (unit_rspec u)) \<noteq> []"
        "1 \<le> uz_class_observed (un_zone (unit_rspec u))" "item \<in> set (un_withdrawals (unit_rspec u))"
      by (auto simp: project_withdrawal_def Let_def split: if_splits)
    from g nb cur obtain res where r: "find (result_matches c item) (ust_withdrawals (unit_rstatus u)) = Some res"
      by (auto simp: project_withdrawal_def Let_def split: option.splits)
    from g nb cur r obtain x y where w: "condition_at env (uws_conditions res) Withdrawn ?gen = Some x"
        "condition_at env (uws_conditions res) Ready ?gen = Some y"
      by (auto simp: project_withdrawal_def Let_def split: option.splits)
    have types: "c_type d = t" if "condition_at env cs t gen = Some d" for cs t gen d
      using that by (auto simp: condition_at_def first find_Some_iff split: option.splits if_splits)
    from g nb cur r w have "g \<in> {x, y} \<or> condition_at env (uws_conditions res) OverrideAccepted ?gen = Some g"
      by (auto simp: project_withdrawal_def Let_def split: option.splits if_splits)
    with types [of "uws_conditions res"] w assms(4) have "g = x" by auto
    with w(1) have "co_find_condition env (uws_conditions res) Withdrawn = Some g" "c_observed g = ?gen"
      by (auto simp: condition_at_def split: option.splits if_splits)
    moreover from r have "res \<in> set (ust_withdrawals (unit_rstatus u))" "result_matches c item res"
      by (auto simp: find_Some_iff)
    ultimately show ?thesis
      using cur assms(2,5) unfolding withdrawn_evidence_def result_matches_def by auto
  qed
  show ?thesis
    using assms(3) nobs [OF assms(4,5)] proj assms(4)
    by (auto simp: withdrawal_status_of_def Let_def split: option.splits if_splits)
qed

lemma withdrawal_status_observed:
  assumes "condition_laws env"
  shows "\<exists>g \<in> set (rws_conditions (withdrawal_status_of env zone unit c item adm)). c_type g = Withdrawn"
  by (auto simp: withdrawal_status_of_def Let_def condition_lawsD(3) [OF assms] find_None_iff no_observation_def)

definition remove_laws :: "'c core_env \<Rightarrow> (condition list \<Rightarrow> string \<Rightarrow> condition list) \<Rightarrow> bool" where
  "remove_laws env remove \<longleftrightarrow> (\<forall>cs t t'. co_find_condition env (remove cs t) t' = (if t' = t then None else co_find_condition env cs t'))"

lemma merged_withdrawn:
  assumes "condition_laws env" and "remove_laws env remove"
    and "co_find_condition env (rws_conditions (merge_withdrawal_status env remove old
          (withdrawal_status_of env zone unit c item adm))) Withdrawn = Some g" and "c_status g = ConditionTrue"
  shows "\<exists>h \<in> set (rws_conditions (withdrawal_status_of env zone unit c item adm)). c_type h = Withdrawn \<and> c_status h = ConditionTrue"
proof -
  let ?st = "withdrawal_status_of env zone unit c item adm"
  let ?cs = "fold (\<lambda>c acc. co_set_condition env acc c) (rws_conditions ?st) (rws_conditions old)"
  from withdrawal_status_observed [OF assms(1)] have "\<exists>h \<in> set (rws_conditions ?st). c_type h = Withdrawn" .
  from find_set_conditions(1) [OF assms(1) this] obtain h time where h: "h \<in> set (rws_conditions ?st)" "c_type h = Withdrawn"
      "co_find_condition env ?cs Withdrawn = Some (h\<lparr>c_transition := time\<rparr>)" by blast
  have "co_find_condition env ?cs Withdrawn = Some g"
    using assms(3) assms(2) [unfolded remove_laws_def, rule_format, of ?cs OverrideAccepted Withdrawn]
    by (simp add: merge_withdrawal_status_def Let_def split: if_splits)
  with h assms(4) show ?thesis by auto
qed

section \<open>Properties\<close>

text \<open>
  C3. A claim reports Withdrawn only on evidence: the condition is written as true only for a
  claim that is admitted now, with the very item the unit holds, from a result of this incarnation
  and generation of the claim in a unit whose status is current.
\<close>

theorem withdrawn_on_evidence:
  assumes "condition_laws env" and "remove_laws env (ww_remove w)"
    and "Patch_Withdrawal_Status c st \<in> set (fst (reconcile_withdrawals env w claims))"
    and "co_find_condition env (rws_conditions st) Withdrawn = Some g" and "c_status g = ConditionTrue"
  shows "c \<in> set claims \<and> (\<exists>u waivers. ww_unit w = Inr (Some u) \<and> withdrawn_evidence env c (withdrawal_item env waivers c True) u)"
proof -
  from assms(3) obtain zone unit b waivers where u: "ww_unit w = Inr unit" and c: "c \<in> set claims"
    and st: "st = merge_withdrawal_status env (ww_remove w) (ww_statuses w c)
              (withdrawal_status_of env zone unit c (admitted_item env b zone (length claims) waivers c)
                 (admission env b zone (length claims) c))"
    by (auto simp: reconcile_withdrawals_def withdrawal_writes_def Let_def split: sum.splits option.splits if_splits)
  let ?item = "admitted_item env b zone (length claims) waivers c"
  have item: "uw_claim ?item = claim_ref (rw_meta c)" "uw_allowed ?item \<Longrightarrow> ?item = withdrawal_item env waivers c True"
    by (auto simp: admitted_item_def withdrawal_item_def)
  from merged_withdrawn [OF assms(1,2) assms(4) [unfolded st] assms(5)] obtain h where
    "h \<in> set (rws_conditions (withdrawal_status_of env zone unit c ?item (admission env b zone (length claims) c)))"
    "c_type h = Withdrawn" "c_status h = ConditionTrue" by blast
  from withdrawal_status_evidence [OF assms(1) item(1) this] item(2) u c show ?thesis by fastforce
qed

text \<open>
  C32. The inventory of withdrawals in a unit never grows past its limit: more claims than the
  limit leave the previous identities in place, each disallowed and without a waiver.
\<close>

theorem withdrawal_inventory_bounded:
  assumes "\<forall>u. unit = Some u \<longrightarrow> length (un_withdrawals (unit_rspec u)) \<le> withdrawal_limit"
  shows "length (withdrawal_items env b zone unit waivers claims) \<le> withdrawal_limit
    \<and> (\<forall>i \<in> set (withdrawal_items env b zone unit waivers claims). uw_allowed i \<longrightarrow> length claims \<le> withdrawal_limit
         \<and> bd_valid b \<and> bd_allowed b)
    \<and> (length claims > withdrawal_limit \<longrightarrow> (\<forall>i \<in> set (withdrawal_items env b zone unit waivers claims). uw_waiver i = None)
         \<and> map uw_claim (withdrawal_items env b zone unit waivers claims)
             = (case unit of None \<Rightarrow> [] | Some u \<Rightarrow> map uw_claim (un_withdrawals (unit_rspec u))))"
proof (cases "length claims > withdrawal_limit")
  case True
  then have "withdrawal_items env b zone unit waivers claims = retained_withdrawals unit (length claims)"
    by (simp add: withdrawal_items_def)
  with True assms show ?thesis
    by (auto simp: retained_withdrawals_def comp_def split: option.splits)
next
  case False
  then have i: "withdrawal_items env b zone unit waivers claims = map (admitted_item env b zone (length claims) waivers)
      (filter (\<lambda>c. validate_withdrawal (co_decl env) c = None) claims)"
    by (simp add: withdrawal_items_def retained_withdrawals_def)
  have "bd_valid b \<and> bd_allowed b" if "uw_allowed (admitted_item env b zone n waivers c)" for n c
    using that by (auto simp: admitted_item_def withdrawal_item_def admission_def Let_def split: if_splits)
  moreover have "length (filter P claims) \<le> withdrawal_limit" for P
    using False by (meson length_filter_le le_trans not_le_imp_less)
  ultimately show ?thesis using False by (auto simp: i)
qed

text \<open>
  A waiver reaches the unit only with an admitted claim it is bound to, identified by its own
  name, UID and digest.
\<close>

theorem waiver_attached_bound:
  assumes "i \<in> set (withdrawal_items env b zone unit waivers claims)" and "uw_waiver i = Some r"
  shows "uw_allowed i \<and> (\<exists>c \<in> set claims. \<exists>w \<in> set waivers. waiver_matches (co_decl env) w c \<and> uw_claim i = claim_ref (rw_meta c)
    \<and> uw_address i = wv_address (ww_spec w) \<and> wvr_uid r = om_uid (ww_meta w) \<and> wvr_digest r = de_waiver_digest (co_decl env) (ww_spec w))"
proof -
  have "i \<notin> set (retained_withdrawals unit (length claims))"
    using assms(2) by (auto simp: retained_withdrawals_def split: if_splits)
  with assms(1) obtain c where c: "c \<in> set claims" and i: "i = admitted_item env b zone (length claims) waivers c"
    by (auto simp: withdrawal_items_def)
  from assms(2) have "uw_allowed i" "claim_waiver env waivers c = Some r"
    by (auto simp: i admitted_item_def withdrawal_item_def split: if_splits)
  moreover have "uw_claim i = claim_ref (rw_meta c)" "uw_address i = ws_address (rw_spec c)"
    by (simp_all add: i admitted_item_def withdrawal_item_def)
  moreover have "wv_address (ww_spec w) = ws_address (rw_spec c)" if "waiver_matches (co_decl env) w c" for w
    using that by (simp add: waiver_matches_def)
  ultimately show ?thesis using claim_waiver_Some c by metis
qed

text \<open>
  A change to a namespace requests each zone it can concern once: the zones in it and the
  zones its record sets and withdrawals refer to.
\<close>

theorem namespace_requests:
  "distinct (map_namespace zones sets claims ns)
   \<and> set (map_namespace (Inr zs) (Inr rs) (Inr cs) ns) = object_key ` zone_meta ` {z \<in> set zs. om_namespace (zone_meta z) = ns}
       \<union> record_set_zone_key ` {r \<in> set rs. om_namespace (rset_meta r) = ns}
       \<union> withdrawal_zone_key ` {c \<in> set cs. om_namespace (rw_meta c) = ns}"
  by (auto simp: map_namespace_def Let_def append_request_facts split: sum.splits)

section \<open>An example\<close>

text \<open>A claim whose withdrawal the provider has verified, in a unit that is bound to its zone.\<close>

definition demo_withdrawal_item :: unit_withdrawal where
  "demo_withdrawal_item = withdrawal_item demo_core_env [] demo_record_withdrawal True"

definition demo_withdrawal_result :: unit_withdrawal_status where
  "demo_withdrawal_result = \<lparr>uws_claim_namespace = ''app'', uws_claim_name = ''claim'', uws_claim = claim_ref (rw_meta demo_record_withdrawal),
     uws_observed = 1, uws_policy = [], uws_checked_names = [], uws_required_views = [], uws_sampled = False, uws_absent_since = None,
     uws_not_before = None, uws_last_probe = None, uws_next_probe = None, uws_verified_at = None, uws_digest = [], uws_provider = None,
     uws_waiver = None, uws_conditions = [demo_condition ''Withdrawn'', demo_condition ''Ready'']\<rparr>"

definition demo_bound_unit :: zone_unit where
  "demo_bound_unit = \<lparr>unit_meta = demo_meta ''dns'' ''zone'', unit_rspec = demo_unit_spec\<lparr>un_withdrawals := [demo_withdrawal_item]\<rparr>,
     unit_rstatus = \<lparr>ust_observed = 1, ust_conditions = [], ust_provider = None, ust_zone = None, ust_record_sets = [], ust_withdrawals = [demo_withdrawal_result]\<rparr>\<rparr>"

definition demo_withdrawal_world :: withdrawal_world where
  "demo_withdrawal_world = \<lparr>ww_zone = Inr (Some demo_zone), ww_unit = Inr (Some demo_bound_unit), ww_class = (\<lambda>_. Inr (Some demo_class)),
     ww_provider = (\<lambda>_. Inr (Some demo_provider)), ww_waivers = Inr [], ww_statuses = (\<lambda>_. empty_withdrawal_status),
     ww_remove = (\<lambda>cs t. filter (\<lambda>c. c_type c \<noteq> t) cs)\<rparr>"

definition demo_binding :: binding where
  "demo_binding = \<lparr>bd_version = Some demo_version, bd_valid = True, bd_allowed = True\<rparr>"

lemma demo_resolve_binding:
  "resolve_binding demo_core_env (\<lambda>_. Inr (Some demo_class)) (\<lambda>_. Inr (Some demo_provider)) (Some demo_zone) (Some demo_bound_unit)
    = Inr demo_binding"
  by (simp add: resolve_binding_def demo_class_def demo_core_simps zone_allowed_by_class_def namespace_policy_from_def served_version_def
      storage_version_def withdrawal_supported_def unit_binds_def demo_bound_unit_def demo_unit_spec_def desired_spec_def demo_binding_def
      deleting_def Let_def)

lemma demo_valid_withdrawal: "validate_withdrawal demo_decl_env demo_record_withdrawal = None"
  by code_simp

lemma demo_withdrawal_granted: "withdrawal_allowed_by_zone demo_decl_env demo_record_withdrawal demo_zone = (True, [])"
  by code_simp

lemma demo_admission: "admission demo_core_env demo_binding (Some demo_zone) 1 demo_record_withdrawal
    = (''Accepted'', ''Withdrawal binding, grants and provider capability are accepted'')"
proof -
  have "co_decl demo_core_env = demo_decl_env" "withdrawal_supported demo_version"
    "length (ws_name (rw_spec demo_record_withdrawal)) + length (zs_domain (zone_rspec demo_zone)) + 1 \<le> 253"
    by (simp_all add: demo_core_env_def withdrawal_supported_def demo_version_def demo_record_withdrawal_def demo_zone_def Let_def)
  then show ?thesis
    by (simp add: admission_def demo_binding_def demo_valid_withdrawal demo_withdrawal_granted withdrawal_limit_def)
qed

lemma demo_remove_laws: "remove_laws demo_core_env (ww_remove demo_withdrawal_world)"
proof -
  have "find (\<lambda>c. c_type c = t) (filter (\<lambda>c. c_type c \<noteq> t) cs) = None" for t and cs :: "condition list" by (induction cs) auto
  moreover have "t' \<noteq> t \<Longrightarrow> find (\<lambda>c. c_type c = t') (filter (\<lambda>c. c_type c \<noteq> t) cs) = find (\<lambda>c. c_type c = t') cs" for t t' and cs :: "condition list"
    by (induction cs) auto
  ultimately show ?thesis by (simp add: remove_laws_def demo_core_env_def demo_withdrawal_world_def)
qed

theorem withdrawal_inventory_bounded_witness:
  "length (withdrawal_items demo_core_env demo_binding (Some demo_zone) None [] [demo_record_withdrawal]) \<le> withdrawal_limit"
  using withdrawal_inventory_bounded [of None demo_core_env demo_binding "Some demo_zone" "[]" "[demo_record_withdrawal]"] by simp

theorem waiver_attached_bound_witness: "waiver_matches demo_decl_env demo_waiver demo_record_withdrawal"
proof -
  have m: "waiver_matches demo_decl_env demo_waiver demo_record_withdrawal" by code_simp
  have e: "co_decl demo_core_env = demo_decl_env" by (simp add: demo_core_env_def)
  let ?items = "withdrawal_items demo_core_env demo_binding (Some demo_zone) None [demo_waiver] [demo_record_withdrawal]"
  have items: "?items = [withdrawal_item demo_core_env [demo_waiver] demo_record_withdrawal True]"
    using demo_admission by (simp add: withdrawal_items_def retained_withdrawals_def withdrawal_limit_def e demo_valid_withdrawal admitted_item_def)
  obtain r where "uw_waiver (withdrawal_item demo_core_env [demo_waiver] demo_record_withdrawal True) = Some r"
    using m by (simp add: withdrawal_item_def claim_waiver_def e waiver_matches_def claim_ref_def)
  from waiver_attached_bound [of _ demo_core_env demo_binding "Some demo_zone" None "[demo_waiver]" "[demo_record_withdrawal]", OF _ this]
  show ?thesis by (simp add: items e)
qed

theorem withdrawn_on_evidence_witness: "withdrawn_evidence demo_core_env demo_record_withdrawal demo_withdrawal_item demo_bound_unit"
proof -
  have item: "admitted_item demo_core_env demo_binding (Some demo_zone) 1 [] demo_record_withdrawal = demo_withdrawal_item"
    using demo_admission by (simp add: admitted_item_def demo_withdrawal_item_def)
  let ?st = "merge_withdrawal_status demo_core_env (ww_remove demo_withdrawal_world) empty_withdrawal_status
     (withdrawal_status_of demo_core_env (Some demo_zone) (Some demo_bound_unit) demo_record_withdrawal demo_withdrawal_item
        (''Accepted'', ''Withdrawal binding, grants and provider capability are accepted''))"
  have w: "co_find_condition demo_core_env (rws_conditions ?st) Withdrawn = Some (demo_condition Withdrawn)" by code_simp
  then have "?st \<noteq> empty_withdrawal_status" by (auto simp: empty_withdrawal_status_def demo_core_env_def)
  then have p: "Patch_Withdrawal_Status demo_record_withdrawal ?st
      \<in> set (fst (reconcile_withdrawals demo_core_env demo_withdrawal_world [demo_record_withdrawal]))"
    using demo_admission item
    by (simp add: reconcile_withdrawals_def demo_withdrawal_world_def demo_resolve_binding withdrawal_writes_def Let_def)
  from withdrawn_on_evidence [OF demo_condition_laws demo_remove_laws p w] obtain u waivers where
    "ww_unit demo_withdrawal_world = Inr (Some u)"
    "withdrawn_evidence demo_core_env demo_record_withdrawal (withdrawal_item demo_core_env waivers demo_record_withdrawal True) u"
    by (auto simp: demo_condition_def)
  moreover from this have "u = demo_bound_unit" by (simp add: demo_withdrawal_world_def)
  ultimately have "withdrawal_item demo_core_env waivers demo_record_withdrawal True = demo_withdrawal_item"
    "withdrawn_evidence demo_core_env demo_record_withdrawal (withdrawal_item demo_core_env waivers demo_record_withdrawal True) demo_bound_unit"
    by (simp_all add: withdrawn_evidence_def demo_bound_unit_def)
  then show ?thesis by simp
qed

end
