(* ===== verification/Hosted_Render.thy ===== *)
theory Hosted_Render
  imports Api_Units Dns_Msg "HOL-Library.Product_Lexorder" "HOL-Library.Multiset"
begin

text \<open>
  \<open>internal/go/providers/hosted/render\<close>: the serving snapshot of a zone unit
  (\<open>render.go\<close>) and the digest of its content (\<open>digest.go\<close>). The functions of
  \<open>github.com/miekg/dns\<close>, the hash, the decoding of the previous receipt and the quoting of
  a text in an error message are parameters.
\<close>

record render_env =
  re_fqdn :: "string \<Rightarrow> string"
  re_new_rr :: "string \<Rightarrow> rr option"
  re_pack :: "rr \<Rightarrow> string option"
  re_sha256 :: "string \<Rightarrow> string"
  re_previous_digest :: "raw \<Rightarrow> string"
  re_quoted :: "string \<Rightarrow> string"

definition default_number :: "uint32 \<Rightarrow> uint32 \<Rightarrow> uint32" where
  "default_number value fallback = (if value = 0 then fallback else value)"

definition snapshot_name :: "string \<Rightarrow> string" where
  "snapshot_name v = trim_suffix (to_lower v) ''.''"

section \<open>Character strings\<close>

fun quote_char :: "char \<Rightarrow> string" where
  "quote_char c = (let n = (of_char c :: nat) in
     if c = CHR 0x22 \<or> c = CHR 0x5C then [CHR 0x5C, c]
     else if n < 32 \<or> n > 126 then [CHR 0x5C, char_of (48 + n div 100), char_of (48 + n div 10 mod 10), char_of (48 + n mod 10)]
     else [c])"

definition quote :: "string \<Rightarrow> string" where
  "quote s = CHR 0x22 # concat (map quote_char s) @ [CHR 0x22]"

text \<open>The loop of \<open>quoteTXT\<close>: \<open>written\<close> tells whether the output has begun.\<close>

function quote_chunks :: "bool \<Rightarrow> string \<Rightarrow> string" where
  "quote_chunks written s =
     (if s = [] then [] else (if written then '' '' else []) @ quote (take 255 s) @ quote_chunks True (drop 255 s))"
  by pat_completeness auto
termination by (relation "measure (\<lambda>(w, s). length s)") auto

declare quote_chunks.simps [simp del]

definition quote_txt :: "string \<Rightarrow> string" where
  "quote_txt s = (if length s \<le> 255 then quote s else quote_chunks False s)"

section \<open>One record\<close>

text \<open>The loop over addresses of one family.\<close>

fun render_addresses :: "render_env \<Rightarrow> string \<Rightarrow> (addr \<Rightarrow> bool) \<Rightarrow> string list \<Rightarrow> string + string list" where
  "render_addresses env kind ok [] = Inr []"
| "render_addresses env kind ok (v # vs) =
     (case parse_addr v of
        Some ip \<Rightarrow> if ok ip then (case render_addresses env kind ok vs of Inl e \<Rightarrow> Inl e | Inr xs \<Rightarrow> Inr (addr_string ip # xs))
                   else Inl (''invalid '' @ kind @ '' address '' @ re_quoted env v)
      | None \<Rightarrow> Inl (''invalid '' @ kind @ '' address '' @ re_quoted env v))"

text \<open>The rendered values, by type; an absent body renders no values.\<close>

definition render_values :: "render_env \<Rightarrow> unit_record_set \<Rightarrow> string + string list" where
  "render_values env item =
     (let p = ur_payload item; name = (\<lambda>v. re_fqdn env (snapshot_name v)) in
      if ur_type item = TypeA then (case rp_a p of None \<Rightarrow> Inr [] | Some vs \<Rightarrow> render_addresses env ''A'' is4 vs)
      else if ur_type item = TypeAAAA then (case rp_aaaa p of None \<Rightarrow> Inr [] | Some vs \<Rightarrow> render_addresses env ''AAAA'' is6 vs)
      else if ur_type item = TypeCNAME then Inr (case rp_cname p of None \<Rightarrow> [] | Some t \<Rightarrow> [name t])
      else if ur_type item = TypeNS then Inr (case rp_ns p of None \<Rightarrow> [] | Some vs \<Rightarrow> map name vs)
      else if ur_type item = TypeTXT then Inr (case rp_txt p of None \<Rightarrow> [] | Some vs \<Rightarrow> map quote_txt vs)
      else if ur_type item = TypeMX then Inr (case rp_mx p of None \<Rightarrow> []
        | Some ms \<Rightarrow> map (\<lambda>m. itoa (mx_preference m) @ '' '' @ name (mx_exchange m)) ms)
      else if ur_type item = TypeCAA then Inr (case rp_caa p of None \<Rightarrow> []
        | Some cs \<Rightarrow> map (\<lambda>c. itoa (caa_flags c) @ '' '' @ to_lower (caa_tag c) @ '' '' @ quote (caa_value c)) cs)
      else Inl (''unsupported hosted record type '' @ re_quoted env (ur_type item)))"

definition render_record :: "render_env \<Rightarrow> uint32 \<Rightarrow> unit_record_set \<Rightarrow> string + hosted_record" where
  "render_record env fallback item =
     (if (case ur_ttl item of None \<Rightarrow> False | Some t \<Rightarrow> t < 1) then Inl (''invalid TTL for '' @ ur_owner item)
      else (case render_values env item of
          Inl e \<Rightarrow> Inl e
        | Inr [] \<Rightarrow> Inl (''record '' @ ur_owner item @ ''/'' @ ur_type item @ '' has no values'')
        | Inr vs \<Rightarrow> Inr \<lparr>hr_name = to_lower (ur_owner item), hr_type = ur_type item,
            hr_ttl = (case ur_ttl item of None \<Rightarrow> fallback | Some t \<Rightarrow> word_of_int t), hr_values = vs\<rparr>))"

section \<open>The snapshot\<close>

text \<open>The records collected so far, by the key \<open>name/type\<close>.\<close>

type_synonym records = "(string \<times> hosted_record) list"

definition record_key :: "hosted_record \<Rightarrow> string" where
  "record_key r = hr_name r @ ''/'' @ hr_type r"

definition max_values :: nat where "max_values = 64"
definition max_rrsets :: nat where "max_rrsets = 10000"

definition add_record :: "hosted_record \<Rightarrow> records \<Rightarrow> string + records" where
  "add_record r recs =
     (let key = record_key r; old = map_of recs key;
          values = sort_compact ((case old of None \<Rightarrow> [] | Some o1 \<Rightarrow> hr_values o1) @ hr_values r) in
      if (case old of None \<Rightarrow> False | Some o1 \<Rightarrow> hr_ttl o1 \<noteq> hr_ttl r) then Inl (''conflicting TTLs for '' @ key)
      else if length values > max_values then Inl (''record '' @ key @ '' exceeds 64 values'')
      else Inr (map_put recs key (r\<lparr>hr_values := values\<rparr>)))"

fun render_items :: "render_env \<Rightarrow> uint32 \<Rightarrow> unit_record_set list \<Rightarrow> records \<Rightarrow> string + records" where
  "render_items env ttl [] recs = Inr recs"
| "render_items env ttl (i # is) recs =
     (if \<not> is_allowed i \<or> ur_deletion i then render_items env ttl is recs
      else if ur_owner i = ''@'' \<and> ur_type i = TypeNS then Inl ''apex NS is owned by nameServers''
      else (case render_record env ttl i of
          Inl e \<Rightarrow> Inl e
        | Inr r \<Rightarrow> (case add_record r recs of Inl e \<Rightarrow> Inl e | Inr recs1 \<Rightarrow> render_items env ttl is recs1)))"

text \<open>The addresses of a name server: their canonical text, and glue for a name in the zone.\<close>

fun render_glue :: "render_env \<Rightarrow> string \<Rightarrow> string \<Rightarrow> uint32 \<Rightarrow> string list \<Rightarrow> records \<Rightarrow> string + string list \<times> records" where
  "render_glue env domain server ttl [] recs = Inr ([], recs)"
| "render_glue env domain server ttl (a # as) recs =
     (case parse_addr a of None \<Rightarrow> Inl (''invalid name server address '' @ re_quoted env a)
      | Some ip \<Rightarrow>
        (case (if server \<noteq> domain \<and> \<not> has_suffix server (''.'' @ domain) then Inr recs
               else add_record \<lparr>hr_name = (if server = domain then ''@'' else trim_suffix server (''.'' @ domain)),
                  hr_type = (if is4 ip then TypeA else TypeAAAA), hr_ttl = ttl, hr_values = [addr_string ip]\<rparr> recs) of
           Inl e \<Rightarrow> Inl e
         | Inr recs1 \<Rightarrow>
           (case render_glue env domain server ttl as recs1 of
              Inl e \<Rightarrow> Inl e | Inr (xs, recs2) \<Rightarrow> Inr (addr_string ip # xs, recs2))))"

fun render_servers :: "render_env \<Rightarrow> string \<Rightarrow> uint32 \<Rightarrow> name_server list \<Rightarrow> records \<Rightarrow> string + name_server list \<times> records" where
  "render_servers env domain ttl [] recs = Inr ([], recs)"
| "render_servers env domain ttl (s # ss) recs =
     (let name = snapshot_name (nsv_name s) in
      case render_glue env domain name ttl (nsv_addresses s) recs of
        Inl e \<Rightarrow> Inl e
      | Inr (as, recs1) \<Rightarrow>
        (case render_servers env domain ttl ss recs1 of
           Inl e \<Rightarrow> Inl e
         | Inr (servers, recs2) \<Rightarrow> Inr (\<lparr>nsv_name = name, nsv_addresses = sort_compact as\<rparr> # servers, recs2)))"

section \<open>The digest (digest.go)\<close>

definition wire_number :: "nat \<Rightarrow> string" where
  "wire_number n = map char_of [n div 16777216 mod 256, n div 65536 mod 256, n div 256 mod 256, n mod 256]"

definition digest_soa :: "render_env \<Rightarrow> hosted_spec \<Rightarrow> rr" where
  "digest_soa env spec = (let name = (\<lambda>v. re_fqdn env (snapshot_name v)); s = hs_soa spec in
     RR_SOA \<lparr>rh_name = name (hs_domain spec), rh_class = class_INET, rh_ttl = 0\<rparr>
       \<lparr>sd_ns = name (soa_mname s), sd_mbox = name (soa_rname s), sd_serial = 0, sd_refresh = soa_refresh s,
        sd_retry = soa_retry s, sd_expire = soa_expire s, sd_minttl = soa_minimum s\<rparr>)"

text \<open>The records declared by a name server and by a record set; \<open>None\<close> when one cannot be built.\<close>

definition digest_server :: "render_env \<Rightarrow> string \<Rightarrow> name_server \<Rightarrow> rr option list" where
  "digest_server env apex s =
     (let name = re_fqdn env (snapshot_name (nsv_name s)) in
      Some (RR_NS \<lparr>rh_name = apex, rh_class = class_INET, rh_ttl = 0\<rparr> name)
      # map (\<lambda>a. case parse_addr a of None \<Rightarrow> None
          | Some ip \<Rightarrow> re_new_rr env (name @ '' 0 IN '' @ (if is4 ip then ''A'' else ''AAAA'') @ '' '' @ addr_string ip)) (nsv_addresses s))"

fun canonical_target :: "render_env \<Rightarrow> rr \<Rightarrow> rr" where
  "canonical_target env (RR_NS h t) = RR_NS h (re_fqdn env (snapshot_name t))"
| "canonical_target env (RR_CNAME h t) = RR_CNAME h (re_fqdn env (snapshot_name t))"
| "canonical_target env (RR_MX h p t) = RR_MX h p (re_fqdn env (snapshot_name t))"
| "canonical_target env r = r"

definition digest_record :: "render_env \<Rightarrow> string \<Rightarrow> hosted_record \<Rightarrow> rr option list" where
  "digest_record env domain r =
     (let name = (if hr_name r = ''@'' then snapshot_name domain else snapshot_name (hr_name r) @ ''.'' @ snapshot_name domain) in
      map (\<lambda>v. map_option (canonical_target env)
        (re_new_rr env (re_fqdn env name @ '' '' @ dec (unat (hr_ttl r)) @ '' IN '' @ hr_type r @ '' '' @ v))) (hr_values r))"

definition digest_rrs :: "render_env \<Rightarrow> hosted_spec \<Rightarrow> rr option list" where
  "digest_rrs env spec = Some (digest_soa env spec)
     # concat (map (digest_server env (re_fqdn env (snapshot_name (hs_domain spec)))) (hs_name_servers spec))
     @ concat (map (digest_record env (hs_domain spec)) (hs_records spec))"

text \<open>The first record that cannot be packed makes the digest empty.\<close>

definition content_digest :: "render_env \<Rightarrow> hosted_spec \<Rightarrow> string" where
  "content_digest env spec =
     (case those (map (\<lambda>r. Option.bind r (re_pack env)) (digest_rrs env spec)) of
        None \<Rightarrow> []
      | Some wire \<Rightarrow> ''sha256:'' @ re_sha256 env (concat (map (\<lambda>w. wire_number (length w) @ w) (sort_compact wire))))"

section \<open>Rendering\<close>

definition render_soa :: "string \<Rightarrow> class_parameters \<Rightarrow> soa" where
  "render_soa domain params =
     (let p = cp_soa params; rname = snapshot_name (sp_rname p) in
      \<lparr>soa_mname = snapshot_name (nsv_name (hd (cp_name_servers params))),
       soa_rname = (if rname = [] then ''hostmaster.'' @ domain else rname),
       soa_refresh = default_number (sp_refresh p) default_soa_refresh, soa_retry = default_number (sp_retry p) default_soa_retry,
       soa_expire = default_number (sp_expire p) default_soa_expire, soa_minimum = default_number (sp_minimum p) default_soa_minimum\<rparr>)"

definition render_serial :: "uint32 \<Rightarrow> string \<Rightarrow> string \<Rightarrow> gotime \<Rightarrow> uint32 option" where
  "render_serial previous previous_digest digest now =
     (if previous \<noteq> 0 \<and> previous_digest = digest then Some previous
      else if previous = 0xFFFFFFFF then None
      else Some (max (previous + 1) (word_of_int (unix_seconds now))))"

definition render_snapshot :: "render_env \<Rightarrow> zone_unit option \<Rightarrow> class_parameters \<Rightarrow> uint32 \<Rightarrow> gotime \<Rightarrow> string + hosted_spec" where
  "render_snapshot env unit params previous now =
     (case unit of
        None \<Rightarrow> Inl ''hosted rendering requires a ZoneUnit and at least one name server''
      | Some u \<Rightarrow>
        if cp_name_servers params = [] then Inl ''hosted rendering requires a ZoneUnit and at least one name server''
        else
          let domain = snapshot_name (uz_domain (un_zone (unit_rspec u))); ttl = default_number (cp_default_ttl params) default_ttl in
          (case render_items env ttl (un_record_sets (unit_rspec u)) [] of
             Inl e \<Rightarrow> Inl e
           | Inr recs \<Rightarrow>
             (case render_servers env domain ttl (cp_name_servers params) recs of
                Inl e \<Rightarrow> Inl e
              | Inr (servers, recs1) \<Rightarrow>
                (case add_record \<lparr>hr_name = ''@'', hr_type = TypeNS, hr_ttl = ttl,
                        hr_values = map (\<lambda>s. re_fqdn env (nsv_name s)) servers\<rparr> recs1 of
                   Inl e \<Rightarrow> Inl e
                 | Inr recs2 \<Rightarrow>
                   if length recs2 > max_rrsets then Inl ''snapshot exceeds 10000 RRsets''
                   else
                     let spec = \<lparr>hs_domain = domain, hs_serial = 0, hs_soa = render_soa domain params,
                            hs_name_servers = sort_key nsv_name servers,
                            hs_records = sort_key (\<lambda>r. (hr_name r, hr_type r)) (map snd recs2), hs_digest = []\<rparr>;
                         digest = content_digest env spec;
                         receipt = (case ust_zone (unit_rstatus u) of None \<Rightarrow> []
                           | Some z \<Rightarrow> (case uzs_provider z of None \<Rightarrow> [] | Some p \<Rightarrow> re_previous_digest env (ps_data p))) in
                     if digest = [] then Inl ''snapshot contains invalid DNS wire data''
                     else (case render_serial previous receipt digest now of
                         None \<Rightarrow> Inl ''hosted snapshot serial exhausted''
                       | Some serial \<Rightarrow> Inr (spec\<lparr>hs_digest := digest, hs_serial := serial\<rparr>))))))"

section \<open>Facts about the collected records\<close>

definition rows :: "hosted_record \<Rightarrow> (string \<times> string \<times> uint32 \<times> string) set" where
  "rows r = {(hr_name r, hr_type r, hr_ttl r, v) | v. v \<in> set (hr_values r)}"

definition all_rows :: "hosted_record list \<Rightarrow> (string \<times> string \<times> uint32 \<times> string) set" where
  "all_rows rs = \<Union> (rows ` set rs)"

text \<open>A record of the snapshot: its values are sorted, without duplicates, not empty and bounded.\<close>

definition record_ok :: "hosted_record \<Rightarrow> bool" where
  "record_ok r \<longleftrightarrow> CHR ''/'' \<notin> set (hr_type r) \<and> sorted (hr_values r) \<and> distinct (hr_values r) \<and> hr_values r \<noteq> []
     \<and> length (hr_values r) \<le> max_values"

definition records_ok :: "records \<Rightarrow> bool" where
  "records_ok recs \<longleftrightarrow> distinct (map fst recs) \<and> (\<forall>(k, r) \<in> set recs. k = record_key r \<and> record_ok r)"

lemma rows_values [simp]: "rows (r\<lparr>hr_values := vs\<rparr>) = {(hr_name r, hr_type r, hr_ttl r, v) | v. v \<in> set vs}"
  by (simp add: rows_def)

lemma record_key_inj:
  assumes "record_key r = record_key q" and "CHR ''/'' \<notin> set (hr_type r)" and "CHR ''/'' \<notin> set (hr_type q)"
  shows "hr_name r = hr_name q" and "hr_type r = hr_type q"
proof -
  have inj: "a @ CHR ''/'' # x = b @ CHR ''/'' # y \<Longrightarrow> CHR ''/'' \<notin> set x \<Longrightarrow> CHR ''/'' \<notin> set y \<Longrightarrow> a = b \<and> x = y"
    for a b x y :: string
    by (induction a arbitrary: b) (auto simp: Cons_eq_append_conv append_eq_Cons_conv)
  from inj [of "hr_name r" "hr_type r" "hr_name q" "hr_type q"] assms show "hr_name r = hr_name q" "hr_type r = hr_type q"
    by (simp_all add: record_key_def)
qed

lemma set_map_put: "distinct (map fst m) \<Longrightarrow> set (map_put m k v) = insert (k, v) {p \<in> set m. fst p \<noteq> k}"
proof (induction m)
  case (Cons p m)
  then show ?case by (cases p) (auto simp: rev_image_eqI)
qed simp

lemma add_record_ok:
  assumes "records_ok recs" and "CHR ''/'' \<notin> set (hr_type r)" and "hr_values r \<noteq> []" and "add_record r recs = Inr recs1"
  shows "records_ok recs1 \<and> all_rows (map snd recs1) = all_rows (map snd recs) \<union> rows r"
proof -
  let ?key = "record_key r" and ?old = "map_of recs (record_key r)"
  let ?vs = "sort_compact ((case ?old of None \<Rightarrow> [] | Some o1 \<Rightarrow> hr_values o1) @ hr_values r)"
  let ?new = "r\<lparr>hr_values := ?vs\<rparr>"
  from assms(4) have r1: "recs1 = map_put recs ?key ?new" and len: "length ?vs \<le> max_values"
    and ttl: "case ?old of None \<Rightarrow> True | Some o1 \<Rightarrow> hr_ttl o1 = hr_ttl r"
    by (auto simp: add_record_def Let_def split: if_splits option.splits)
  have d: "distinct (map fst recs)" using assms(1) by (simp add: records_ok_def)
  have "record_ok ?new" using assms(2,3) len by (auto simp: record_ok_def)
  then have "records_ok recs1"
    using assms(1) d by (auto simp: records_ok_def r1 set_map_put distinct_map_put record_key_def)
  moreover have "all_rows (map snd recs1) = all_rows (map snd recs) \<union> rows r"
  proof (cases ?old)
    case None
    then have "{p \<in> set recs. fst p \<noteq> ?key} = set recs" by (auto simp: map_of_eq_None_iff rev_image_eqI)
    then have "set recs1 = insert (?key, ?new) (set recs)" unfolding r1 set_map_put [OF d] by simp
    then show ?thesis by (auto simp: all_rows_def rows_def None)
  next
    case (Some o1)
    then have mem: "(?key, o1) \<in> set recs" by (rule map_of_SomeD)
    have uniq: "q = o1" if "(?key, q) \<in> set recs" for q using map_of_is_SomeI [OF d that] Some by simp
    have s: "set recs1 = insert (?key, ?new) (set recs - {(?key, o1)})"
    proof -
      have "{p \<in> set recs. fst p \<noteq> ?key} = set recs - {(?key, o1)}" by (auto dest: uniq)
      then show ?thesis unfolding r1 set_map_put [OF d] by simp
    qed
    from assms(1) mem have ok: "record_key o1 = ?key" "CHR ''/'' \<notin> set (hr_type o1)" by (auto simp: records_ok_def record_ok_def)
    from record_key_inj [OF ok(1) ok(2) assms(2)] ttl Some have same: "hr_name o1 = hr_name r" "hr_type o1 = hr_type r" "hr_ttl o1 = hr_ttl r"
      by simp_all
    let ?rest = "\<Union> (rows ` snd ` (set recs - {(?key, o1)}))"
    have new: "rows ?new = rows o1 \<union> rows r"
      unfolding rows_values unfolding rows_def Some same by auto
    have "set (map snd recs) = insert o1 (snd ` (set recs - {(?key, o1)}))"
      using mem by (metis image_insert insert_Diff list.set_map snd_conv)
    then have old: "all_rows (map snd recs) = rows o1 \<union> ?rest" by (simp add: all_rows_def image_image)
    have "all_rows (map snd recs1) = rows ?new \<union> ?rest" unfolding all_rows_def set_map s by (simp add: image_image del: rows_values)
    then show ?thesis unfolding new old by (simp only: Un_ac)
  qed
  ultimately show ?thesis ..
qed

lemma render_record_shape:
  assumes "render_record env ttl i = Inr r"
  shows "hr_type r = ur_type i \<and> hr_values r \<noteq> [] \<and> CHR ''/'' \<notin> set (hr_type r)"
proof -
  from assms have v: "\<exists>vs. render_values env i = Inr vs \<and> vs \<noteq> [] \<and> hr_values r = vs \<and> hr_type r = ur_type i"
    by (auto simp: render_record_def split: if_splits sum.splits list.splits)
  then have "ur_type i \<in> {TypeA, TypeAAAA, TypeCNAME, TypeNS, TypeTXT, TypeMX, TypeCAA}"
    by (auto simp: render_values_def Let_def split: if_splits)
  with v show ?thesis by auto
qed

text \<open>What an item of the unit contributes.\<close>

definition served_item :: "unit_record_set \<Rightarrow> bool" where
  "served_item i \<longleftrightarrow> is_allowed i \<and> \<not> ur_deletion i"

definition item_rows :: "render_env \<Rightarrow> uint32 \<Rightarrow> unit_record_set \<Rightarrow> (string \<times> string \<times> uint32 \<times> string) set" where
  "item_rows env ttl i = (case render_record env ttl i of Inl _ \<Rightarrow> {} | Inr r \<Rightarrow> rows r)"

lemma render_items_ok:
  assumes "render_items env ttl items recs = Inr recs1" and "records_ok recs"
  shows "records_ok recs1 \<and> all_rows (map snd recs1) = all_rows (map snd recs) \<union> (\<Union>i \<in> {i \<in> set items. served_item i}. item_rows env ttl i)"
  using assms
proof (induction items arbitrary: recs)
  case (Cons i items)
  show ?case
  proof (cases "served_item i")
    case False
    then have "{j \<in> set (i # items). served_item j} = {j \<in> set items. served_item j}" by auto
    with False Cons show ?thesis by (auto simp: served_item_def)
  next
    case True
    with Cons.prems obtain r recs2 where r: "render_record env ttl i = Inr r" "add_record r recs = Inr recs2"
        "render_items env ttl items recs2 = Inr recs1"
      by (auto simp: served_item_def split: if_splits sum.splits)
    from render_record_shape [OF r(1)] add_record_ok [OF Cons.prems(2) _ _ r(2)] have
      "records_ok recs2" "all_rows (map snd recs2) = all_rows (map snd recs) \<union> item_rows env ttl i"
      by (auto simp: item_rows_def r(1))
    with Cons.IH [OF r(3)] True show ?thesis by auto
  qed
qed simp

definition glue_row :: "string \<Rightarrow> string \<Rightarrow> uint32 \<Rightarrow> addr \<Rightarrow> string \<times> string \<times> uint32 \<times> string" where
  "glue_row domain server ttl ip = (if server = domain then ''@'' else trim_suffix server (''.'' @ domain),
     if is4 ip then TypeA else TypeAAAA, ttl, addr_string ip)"

definition glue_zone :: "string \<Rightarrow> string \<Rightarrow> bool" where
  "glue_zone domain server \<longleftrightarrow> server = domain \<or> has_suffix server (''.'' @ domain)"

definition server_rows :: "string \<Rightarrow> uint32 \<Rightarrow> name_server \<Rightarrow> (string \<times> string \<times> uint32 \<times> string) set" where
  "server_rows domain ttl s = {glue_row domain (snapshot_name (nsv_name s)) ttl ip | a ip.
     a \<in> set (nsv_addresses s) \<and> parse_addr a = Some ip \<and> glue_zone domain (snapshot_name (nsv_name s))}"

lemma render_glue_ok:
  assumes "render_glue env domain server ttl as recs = Inr (xs, recs1)" and "records_ok recs"
  shows "records_ok recs1 \<and> all_rows (map snd recs1) = all_rows (map snd recs)
     \<union> {glue_row domain server ttl ip | a ip. a \<in> set as \<and> parse_addr a = Some ip \<and> glue_zone domain server}"
  using assms
proof (induction as arbitrary: recs xs)
  case (Cons a as)
  from Cons.prems(1) obtain ip recs2 ys where ip: "parse_addr a = Some ip"
    and g: "(if server \<noteq> domain \<and> \<not> has_suffix server (''.'' @ domain) then Inr recs
               else add_record \<lparr>hr_name = (if server = domain then ''@'' else trim_suffix server (''.'' @ domain)),
                  hr_type = (if is4 ip then TypeA else TypeAAAA), hr_ttl = ttl, hr_values = [addr_string ip]\<rparr> recs) = Inr recs2"
    and n: "render_glue env domain server ttl as recs2 = Inr (ys, recs1)"
    by (auto split: option.splits sum.splits simp del: add_record_def)
  have "records_ok recs2 \<and> all_rows (map snd recs2) = all_rows (map snd recs) \<union> (if glue_zone domain server then {glue_row domain server ttl ip} else {})"
  proof (cases "glue_zone domain server")
    case True
    with g have a: "add_record \<lparr>hr_name = (if server = domain then ''@'' else trim_suffix server (''.'' @ domain)),
                  hr_type = (if is4 ip then TypeA else TypeAAAA), hr_ttl = ttl, hr_values = [addr_string ip]\<rparr> recs = Inr recs2"
      by (auto simp: glue_zone_def split: if_splits)
    have "rows \<lparr>hr_name = (if server = domain then ''@'' else trim_suffix server (''.'' @ domain)),
                  hr_type = (if is4 ip then TypeA else TypeAAAA), hr_ttl = ttl, hr_values = [addr_string ip]\<rparr> = {glue_row domain server ttl ip}"
      by (auto simp: rows_def glue_row_def)
    with add_record_ok [OF Cons.prems(2) _ _ a] True show ?thesis by simp
  next
    case False
    with g Cons.prems(2) show ?thesis by (auto simp: glue_zone_def split: if_splits)
  qed
  with Cons.IH [OF n] ip show ?case by (auto split: if_splits)
qed simp

lemma render_servers_ok:
  assumes "render_servers env domain ttl ss recs = Inr (servers, recs1)" and "records_ok recs"
  shows "records_ok recs1 \<and> map nsv_name servers = map (\<lambda>s. snapshot_name (nsv_name s)) ss
     \<and> all_rows (map snd recs1) = all_rows (map snd recs) \<union> (\<Union>s \<in> set ss. server_rows domain ttl s)"
  using assms
proof (induction ss arbitrary: recs servers)
  case (Cons s ss)
  from Cons.prems(1) obtain as recs2 rest where g: "render_glue env domain (snapshot_name (nsv_name s)) ttl (nsv_addresses s) recs = Inr (as, recs2)"
    and n: "render_servers env domain ttl ss recs2 = Inr (rest, recs1)"
    and s: "servers = \<lparr>nsv_name = snapshot_name (nsv_name s), nsv_addresses = sort_compact as\<rparr> # rest"
    by (auto simp: Let_def split: sum.splits)
  from render_glue_ok [OF g Cons.prems(2)] Cons.IH [OF n] show ?case by (auto simp: s server_rows_def)
qed simp

section \<open>Facts about quoting\<close>

text \<open>
  The presentation format of a DNS character string (RFC 1035): the reader after the opening
  quote, with its decimal escapes; it yields the value and the unread rest.
\<close>

fun read_string :: "string \<Rightarrow> (string \<times> string) option" where
  "read_string [] = None"
| "read_string (c # cs) =
     (if c = CHR 0x22 then Some ([], cs)
      else if c \<noteq> CHR 0x5C then map_option (\<lambda>(v, r). (c # v, r)) (read_string cs)
      else (case cs of [] \<Rightarrow> None
        | d # ds \<Rightarrow>
          (case digit_val d of
             None \<Rightarrow> map_option (\<lambda>(v, r). (d # v, r)) (read_string ds)
           | Some x \<Rightarrow>
             (case ds of
                e # f # gs \<Rightarrow>
                  (case (digit_val e, digit_val f) of
                     (Some y, Some z) \<Rightarrow> map_option (\<lambda>(v, r). (char_of (x * 100 + y * 10 + z) # v, r)) (read_string gs)
                   | _ \<Rightarrow> None)
              | _ \<Rightarrow> None))))"

lemma digit_val_char_of: "d < 10 \<Longrightarrow> digit_val (char_of (48 + d)) = Some d"
  by (simp add: digit_val_def Let_def)

lemma read_quote_char: "read_string (quote_char c @ rest) = map_option (\<lambda>(v, r). (c # v, r)) (read_string rest)"
proof -
  define n :: nat where "n = of_char c"
  have c: "c = char_of n" and n: "n < 256" unfolding n_def by simp_all
  consider "c = CHR 0x22 \<or> c = CHR 0x5C" | "c \<noteq> CHR 0x22" "c \<noteq> CHR 0x5C" "n < 32 \<or> n > 126"
    | "c \<noteq> CHR 0x22" "c \<noteq> CHR 0x5C" "\<not> (n < 32 \<or> n > 126)" by blast
  then show ?thesis
  proof cases
    case 1
    then show ?thesis by (auto simp: digit_val_def)
  next
    case 2
    have d: "n div 100 < 10" "n div 10 mod 10 < 10" "n mod 10 < 10" using n by auto
    have sum: "n div 100 * 100 + n div 10 mod 10 * 10 + n mod 10 = n"
    proof -
      have "n div 100 = n div 10 div 10" by (simp flip: div_mult2_eq)
      moreover have "n div 10 div 10 * 10 + n div 10 mod 10 = n div 10" "n div 10 * 10 + n mod 10 = n" by simp_all
      ultimately show ?thesis by linarith
    qed
    have q: "quote_char c = [CHR 0x5C, char_of (48 + n div 100), char_of (48 + n div 10 mod 10), char_of (48 + n mod 10)]"
      using 2 by (simp add: n_def Let_def)
    show ?thesis unfolding q by (simp add: digit_val_char_of d sum c)
  next
    case 3
    then have "quote_char c = [c]" by (simp add: n_def Let_def)
    with 3 show ?thesis by simp
  qed
qed

lemma read_quote: "read_string (concat (map quote_char s) @ CHR 0x22 # rest) = Some (s, rest)"
  by (induction s) (simp_all add: read_quote_char del: quote_char.simps)

lemma quote_chunks_join:
  "s \<noteq> [] \<Longrightarrow> \<exists>cs. cs \<noteq> [] \<and> concat cs = s \<and> (\<forall>c \<in> set cs. length c \<le> 255) \<and> quote_chunks w s = (if w then '' '' else []) @ join '' '' (map quote cs)"
proof (induction w s rule: quote_chunks.induct)
  case (1 w s)
  show ?case
  proof (cases "drop 255 s = []")
    case True
    then have "take 255 s = s" by simp
    with 1(2) True show ?thesis by (intro exI [of _ "[s]"]) (simp add: quote_chunks.simps [of w s] quote_chunks.simps [of True "[]"])
  next
    case False
    from 1(1) [OF 1(2) False] obtain cs where cs: "cs \<noteq> []" "concat cs = drop 255 s" "\<forall>c \<in> set cs. length c \<le> 255"
        "quote_chunks True (drop 255 s) = '' '' @ join '' '' (map quote cs)" by auto
    have "join '' '' (map quote (take 255 s # cs)) = quote (take 255 s) @ '' '' @ join '' '' (map quote cs)"
      using cs(1) by (cases cs) simp_all
    with cs 1(2) show ?thesis
      by (intro exI [of _ "take 255 s # cs"]) (simp add: quote_chunks.simps [of w s])
  qed
qed

section \<open>Properties\<close>

text \<open>
  C35. A TXT value survives its rendering: it is written as character strings of at most 255
  bytes whose contents, read with the escapes of the presentation format, concatenate to it.
\<close>

theorem quote_txt_roundtrip:
  "\<exists>cs. quote_txt s = join '' '' (map quote cs) \<and> concat (map (fst \<circ> the \<circ> read_string \<circ> tl \<circ> quote) cs) = s
     \<and> list_all (\<lambda>c. length c \<le> 255 \<and> read_string (tl (quote c)) = Some (c, [])) cs"
proof -
  have r: "read_string (tl (quote c)) = Some (c, [])" for c
    using read_quote [of c "[]"] by (simp add: quote_def)
  have cs: "\<exists>cs. quote_txt s = join '' '' (map quote cs) \<and> concat cs = s \<and> (\<forall>c \<in> set cs. length c \<le> 255)"
  proof (cases "length s \<le> 255")
    case True
    then show ?thesis by (intro exI [of _ "[s]"]) (simp add: quote_txt_def)
  next
    case False
    then have "s \<noteq> []" by auto
    with quote_chunks_join [OF this, of False] False show ?thesis by (auto simp: quote_txt_def)
  qed
  then show ?thesis by (simp add: r comp_def list_all_iff)
qed

lemma render_parts:
  assumes "render_snapshot env (Some u) params previous now = Inr spec"
  obtains recs recs1 recs2 servers ttl where
    "ttl = default_number (cp_default_ttl params) default_ttl" "hs_domain spec = snapshot_name (uz_domain (un_zone (unit_rspec u)))"
    "render_items env ttl (un_record_sets (unit_rspec u)) [] = Inr recs"
    "render_servers env (hs_domain spec) ttl (cp_name_servers params) recs = Inr (servers, recs1)"
    "add_record \<lparr>hr_name = ''@'', hr_type = TypeNS, hr_ttl = ttl, hr_values = map (\<lambda>s. re_fqdn env (nsv_name s)) servers\<rparr> recs1 = Inr recs2"
    "length recs2 \<le> max_rrsets" "hs_records spec = sort_key (\<lambda>r. (hr_name r, hr_type r)) (map snd recs2)" "hs_digest spec \<noteq> []"
    "cp_name_servers params \<noteq> []"
    "render_serial previous (case ust_zone (unit_rstatus u) of None \<Rightarrow> []
        | Some z \<Rightarrow> (case uzs_provider z of None \<Rightarrow> [] | Some p \<Rightarrow> re_previous_digest env (ps_data p))) (hs_digest spec) now = Some (hs_serial spec)"
  using assms
  by (simp add: render_snapshot_def Let_def split: if_splits sum.splits prod.splits option.splits) fastforce+

definition receipt_digest :: "render_env \<Rightarrow> zone_unit \<Rightarrow> string" where
  "receipt_digest env u = (case ust_zone (unit_rstatus u) of None \<Rightarrow> []
     | Some z \<Rightarrow> (case uzs_provider z of None \<Rightarrow> [] | Some p \<Rightarrow> re_previous_digest env (ps_data p)))"

lemma serial_less:
  fixes p :: uint32
  assumes "p \<noteq> 0xFFFFFFFF"
  shows "p < p + 1"
proof -
  have "unat p \<noteq> unat (0xFFFFFFFF :: uint32)" using assms by (simp only: word_unat_eq_iff not_False_eq_True)
  moreover have "unat p < 2 ^ 32" using unsigned_less [of p] by simp
  ultimately have "unat p + 1 < 2 ^ 32" by simp
  then have "unat (p + 1) = unat p + 1" by (simp add: unat_word_ariths)
  then show ?thesis by (simp add: word_less_nat_alt)
qed

text \<open>
  C23. The serial of a snapshot never goes back and never wraps: it stays exactly when the content
  is the one already published and is greater otherwise, and it is never zero.
\<close>

theorem render_serial_monotone:
  assumes "render_snapshot env (Some u) params previous now = Inr spec"
  shows "hs_serial spec \<noteq> 0 \<and> previous \<le> hs_serial spec
     \<and> (hs_serial spec = previous \<longleftrightarrow> previous \<noteq> 0 \<and> receipt_digest env u = hs_digest spec)"
proof (rule render_parts [OF assms])
  assume r: "render_serial previous (case ust_zone (unit_rstatus u) of None \<Rightarrow> []
        | Some z \<Rightarrow> (case uzs_provider z of None \<Rightarrow> [] | Some p \<Rightarrow> re_previous_digest env (ps_data p))) (hs_digest spec) now = Some (hs_serial spec)"
  show ?thesis
  proof (cases "previous \<noteq> 0 \<and> receipt_digest env u = hs_digest spec")
    case True
    with r show ?thesis by (auto simp: render_serial_def receipt_digest_def)
  next
    case False
    with r have n: "previous \<noteq> 0xFFFFFFFF" "hs_serial spec = max (previous + 1) (word_of_int (unix_seconds now))"
      by (auto simp: render_serial_def receipt_digest_def split: if_splits)
    from serial_less [OF n(1)] have "previous < hs_serial spec" unfolding n(2) by (simp add: less_max_iff_disj)
    with False show ?thesis by (auto simp: word_gt_0_no)
  qed
qed

text \<open>
  A published snapshot is well formed: its record sets are sorted by name and type with no
  two alike, the values of each are sorted, without duplicates, at least one and at most 64, and
  there are at most 10000 record sets.
\<close>

theorem render_well_formed:
  assumes "render_snapshot env (Some u) params previous now = Inr spec"
  shows "sorted_wrt (<) (map (\<lambda>r. (hr_name r, hr_type r)) (hs_records spec)) \<and> list_all record_ok (hs_records spec)
     \<and> length (hs_records spec) \<le> max_rrsets"
proof (rule render_parts [OF assms])
  fix recs recs1 recs2 servers ttl
  assume i: "render_items env ttl (un_record_sets (unit_rspec u)) [] = Inr recs"
    and v: "render_servers env (hs_domain spec) ttl (cp_name_servers params) recs = Inr (servers, recs1)"
    and a: "add_record \<lparr>hr_name = ''@'', hr_type = TypeNS, hr_ttl = ttl, hr_values = map (\<lambda>s. re_fqdn env (nsv_name s)) servers\<rparr> recs1 = Inr recs2"
    and l: "length recs2 \<le> max_rrsets" and r: "hs_records spec = sort_key (\<lambda>r. (hr_name r, hr_type r)) (map snd recs2)"
    and ns: "cp_name_servers params \<noteq> []"
  from render_items_ok [OF i] have "records_ok recs" by (simp add: records_ok_def)
  from render_servers_ok [OF v this] ns have "records_ok recs1" "servers \<noteq> []" by (auto simp flip: length_greater_0_conv dest: map_eq_imp_length_eq)
  with add_record_ok [OF _ _ _ a] have ok: "records_ok recs2" by simp
  let ?k = "\<lambda>r. (hr_name r, hr_type r)"
  have "distinct (map ?k (map snd recs2))"
  proof -
    have "map fst recs2 = map record_key (map snd recs2)" using ok by (auto simp: records_ok_def)
    with ok have "distinct (map record_key (map snd recs2))" by (metis records_ok_def)
    then show ?thesis unfolding distinct_map by (auto simp: inj_on_def record_key_def)
  qed
  then have "distinct (map ?k (hs_records spec))"
    by (subst mset_eq_imp_distinct_iff [where ys = "map ?k (map snd recs2)"]) (simp_all add: r multiset.map_comp comp_def)
  moreover have "sorted (map ?k (hs_records spec))" by (simp add: r)
  ultimately have "sorted_wrt (<) (map ?k (hs_records spec))" by (simp add: strict_sorted_iff)
  moreover have "list_all record_ok (hs_records spec)" using ok by (auto simp: r list_all_iff records_ok_def)
  ultimately show ?thesis using l by (simp add: r)
qed

text \<open>
  C22. A published snapshot holds exactly what is to be served: the values of the items that are
  allowed and not being deleted, with their TTLs, the addresses of the name servers inside the
  zone, and the name servers themselves at the apex.
\<close>

theorem render_content_exact:
  assumes "render_snapshot env (Some u) params previous now = Inr spec"
  shows "all_rows (hs_records spec) =
     (\<Union>i \<in> {i \<in> set (un_record_sets (unit_rspec u)). served_item i}. item_rows env (default_number (cp_default_ttl params) default_ttl) i)
   \<union> (\<Union>s \<in> set (cp_name_servers params). server_rows (hs_domain spec) (default_number (cp_default_ttl params) default_ttl) s)
   \<union> {(''@'', TypeNS, default_number (cp_default_ttl params) default_ttl, re_fqdn env (snapshot_name (nsv_name s))) | s.
        s \<in> set (cp_name_servers params)}"
proof (rule render_parts [OF assms])
  fix recs recs1 recs2 servers ttl
  assume t: "ttl = default_number (cp_default_ttl params) default_ttl"
    and i: "render_items env ttl (un_record_sets (unit_rspec u)) [] = Inr recs"
    and v: "render_servers env (hs_domain spec) ttl (cp_name_servers params) recs = Inr (servers, recs1)"
    and a: "add_record \<lparr>hr_name = ''@'', hr_type = TypeNS, hr_ttl = ttl, hr_values = map (\<lambda>s. re_fqdn env (nsv_name s)) servers\<rparr> recs1 = Inr recs2"
    and r: "hs_records spec = sort_key (\<lambda>r. (hr_name r, hr_type r)) (map snd recs2)"
    and ns: "cp_name_servers params \<noteq> []"
  from render_items_ok [OF i] have i1: "records_ok recs" "all_rows (map snd recs) =
      (\<Union>i \<in> {i \<in> set (un_record_sets (unit_rspec u)). served_item i}. item_rows env ttl i)"
    by (simp_all add: records_ok_def all_rows_def)
  note v1 = render_servers_ok [OF v i1(1)]
  from v1 have names: "map nsv_name servers = map (\<lambda>s. snapshot_name (nsv_name s)) (cp_name_servers params)" by blast
  with ns have "servers \<noteq> []" by (auto simp flip: length_greater_0_conv dest: map_eq_imp_length_eq)
  with add_record_ok [OF _ _ _ a] v1 have a1: "all_rows (map snd recs2) = all_rows (map snd recs1)
      \<union> rows \<lparr>hr_name = ''@'', hr_type = TypeNS, hr_ttl = ttl, hr_values = map (\<lambda>s. re_fqdn env (nsv_name s)) servers\<rparr>"
    by simp
  have "map (\<lambda>s. re_fqdn env (nsv_name s)) servers = map (re_fqdn env) (map nsv_name servers)" by simp
  then have "rows \<lparr>hr_name = ''@'', hr_type = TypeNS, hr_ttl = ttl, hr_values = map (\<lambda>s. re_fqdn env (nsv_name s)) servers\<rparr>
      = {(''@'', TypeNS, ttl, re_fqdn env (snapshot_name (nsv_name s))) | s. s \<in> set (cp_name_servers params)}"
    by (auto simp: rows_def names)
  moreover have "all_rows (hs_records spec) = all_rows (map snd recs2)" by (simp add: all_rows_def r)
  ultimately show ?thesis using i1(2) v1 a1 by (simp add: t)
qed

section \<open>An example\<close>

definition demo_render_env :: render_env where
  "demo_render_env = \<lparr>re_fqdn = (\<lambda>s. s @ ''.''), re_new_rr = (\<lambda>s. Some (RR_Other 0 \<lparr>rh_name = s, rh_class = 1, rh_ttl = 0\<rparr> [])),
     re_pack = (\<lambda>r. Some (rh_name (rr_hdr r))), re_sha256 = (\<lambda>s. ''00''), re_previous_digest = (\<lambda>_. []), re_quoted = (\<lambda>s. s)\<rparr>"

definition demo_params :: class_parameters where
  "demo_params = \<lparr>cp_name_servers = [\<lparr>nsv_name = ''ns1.example.com'', nsv_addresses = [''192.0.2.53'']\<rparr>],
     cp_soa = \<lparr>sp_rname = [], sp_refresh = 0, sp_retry = 0, sp_expire = 0, sp_minimum = 0\<rparr>, cp_default_ttl = 0,
     cp_views = [], cp_resolver_mode = [], cp_resolver_servers = []\<rparr>"

definition demo_render_unit :: zone_unit where
  "demo_render_unit = \<lparr>unit_meta = \<lparr>om_namespace = ''dns'', om_name = ''z'', om_uid = ''u'', om_generation = 1, om_creation = 0,
       om_deletion = None, om_labels = [], om_annotations = [], om_finalizers = [], om_owners = []\<rparr>,
     unit_rspec = \<lparr>un_provider = \<lparr>pr_name = ''p'', pr_version = ''v1''\<rparr>, un_zone = \<lparr>uz_ref = \<lparr>obr_namespace = ''dns'', obr_name = ''z''\<rparr>,
         uz_observed = 1, uz_domain = ''example.com'', uz_class_ref = \<lparr>obr_namespace = ''dns'', obr_name = ''c''\<rparr>, uz_class_uid = ''k'',
         uz_class_observed = 1, uz_adoption = []\<rparr>, un_record_sets = [], un_withdrawals = []\<rparr>,
     unit_rstatus = \<lparr>ust_observed = 0, ust_conditions = [], ust_provider = None, ust_zone = None, ust_record_sets = [], ust_withdrawals = []\<rparr>\<rparr>"

definition demo_snapshot :: hosted_spec where
  "demo_snapshot = (case render_snapshot demo_render_env (Some demo_render_unit) demo_params 7 0 of Inr s \<Rightarrow> s)"

lemma those_None: "those xs = None \<longleftrightarrow> None \<in> set xs"
  by (induction xs) (auto split: option.splits)

lemma demo_digest:
  assumes "\<forall>s \<in> set (hs_name_servers spec). \<forall>a \<in> set (nsv_addresses s). parse_addr a \<noteq> None"
  shows "content_digest demo_render_env spec \<noteq> []"
proof -
  have "None \<notin> set (map (\<lambda>r. Option.bind r (re_pack demo_render_env)) (digest_rrs demo_render_env spec))"
    using assms by (fastforce simp: digest_rrs_def digest_server_def digest_record_def demo_render_env_def Let_def split: option.splits)
  then have "those (map (\<lambda>r. Option.bind r (re_pack demo_render_env)) (digest_rrs demo_render_env spec)) \<noteq> None"
    unfolding those_None .
  then show ?thesis by (auto simp: content_digest_def split: option.splits)
qed

lemma demo_rendered: "render_snapshot demo_render_env (Some demo_render_unit) demo_params 7 0 = Inr demo_snapshot"
proof -
  have ip: "parse_addr ''192.0.2.53'' = Some (V4 192 0 2 53)" "v4_string 192 0 2 53 = ''192.0.2.53''" by code_simp+
  have name: "snapshot_name ''ns1.example.com'' = ''ns1.example.com''" "snapshot_name ''example.com'' = ''example.com''"
      "has_suffix ''ns1.example.com'' (''.'' @ ''example.com'')" by code_simp+
  have one: "sort_compact [x] = [x]" for x :: string by (simp add: sort_compact_def)
  have digest: "content_digest demo_render_env \<lparr>hs_domain = d, hs_serial = n, hs_soa = so, hs_name_servers =
      [\<lparr>nsv_name = ''ns1.example.com'', nsv_addresses = [''192.0.2.53'']\<rparr>], hs_records = rs, hs_digest = g\<rparr> \<noteq> []" for d n so rs g
    by (rule demo_digest) (simp add: ip)
  have "\<exists>spec. render_snapshot demo_render_env (Some demo_render_unit) demo_params 7 0 = Inr spec"
    using name(3) digest
    by (simp add: render_snapshot_def demo_render_unit_def demo_params_def Let_def ip name one add_record_def max_values_def
        max_rrsets_def render_serial_def record_key_def)
  then show ?thesis by (auto simp: demo_snapshot_def)
qed

theorem render_serial_monotone_witness: "7 \<le> hs_serial demo_snapshot"
  using render_serial_monotone [OF demo_rendered] by simp

theorem render_well_formed_witness: "length (hs_records demo_snapshot) \<le> max_rrsets"
  using render_well_formed [OF demo_rendered] by simp

theorem render_content_exact_witness:
  "(''@'', ''NS'', 60, ''ns1.example.com.'') \<in> all_rows (hs_records demo_snapshot)"
proof -
  have "snapshot_name ''ns1.example.com'' = ''ns1.example.com''" by code_simp
  then show ?thesis
    unfolding render_content_exact [OF demo_rendered]
    by (simp add: demo_params_def default_number_def default_ttl_def demo_render_env_def)
qed

end
