(* ===== verification/Hosted_Zone.thy ===== *)
theory Hosted_Zone
  imports Api_Units Dns_Msg
begin

text \<open>
  \<open>internal/go/providers/hosted/server/zone.go\<close>: the compilation of a snapshot into the owner
  table a query reads, the lookup in it with its wildcards, and the index of the zones served by
  one process. The functions of \<open>github.com/miekg/dns\<close> are the parameter \<open>dns_lib\<close>. Metrics are
  not state of the model. The \<open>sync.Map\<close>s of the index are association lists: every mutation
  holds the mutex, and a query reads them one key at a time.
\<close>

record dns_lib =
  dl_canonical :: "string \<Rightarrow> string"
  dl_is_name :: "string \<Rightarrow> bool"
  dl_sub :: "string \<Rightarrow> string \<Rightarrow> bool"
  dl_next_label :: "string \<Rightarrow> nat \<times> bool"
  dl_new_rr :: "string \<Rightarrow> string + rr"
  dl_type :: "string \<Rightarrow> nat option"
  dl_quoted :: "string \<Rightarrow> string"

section \<open>Names\<close>

definition supported_type :: "nat \<Rightarrow> bool" where
  "supported_type kind \<longleftrightarrow> kind \<in> {qtype_A, qtype_AAAA, qtype_CNAME, qtype_TXT, qtype_MX, qtype_CAA, qtype_NS}"

definition parent_name :: "dns_lib \<Rightarrow> string \<Rightarrow> string" where
  "parent_name lib name =
     (if name = ''.'' then []
      else (case dl_next_label lib name of (index, end_) \<Rightarrow> if end_ then ''.'' else drop index name))"

text \<open>
  The names a loop \<open>for n := name; n != ""; n = parentName(n)\<close> visits, in order, within the
  given number of steps. Since a next label starts after the current one, every step but the one
  to the root shortens the name, and \<open>lineage\<close> takes enough steps (\<open>lineage_complete\<close>).
\<close>

fun name_chain :: "dns_lib \<Rightarrow> nat \<Rightarrow> string \<Rightarrow> string list" where
  "name_chain lib 0 name = []"
| "name_chain lib (Suc n) name = (if name = [] then [] else name # name_chain lib n (parent_name lib name))"

definition lineage :: "dns_lib \<Rightarrow> string \<Rightarrow> string list" where
  "lineage lib name = name_chain lib (length name + 2) name"

text \<open>\<open>net.ParseIP\<close>, then \<open>To4\<close>: an IPv4 address also in its mapped form.\<close>

definition parse_ip :: "string \<Rightarrow> addr option" where
  "parse_ip s = (case parse_addr s of None \<Rightarrow> None | Some a \<Rightarrow> if addr_zone a \<noteq> [] then None else Some (unmap a))"

section \<open>Zones\<close>

type_synonym rrset_table = "(nat \<times> rr list) list"
type_synonym owner_table = "(string \<times> rrset_table) list"

text \<open>
  A name without records of its own (an empty non-terminal, a nil map in the code) has an empty
  table. The map of a wildcard is the map of its owner, shared, so \<open>z_wildcards\<close> keeps the
  parent names only.
\<close>

record zone =
  z_key :: object_reference
  z_uid :: uid
  z_apex :: string
  z_serial :: uint32
  z_digest :: string
  z_owners :: owner_table
  z_wildcards :: "string list"
  z_soa :: rr
  z_negative_soa :: rr
  z_glue :: "rr list"

definition rrset :: "rrset_table \<Rightarrow> nat \<Rightarrow> rr list" where
  "rrset t kind = (case map_of t kind of None \<Rightarrow> [] | Some rs \<Rightarrow> rs)"

definition owner_rrsets :: "owner_table \<Rightarrow> string \<Rightarrow> rrset_table" where
  "owner_rrsets owners name = (case map_of owners name of None \<Rightarrow> [] | Some t \<Rightarrow> t)"

definition put_rrset :: "owner_table \<Rightarrow> string \<Rightarrow> nat \<Rightarrow> rr list \<Rightarrow> owner_table" where
  "put_rrset owners name kind rs = map_put owners name (map_put (owner_rrsets owners name) kind rs)"

text \<open>The empty non-terminals above an owner, up to the apex.\<close>

fun add_ancestors :: "dns_lib \<Rightarrow> string \<Rightarrow> string list \<Rightarrow> owner_table \<Rightarrow> owner_table" where
  "add_ancestors lib apex [] owners = owners"
| "add_ancestors lib apex (a # as) owners =
     (if \<not> dl_sub lib apex a then owners
      else let owners1 = (if map_of owners a = None then map_put owners a [] else owners) in
        if a = apex then owners1 else add_ancestors lib apex as owners1)"

fun compile_values :: "dns_lib \<Rightarrow> string \<Rightarrow> string list \<Rightarrow> string + rr list" where
  "compile_values lib prefix [] = Inr []"
| "compile_values lib prefix (v # vs) =
     (case dl_new_rr lib (prefix @ v) of Inl e \<Rightarrow> Inl e
      | Inr r \<Rightarrow> (case compile_values lib prefix vs of Inl e \<Rightarrow> Inl e | Inr rs \<Rightarrow> Inr (r # rs)))"

definition record_prefix :: "string \<Rightarrow> hosted_record \<Rightarrow> string" where
  "record_prefix owner r = owner @ '' '' @ dec (unat (hr_ttl r)) @ '' IN '' @ hr_type r @ '' ''"

definition record_owner :: "dns_lib \<Rightarrow> string \<Rightarrow> hosted_record \<Rightarrow> string" where
  "record_owner lib apex r = (if hr_name r \<noteq> ''@'' then dl_canonical lib (hr_name r @ ''.'' @ apex) else apex)"

text \<open>The state of the loop over the records: owners, wildcards and the TTL of glue.\<close>

type_synonym compile_state = "owner_table \<times> string list \<times> uint32"

definition compile_record :: "dns_lib \<Rightarrow> string \<Rightarrow> hosted_record \<Rightarrow> compile_state \<Rightarrow> string + compile_state" where
  "compile_record lib apex r st =
     (case st of (owners, wildcards, glue_ttl) \<Rightarrow>
      let owner = record_owner lib apex r in
      if \<not> dl_is_name lib owner \<or> \<not> dl_sub lib apex owner then Inl (''invalid record owner '' @ dl_quoted lib (hr_name r))
      else (case dl_type lib (hr_type r) of
          None \<Rightarrow> Inl (''unsupported record type '' @ dl_quoted lib (hr_type r))
        | Some kind \<Rightarrow>
          if \<not> supported_type kind then Inl (''unsupported record type '' @ dl_quoted lib (hr_type r))
          else if hr_values r = [] then Inl (''empty RRset at '' @ owner)
          else if rrset (owner_rrsets owners owner) kind \<noteq> [] then Inl (''duplicate RRset at '' @ owner @ '' type '' @ hr_type r)
          else (case compile_values lib (record_prefix owner r) (hr_values r) of
              Inl e \<Rightarrow> Inl (''record '' @ owner @ '' '' @ hr_type r @ '': '' @ e)
            | Inr rs \<Rightarrow>
              Inr (add_ancestors lib apex (lineage lib (parent_name lib owner)) (put_rrset owners owner kind rs),
                   (if has_prefix owner ''*.'' then drop 2 owner # wildcards else wildcards),
                   (if owner = apex \<and> kind = qtype_NS then hr_ttl r else glue_ttl)))))"

fun compile_records :: "dns_lib \<Rightarrow> string \<Rightarrow> hosted_record list \<Rightarrow> compile_state \<Rightarrow> string + compile_state" where
  "compile_records lib apex [] st = Inr st"
| "compile_records lib apex (r # rs) st =
     (case compile_record lib apex r st of Inl e \<Rightarrow> Inl e | Inr st1 \<Rightarrow> compile_records lib apex rs st1)"

definition cname_clash :: "string \<Rightarrow> string \<times> rrset_table \<Rightarrow> bool" where
  "cname_clash apex e \<longleftrightarrow> (case e of (owner, rrsets) \<Rightarrow> let cnames = rrset rrsets qtype_CNAME in
     cnames \<noteq> [] \<and> (length cnames \<noteq> 1 \<or> length rrsets \<noteq> 1 \<or> owner = apex))"

fun glue_addresses :: "string \<Rightarrow> uint32 \<Rightarrow> string list \<Rightarrow> string + rr list" where
  "glue_addresses name ttl [] = Inr []"
| "glue_addresses name ttl (a # as) =
     (case parse_ip a of None \<Rightarrow> Inl a
      | Some ip \<Rightarrow>
        let h = \<lparr>rh_name = name, rh_class = class_INET, rh_ttl = ttl\<rparr> in
        (case glue_addresses name ttl as of Inl e \<Rightarrow> Inl e
         | Inr rs \<Rightarrow> Inr ((if is4 ip then RR_A h (Some ip) else RR_AAAA h (Some ip)) # rs)))"

fun compile_glue :: "dns_lib \<Rightarrow> uint32 \<Rightarrow> name_server list \<Rightarrow> string + rr list" where
  "compile_glue lib ttl [] = Inr []"
| "compile_glue lib ttl (s # ss) =
     (let name = dl_canonical lib (nsv_name s) in
      if \<not> dl_is_name lib name \<or> name = ''.'' then Inl (''invalid nameserver '' @ dl_quoted lib (nsv_name s))
      else (case glue_addresses name ttl (nsv_addresses s) of
          Inl a \<Rightarrow> Inl (''invalid glue address '' @ dl_quoted lib a)
        | Inr rs \<Rightarrow> (case compile_glue lib ttl ss of Inl e \<Rightarrow> Inl e | Inr rs1 \<Rightarrow> Inr (rs @ rs1))))"

definition default_apex_ns :: "dns_lib \<Rightarrow> string \<Rightarrow> uint32 \<Rightarrow> name_server list \<Rightarrow> owner_table \<Rightarrow> owner_table" where
  "default_apex_ns lib apex ttl servers owners =
     (if rrset (owner_rrsets owners apex) qtype_NS \<noteq> [] \<or> servers = [] then owners
      else put_rrset owners apex qtype_NS
        (map (\<lambda>s. RR_NS \<lparr>rh_name = apex, rh_class = class_INET, rh_ttl = ttl\<rparr> (dl_canonical lib (nsv_name s))) servers))"

definition zone_soa :: "dns_lib \<Rightarrow> string \<Rightarrow> hosted_spec \<Rightarrow> uint32 \<Rightarrow> rr" where
  "zone_soa lib apex spec ttl = (let s = hs_soa spec in
     RR_SOA \<lparr>rh_name = apex, rh_class = class_INET, rh_ttl = ttl\<rparr>
       \<lparr>sd_ns = dl_canonical lib (soa_mname s), sd_mbox = dl_canonical lib (soa_rname s), sd_serial = hs_serial spec,
        sd_refresh = soa_refresh s, sd_retry = soa_retry s, sd_expire = soa_expire s, sd_minttl = soa_minimum s\<rparr>)"

definition zone_key :: "hosted_zone \<Rightarrow> object_reference" where
  "zone_key s = \<lparr>obr_namespace = om_namespace (hz_meta s), obr_name = om_name (hz_meta s)\<rparr>"

definition compile_zone :: "dns_lib \<Rightarrow> hosted_zone \<Rightarrow> string + zone" where
  "compile_zone lib snapshot =
     (let spec = hz_spec snapshot; apex = dl_canonical lib (hs_domain spec) in
      if \<not> dl_is_name lib apex \<or> hs_domain spec = [] \<or> apex = ''.'' \<or> hs_serial spec = 0 then Inl ''invalid zone apex or serial''
      else (case compile_records lib apex (hs_records spec) ([(apex, [])], [], default_ttl) of
          Inl e \<Rightarrow> Inl e
        | Inr (owners, wildcards, glue_ttl) \<Rightarrow>
          (case find (cname_clash apex) owners of
             Some (owner, _) \<Rightarrow> Inl (''CNAME must be exclusive at '' @ owner)
           | None \<Rightarrow>
             (case compile_glue lib glue_ttl (hs_name_servers spec) of
                Inl e \<Rightarrow> Inl e
              | Inr glue \<Rightarrow>
                let soa = zone_soa lib apex spec (soa_minimum (hs_soa spec)) in
                Inr \<lparr>z_key = zone_key snapshot, z_uid = om_uid (hz_meta snapshot), z_apex = apex, z_serial = hs_serial spec,
                  z_digest = hs_digest spec,
                  z_owners = put_rrset (default_apex_ns lib apex glue_ttl (hs_name_servers spec) owners) apex qtype_SOA [soa],
                  z_wildcards = wildcards, z_soa = soa,
                  z_negative_soa = zone_soa lib apex spec (min (soa_minimum (hs_soa spec)) (soa_minimum (hs_soa spec))),
                  z_glue = glue\<rparr>))))"

text \<open>The records of a name: its own, or those of the wildcard below its closest existing ancestor.\<close>

fun enclosing_wildcard :: "dns_lib \<Rightarrow> zone \<Rightarrow> string list \<Rightarrow> rrset_table option" where
  "enclosing_wildcard lib z [] = None"
| "enclosing_wildcard lib z (a # as) =
     (if \<not> dl_sub lib (z_apex z) a then None
      else if map_of (z_owners z) a \<noteq> None
        then (if a \<in> set (z_wildcards z) then Some (owner_rrsets (z_owners z) (''*.'' @ a)) else None)
      else enclosing_wildcard lib z as)"

definition zone_lookup :: "dns_lib \<Rightarrow> zone \<Rightarrow> string \<Rightarrow> rrset_table option" where
  "zone_lookup lib z name = (case map_of (z_owners z) name of Some t \<Rightarrow> Some t
     | None \<Rightarrow> enclosing_wildcard lib z (lineage lib (parent_name lib name)))"

section \<open>The index of served zones\<close>

record zone_index =
  zi_zones :: "(string \<times> zone) list"
  zi_blocked :: "string list"
  zi_keys :: "(object_reference \<times> string) list"
  zi_max :: int

definition new_zone_index :: "int \<Rightarrow> zone_index" where
  "new_zone_index n = \<lparr>zi_zones = [], zi_blocked = [], zi_keys = [], zi_max = n\<rparr>"

definition has_zone_unit_owner :: "owner_reference list \<Rightarrow> bool" where
  "has_zone_unit_owner owners \<longleftrightarrow>
     list_ex (\<lambda>w. or_api_version w = ''dns.appthrust.io/v1alpha1'' \<and> or_kind w = ''ZoneUnit'' \<and> or_uid w \<noteq> []) owners"

definition block :: "string \<Rightarrow> zone_index \<Rightarrow> zone_index" where
  "block apex ix = ix\<lparr>zi_blocked := apex # zi_blocked ix\<rparr>"

definition unblock :: "string \<Rightarrow> zone_index \<Rightarrow> zone_index" where
  "unblock apex ix = ix\<lparr>zi_blocked := removeAll apex (zi_blocked ix)\<rparr>"

definition remove_apex :: "string \<Rightarrow> zone_index \<Rightarrow> zone_index" where
  "remove_apex apex ix =
     (case map_of (zi_zones ix) apex of None \<Rightarrow> ix
      | Some z \<Rightarrow> ix\<lparr>zi_zones := map_del (zi_zones ix) apex, zi_keys := map_del (zi_keys ix) (z_key z)\<rparr>)"

definition index_replace :: "dns_lib \<Rightarrow> hosted_zone \<Rightarrow> zone_index \<Rightarrow> zone_index \<times> string option" where
  "index_replace lib snapshot ix =
     (let key = zone_key snapshot; known = map_of (zi_keys ix) key; apex = dl_canonical lib (hs_domain (hz_spec snapshot)) in
      if \<not> has_zone_unit_owner (om_owners (hz_meta snapshot)) then
        ((case known of Some old \<Rightarrow> remove_apex old ix | None \<Rightarrow> ix), Some ''snapshot has no ZoneUnit owner reference'')
      else if (case map_of (zi_zones ix) apex of Some z \<Rightarrow> z_key z \<noteq> key | None \<Rightarrow> False) then
        (remove_apex apex (block apex ix), Some (''zone apex '' @ apex @ '' has conflicting snapshots''))
      else if known = None \<and> int (length (zi_keys ix)) \<ge> zi_max ix then
        (ix, Some (''hosted zone limit '' @ itoa (zi_max ix) @ '' reached''))
      else (case compile_zone lib snapshot of
          Inl e \<Rightarrow> (ix, Some e)
        | Inr z \<Rightarrow>
          let ix1 = (case known of Some old \<Rightarrow> if old \<noteq> apex then remove_apex old ix else ix | None \<Rightarrow> ix) in
          (unblock apex (ix1\<lparr>zi_zones := map_put (zi_zones ix1) apex z, zi_keys := map_put (zi_keys ix1) key apex\<rparr>), None)))"

definition index_remove :: "object_reference \<Rightarrow> uid \<Rightarrow> zone_index \<Rightarrow> zone_index" where
  "index_remove key u ix =
     (case map_of (zi_keys ix) key of None \<Rightarrow> ix
      | Some apex \<Rightarrow>
        if (case map_of (zi_zones ix) apex of Some z \<Rightarrow> z_uid z \<noteq> u | None \<Rightarrow> False) then ix else remove_apex apex ix)"

definition reconcile_absent_apex :: "string \<Rightarrow> bool \<Rightarrow> zone_index \<Rightarrow> zone_index" where
  "reconcile_absent_apex apex conflict ix = remove_apex apex (if conflict then block apex ix else unblock apex ix)"

text \<open>The closest served zone at or above a name, unless a conflict lies closer.\<close>

fun first_authority :: "zone_index \<Rightarrow> string list \<Rightarrow> zone option" where
  "first_authority ix [] = None"
| "first_authority ix (c # cs) =
     (if c \<in> set (zi_blocked ix) then None
      else (case map_of (zi_zones ix) c of Some z \<Rightarrow> Some z | None \<Rightarrow> first_authority ix cs))"

definition index_lookup :: "dns_lib \<Rightarrow> zone_index \<Rightarrow> string \<Rightarrow> zone option" where
  "index_lookup lib ix name = first_authority ix (lineage lib name)"

section \<open>Walking up a name\<close>

text \<open>
  What the code relies on in \<open>dns.NextLabel\<close>: unless it reports the end, the next label starts
  inside the name, after its beginning.
\<close>

definition labels_ok :: "dns_lib \<Rightarrow> bool" where
  "labels_ok lib \<longleftrightarrow> (\<forall>name i. dl_next_label lib name = (i, False) \<longrightarrow> 0 < i \<and> i < length name)"

lemma parent_shorter:
  assumes "labels_ok lib" and "parent_name lib name \<noteq> []" and "parent_name lib name \<noteq> ''.''"
  shows "length (parent_name lib name) < length name"
proof (cases "dl_next_label lib name")
  case (Pair i e)
  with assms(2,3) have "\<not> e" "parent_name lib name = drop i name" by (auto simp: parent_name_def split: if_splits)
  moreover have "0 < i \<and> i < length name" using assms(1) Pair \<open>\<not> e\<close> by (auto simp: labels_ok_def)
  ultimately show ?thesis by (metis diff_less length_drop less_trans)
qed

lemma parent_root [simp]: "parent_name lib ''.'' = []"
  by (simp add: parent_name_def)

lemma name_chain_root: "name_chain lib n ''.'' = (if n = 0 then [] else [''.''])"
  by (cases n; cases "n - 1") simp_all

lemma name_chain_enough:
  assumes "labels_ok lib" and "length name + 2 \<le> n" and "length name + 2 \<le> m"
  shows "name_chain lib n name = name_chain lib m name"
  using assms(2,3)
proof (induction name arbitrary: n m rule: length_induct)
  case (1 name)
  from "1.prems" obtain n' m' where n: "n = Suc n'" "m = Suc m'" by (cases n; cases m) auto
  let ?p = "parent_name lib name"
  show ?case
  proof (cases "name = [] \<or> ?p = [] \<or> ?p = ''.''")
    case True
    then show ?thesis using "1.prems" by (auto simp: n name_chain_root) (cases n'; cases m'; simp)+
  next
    case False
    with parent_shorter [OF assms(1), of name] have l: "length ?p < length name" by blast
    with "1.prems" have "length ?p + 2 \<le> n'" "length ?p + 2 \<le> m'" by (simp_all add: n)
    with "1.IH" l have "name_chain lib n' ?p = name_chain lib m' ?p" by blast
    then show ?thesis by (simp add: n)
  qed
qed

lemma name_chain_Nil [simp]: "name_chain lib n [] = []"
  by (cases n) simp_all

lemma name_chain_length: "length (name_chain lib n name) \<le> n"
  by (induction n arbitrary: name) auto

lemma lineage_Nil [simp]: "lineage lib [] = []"
  by (simp add: lineage_def numeral_2_eq_2)

lemma lineage_rec:
  assumes "labels_ok lib" and "name \<noteq> []"
  shows "lineage lib name = name # lineage lib (parent_name lib name)"
proof -
  let ?p = "parent_name lib name"
  have "name_chain lib (Suc (length name)) ?p = lineage lib ?p"
  proof (cases "?p = [] \<or> ?p = ''.''")
    case True
    then show ?thesis using assms(2) by (auto simp: name_chain_root lineage_def)
  next
    case False
    with parent_shorter [OF assms(1), of name] have "length ?p < length name" by blast
    then show ?thesis unfolding lineage_def by (intro name_chain_enough [OF assms(1)]) simp_all
  qed
  then show ?thesis using assms(2) by (simp add: lineage_def numeral_2_eq_2)
qed

text \<open>
  C36. Every loop over a name and its ancestors ends: more steps than the length of the name
  plus two visit nothing new, and each visited name is followed by its parent until none is left.
\<close>

theorem lineage_complete:
  assumes "labels_ok lib"
  shows "name_chain lib (length name + 2 + k) name = lineage lib name \<and> length (lineage lib name) \<le> length name + 2
     \<and> lineage lib name = (if name = [] then [] else name # lineage lib (parent_name lib name))"
proof (intro conjI)
  show "name_chain lib (length name + 2 + k) name = lineage lib name"
    unfolding lineage_def by (intro name_chain_enough [OF assms]) simp_all
  show "length (lineage lib name) \<le> length name + 2" unfolding lineage_def by (rule name_chain_length)
  show "lineage lib name = (if name = [] then [] else name # lineage lib (parent_name lib name))"
    using lineage_rec [OF assms, of name] by simp
qed

section \<open>The index implements a map from apexes to zones\<close>

text \<open>What a query can observe of the index, and its operations on that.\<close>

record served =
  sv_zones :: "string \<Rightarrow> zone option"
  sv_blocked :: "string set"

definition index_abs :: "zone_index \<Rightarrow> served" where
  "index_abs ix = \<lparr>sv_zones = map_of (zi_zones ix), sv_blocked = set (zi_blocked ix)\<rparr>"

definition serves_key :: "served \<Rightarrow> object_reference \<Rightarrow> bool" where
  "serves_key S k \<longleftrightarrow> (\<exists>a z. sv_zones S a = Some z \<and> z_key z = k)"

definition drop_key :: "object_reference \<Rightarrow> (string \<Rightarrow> zone option) \<Rightarrow> string \<Rightarrow> zone option" where
  "drop_key k zones a = (case zones a of None \<Rightarrow> None | Some z \<Rightarrow> if z_key z = k then None else Some z)"

definition spec_replace :: "dns_lib \<Rightarrow> int \<Rightarrow> hosted_zone \<Rightarrow> served \<Rightarrow> served" where
  "spec_replace lib limit snapshot S =
     (let k = zone_key snapshot; apex = dl_canonical lib (hs_domain (hz_spec snapshot)) in
      if \<not> has_zone_unit_owner (om_owners (hz_meta snapshot)) then S\<lparr>sv_zones := drop_key k (sv_zones S)\<rparr>
      else if (case sv_zones S apex of Some z \<Rightarrow> z_key z \<noteq> k | None \<Rightarrow> False)
        then S\<lparr>sv_zones := (sv_zones S)(apex := None), sv_blocked := insert apex (sv_blocked S)\<rparr>
      else if \<not> serves_key S k \<and> int (card (dom (sv_zones S))) \<ge> limit then S
      else (case compile_zone lib snapshot of Inl _ \<Rightarrow> S
        | Inr z \<Rightarrow> \<lparr>sv_zones = (drop_key k (sv_zones S))(apex \<mapsto> z), sv_blocked = sv_blocked S - {apex}\<rparr>))"

definition spec_remove :: "object_reference \<Rightarrow> uid \<Rightarrow> served \<Rightarrow> served" where
  "spec_remove k u S = S\<lparr>sv_zones := (\<lambda>a. case sv_zones S a of None \<Rightarrow> None
     | Some z \<Rightarrow> if z_key z = k \<and> z_uid z = u then None else Some z)\<rparr>"

definition spec_absent :: "string \<Rightarrow> bool \<Rightarrow> served \<Rightarrow> served" where
  "spec_absent apex conflict S = \<lparr>sv_zones = (sv_zones S)(apex := None),
     sv_blocked = (if conflict then insert apex (sv_blocked S) else sv_blocked S - {apex})\<rparr>"

text \<open>The bookkeeping of keys agrees with the zones, and no blocked apex is served.\<close>

definition index_ok :: "zone_index \<Rightarrow> bool" where
  "index_ok ix \<longleftrightarrow> distinct (map fst (zi_zones ix)) \<and> distinct (map fst (zi_keys ix))
     \<and> (\<forall>a z. map_of (zi_zones ix) a = Some z \<longrightarrow> z_apex z = a \<and> map_of (zi_keys ix) (z_key z) = Some a \<and> a \<notin> set (zi_blocked ix))
     \<and> (\<forall>k a. map_of (zi_keys ix) k = Some a \<longrightarrow> (\<exists>z. map_of (zi_zones ix) a = Some z \<and> z_key z = k))"

lemma index_ok_new: "index_ok (new_zone_index n)"
  by (simp add: index_ok_def new_zone_index_def)

lemma index_abs_simps [simp]: "sv_zones (index_abs ix) = map_of (zi_zones ix)" "sv_blocked (index_abs ix) = set (zi_blocked ix)"
  by (simp_all add: index_abs_def)

lemma index_ok_zone: "index_ok ix \<Longrightarrow> map_of (zi_zones ix) a = Some z \<Longrightarrow>
    z_apex z = a \<and> map_of (zi_keys ix) (z_key z) = Some a \<and> a \<notin> set (zi_blocked ix)"
  by (simp add: index_ok_def)

lemma index_ok_key: "index_ok ix \<Longrightarrow> map_of (zi_keys ix) k = Some a \<Longrightarrow> \<exists>z. map_of (zi_zones ix) a = Some z \<and> z_key z = k"
  unfolding index_ok_def by blast

lemma index_ok_known: "index_ok ix \<Longrightarrow> serves_key (index_abs ix) k \<longleftrightarrow> map_of (zi_keys ix) k \<noteq> None"
  unfolding serves_key_def index_abs_simps by (metis index_ok_zone index_ok_key not_None_eq)

lemma index_ok_drop:
  assumes "index_ok ix"
  shows "drop_key k (map_of (zi_zones ix)) = (case map_of (zi_keys ix) k of None \<Rightarrow> map_of (zi_zones ix)
     | Some a \<Rightarrow> (map_of (zi_zones ix))(a := None))"
proof
  fix a
  show "drop_key k (map_of (zi_zones ix)) a = (case map_of (zi_keys ix) k of None \<Rightarrow> map_of (zi_zones ix)
     | Some a \<Rightarrow> (map_of (zi_zones ix))(a := None)) a"
    using assms index_ok_key [OF assms, of k]
    by (auto simp: drop_key_def split: option.splits dest: index_ok_zone)
qed

lemma index_ok_count:
  assumes "index_ok ix"
  shows "length (zi_keys ix) = card (dom (map_of (zi_zones ix)))"
proof -
  have "bij_betw (\<lambda>k. the (map_of (zi_keys ix) k)) (dom (map_of (zi_keys ix))) (dom (map_of (zi_zones ix)))"
    unfolding bij_betw_def
  proof
    show "inj_on (\<lambda>k. the (map_of (zi_keys ix) k)) (dom (map_of (zi_keys ix)))"
    proof (rule inj_onI)
      fix k q
      assume "k \<in> dom (map_of (zi_keys ix))" "q \<in> dom (map_of (zi_keys ix))" "the (map_of (zi_keys ix) k) = the (map_of (zi_keys ix) q)"
      then obtain a where "map_of (zi_keys ix) k = Some a" "map_of (zi_keys ix) q = Some a" by auto
      then show "k = q" using index_ok_key [OF assms] by (metis option.inject)
    qed
    show "(\<lambda>k. the (map_of (zi_keys ix) k)) ` dom (map_of (zi_keys ix)) = dom (map_of (zi_zones ix))"
    proof
      show "dom (map_of (zi_zones ix)) \<subseteq> (\<lambda>k. the (map_of (zi_keys ix) k)) ` dom (map_of (zi_keys ix))"
      proof
        fix a assume "a \<in> dom (map_of (zi_zones ix))"
        then obtain z where "map_of (zi_zones ix) a = Some z" by blast
        from index_ok_zone [OF assms this] show "a \<in> (\<lambda>k. the (map_of (zi_keys ix) k)) ` dom (map_of (zi_keys ix))"
          by (intro image_eqI [of _ _ "z_key z"]) auto
      qed
      show "(\<lambda>k. the (map_of (zi_keys ix) k)) ` dom (map_of (zi_keys ix)) \<subseteq> dom (map_of (zi_zones ix))"
      proof (rule image_subsetI)
        fix k assume "k \<in> dom (map_of (zi_keys ix))"
        then obtain a where "map_of (zi_keys ix) k = Some a" by blast
        with index_ok_key [OF assms this] show "the (map_of (zi_keys ix) k) \<in> dom (map_of (zi_zones ix))" by auto
      qed
    qed
  qed
  then have "card (dom (map_of (zi_keys ix))) = card (dom (map_of (zi_zones ix)))" by (rule bij_betw_same_card)
  moreover have "card (dom (map_of (zi_keys ix))) = length (zi_keys ix)"
  proof -
    have "distinct (map fst (zi_keys ix))" using assms by (simp add: index_ok_def)
    from distinct_card [OF this] show ?thesis by (simp add: dom_map_of_conv_image_fst)
  qed
  ultimately show ?thesis by simp
qed

lemma remove_apex_abs: "index_abs (remove_apex a ix) = \<lparr>sv_zones = (map_of (zi_zones ix))(a := None), sv_blocked = set (zi_blocked ix)\<rparr>"
  by (auto simp: remove_apex_def index_abs_def fun_eq_iff split: option.splits)

lemma remove_apex_ok:
  assumes "index_ok ix"
  shows "index_ok (remove_apex a ix)"
proof (cases "map_of (zi_zones ix) a")
  case (Some z)
  note z = index_ok_zone [OF assms Some]
  have "map_of (zi_keys ix) k = Some b \<Longrightarrow> k \<noteq> z_key z \<Longrightarrow> b \<noteq> a" for k b
    using index_ok_key [OF assms, of k b] Some by auto
  moreover have "map_of (zi_zones ix) b = Some y \<Longrightarrow> b \<noteq> a \<Longrightarrow> z_key y \<noteq> z_key z" for b y
    using index_ok_zone [OF assms, of b y] z by auto
  ultimately show ?thesis
    using assms unfolding index_ok_def remove_apex_def Some
    by (auto simp: distinct_map_del)
qed (simp add: remove_apex_def assms)

lemma block_ok:
  assumes "index_ok ix" and "map_of (zi_zones ix) a = None"
  shows "index_ok (block a ix)"
proof -
  have "map_of (zi_zones ix) b = Some z \<Longrightarrow> b \<noteq> a" for b z using assms(2) by auto
  then show ?thesis using assms(1) unfolding index_ok_def block_def by (simp del: map_of_eq_Some_iff Some_eq_map_of_iff)
qed

lemma unblock_ok: "index_ok ix \<Longrightarrow> index_ok (unblock a ix)"
  unfolding index_ok_def unblock_def by (simp del: map_of_eq_Some_iff Some_eq_map_of_iff)

lemma block_abs: "index_abs (block a ix) = \<lparr>sv_zones = map_of (zi_zones ix), sv_blocked = insert a (set (zi_blocked ix))\<rparr>"
  by (simp add: index_abs_def block_def)

lemma unblock_abs: "index_abs (unblock a ix) = \<lparr>sv_zones = map_of (zi_zones ix), sv_blocked = set (zi_blocked ix) - {a}\<rparr>"
  by (simp add: index_abs_def unblock_def)

lemma remove_block: "remove_apex a (block b ix) = block b (remove_apex a ix)"
  by (simp add: remove_apex_def block_def split: option.splits)

lemma remove_unblock: "remove_apex a (unblock b ix) = unblock b (remove_apex a ix)"
  by (simp add: remove_apex_def unblock_def split: option.splits)

lemma remove_apex_simps [simp]:
  "map_of (zi_zones (remove_apex a ix)) = (map_of (zi_zones ix))(a := None)" "zi_blocked (remove_apex a ix) = zi_blocked ix"
  "zi_max (remove_apex a ix) = zi_max ix"
  by (auto simp: remove_apex_def fun_eq_iff split: option.splits)

lemma block_simps [simp]:
  "zi_zones (block a ix) = zi_zones ix" "zi_keys (block a ix) = zi_keys ix" "zi_blocked (block a ix) = a # zi_blocked ix"
  "zi_zones (unblock a ix) = zi_zones ix" "zi_keys (unblock a ix) = zi_keys ix" "zi_blocked (unblock a ix) = removeAll a (zi_blocked ix)"
  "zi_max (block a ix) = zi_max ix" "zi_max (unblock a ix) = zi_max ix"
  by (simp_all add: block_def unblock_def)

lemma unblock_store: "unblock a (ix\<lparr>zi_zones := Z, zi_keys := K\<rparr>) = (unblock a ix)\<lparr>zi_zones := Z, zi_keys := K\<rparr>"
  by (simp add: unblock_def)

lemma reconcile_absent_refines:
  assumes "index_ok ix"
  shows "index_ok (reconcile_absent_apex a c ix) \<and> index_abs (reconcile_absent_apex a c ix) = spec_absent a c (index_abs ix)"
  using remove_apex_ok [OF assms, of a]
  by (auto simp: reconcile_absent_apex_def remove_block remove_unblock block_ok unblock_ok block_abs unblock_abs remove_apex_abs spec_absent_def)

lemma index_remove_refines:
  assumes "index_ok ix"
  shows "index_ok (index_remove k u ix) \<and> index_abs (index_remove k u ix) = spec_remove k u (index_abs ix)"
proof (cases "map_of (zi_keys ix) k")
  case None
  have "sv_zones (spec_remove k u (index_abs ix)) = map_of (zi_zones ix)"
    using None index_ok_zone [OF assms] by (fastforce simp: spec_remove_def fun_eq_iff split: option.splits)
  then show ?thesis using None assms by (simp add: index_remove_def spec_remove_def index_abs_def)
next
  case (Some a)
  from index_ok_key [OF assms Some] obtain z where z: "map_of (zi_zones ix) a = Some z" "z_key z = k" by blast
  have other: "z_key y \<noteq> k" if "map_of (zi_zones ix) b = Some y" "b \<noteq> a" for b y
    using index_ok_zone [OF assms that(1)] Some that(2) by auto
  have "sv_zones (spec_remove k u (index_abs ix)) = (if z_uid z = u then (map_of (zi_zones ix))(a := None) else map_of (zi_zones ix))"
  proof
    fix b
    show "sv_zones (spec_remove k u (index_abs ix)) b = (if z_uid z = u then (map_of (zi_zones ix))(a := None) else map_of (zi_zones ix)) b"
      using z other [of b] by (cases "b = a") (auto simp: spec_remove_def split: option.splits)
  qed
  then have "spec_remove k u (index_abs ix) = index_abs (index_remove k u ix)"
    using Some z by (simp add: index_remove_def spec_remove_def remove_apex_abs index_abs_def)
  then show ?thesis using Some z remove_apex_ok [OF assms] assms by (simp add: index_remove_def)
qed

lemma compile_zone_fields:
  assumes "compile_zone lib s = Inr z"
  shows "z_key z = zone_key s \<and> z_apex z = dl_canonical lib (hs_domain (hz_spec s)) \<and> z_uid z = om_uid (hz_meta s)
    \<and> z_serial z = hs_serial (hz_spec s) \<and> z_digest z = hs_digest (hz_spec s)"
  using assms by (auto simp: compile_zone_def Let_def split: if_splits sum.splits option.splits)

lemma store_ok:
  assumes "index_ok ix" and "z_apex z = a" and "z_key z = k" and "a \<notin> set (zi_blocked ix)"
    and "map_of (zi_keys ix) k = None \<or> map_of (zi_keys ix) k = Some a"
    and "case map_of (zi_zones ix) a of Some y \<Rightarrow> z_key y = k | None \<Rightarrow> True"
  shows "index_ok (ix\<lparr>zi_zones := map_put (zi_zones ix) a z, zi_keys := map_put (zi_keys ix) k a\<rparr>)"
proof -
  have d: "distinct (map fst (zi_zones ix))" "distinct (map fst (zi_keys ix))" using assms(1) by (simp_all add: index_ok_def)
  have "map_of (zi_keys ix) q = Some b \<Longrightarrow> q \<noteq> k \<Longrightarrow> b \<noteq> a" for q b
    using index_ok_key [OF assms(1), of q b] assms(6) by auto
  moreover have "map_of (zi_zones ix) b = Some y \<Longrightarrow> b \<noteq> a \<Longrightarrow> z_key y \<noteq> k" for b y
    using index_ok_zone [OF assms(1), of b y] assms(5) by auto
  ultimately show ?thesis
    using assms d unfolding index_ok_def by (auto simp: distinct_map_put)
qed

lemma index_replace_refines:
  assumes "index_ok ix"
  shows "index_ok (fst (index_replace lib s ix)) \<and> index_abs (fst (index_replace lib s ix)) = spec_replace lib (zi_max ix) s (index_abs ix)"
proof -
  let ?k = "zone_key s" and ?a = "dl_canonical lib (hs_domain (hz_spec s))"
  let ?known = "map_of (zi_keys ix) (zone_key s)"
  note d = index_ok_drop [OF assms, of ?k] and n = index_ok_count [OF assms] and kn = index_ok_known [OF assms, of ?k]
  consider (unowned) "\<not> has_zone_unit_owner (om_owners (hz_meta s))"
    | (conflict) "has_zone_unit_owner (om_owners (hz_meta s))" "case map_of (zi_zones ix) ?a of Some z \<Rightarrow> z_key z \<noteq> ?k | None \<Rightarrow> False"
    | (limit) "has_zone_unit_owner (om_owners (hz_meta s))" "\<not> (case map_of (zi_zones ix) ?a of Some z \<Rightarrow> z_key z \<noteq> ?k | None \<Rightarrow> False)"
        "?known = None \<and> int (length (zi_keys ix)) \<ge> zi_max ix"
    | (compile) "has_zone_unit_owner (om_owners (hz_meta s))" "\<not> (case map_of (zi_zones ix) ?a of Some z \<Rightarrow> z_key z \<noteq> ?k | None \<Rightarrow> False)"
        "\<not> (?known = None \<and> int (length (zi_keys ix)) \<ge> zi_max ix)" by blast
  then show ?thesis
  proof cases
    case unowned
    then show ?thesis using remove_apex_ok [OF assms] assms
      by (cases ?known) (simp_all add: index_replace_def spec_replace_def d remove_apex_abs Let_def index_abs_def [of ix])
  next
    case conflict
    then show ?thesis using remove_apex_ok [OF assms, of ?a]
      by (simp add: index_replace_def spec_replace_def Let_def remove_block block_ok block_abs remove_apex_abs)
  next
    case limit
    then show ?thesis using assms by (simp add: index_replace_def spec_replace_def Let_def n kn)
  next
    case compile
    show ?thesis
    proof (cases "compile_zone lib s")
      case (Inl e)
      with compile show ?thesis using assms by (simp add: index_replace_def spec_replace_def Let_def n kn)
    next
      case (Inr z)
      note f = compile_zone_fields [OF Inr]
      let ?ix1 = "case ?known of Some old \<Rightarrow> if old \<noteq> ?a then remove_apex old ix else ix | None \<Rightarrow> ix"
      have ok1: "index_ok ?ix1" using assms remove_apex_ok [OF assms] by (simp split: option.splits)
      have zones1: "map_of (zi_zones ?ix1) = (case ?known of None \<Rightarrow> map_of (zi_zones ix)
          | Some old \<Rightarrow> if old \<noteq> ?a then (map_of (zi_zones ix))(old := None) else map_of (zi_zones ix))"
        by (simp split: option.splits)
      have same: "map_of (zi_zones ix) ?a = Some y \<Longrightarrow> z_key y = ?k" for y using compile(2) by simp
      have keys1: "map_of (zi_keys ?ix1) ?k = None \<or> map_of (zi_keys ?ix1) ?k = Some ?a"
      proof (cases ?known)
        case (Some old)
        with index_ok_key [OF assms this] show ?thesis by (auto simp: remove_apex_def)
      qed simp
      let ?ix2 = "unblock ?a ?ix1"
      have "index_ok (?ix2\<lparr>zi_zones := map_put (zi_zones ?ix2) ?a z, zi_keys := map_put (zi_keys ?ix2) ?k ?a\<rparr>)"
        by (rule store_ok) (use f keys1 unblock_ok [OF ok1] same zones1 in \<open>simp_all split: option.splits\<close>)
      moreover have f1: "fst (index_replace lib s ix) = unblock ?a (?ix1\<lparr>zi_zones := map_put (zi_zones ?ix1) ?a z, zi_keys := map_put (zi_keys ?ix1) ?k ?a\<rparr>)"
        using compile(1,2) Inr unfolding index_replace_def Let_def by (simp only: compile(3) if_False not_not simp_thms sum.case fst_conv)
      moreover have "index_abs (fst (index_replace lib s ix)) = spec_replace lib (zi_max ix) s (index_abs ix)"
      proof -
        have z1: "(map_of (zi_zones ?ix1))(?a \<mapsto> z) = (drop_key ?k (map_of (zi_zones ix)))(?a \<mapsto> z)"
          unfolding zones1 d by (auto split: option.splits)
        have b1: "zi_blocked ?ix1 = zi_blocked ix" by (simp split: option.splits)
        have s1: "spec_replace lib (zi_max ix) s (index_abs ix) = \<lparr>sv_zones = (drop_key ?k (map_of (zi_zones ix)))(?a \<mapsto> z), sv_blocked = set (zi_blocked ix) - {?a}\<rparr>"
          using compile Inr kn n by (auto simp: spec_replace_def Let_def)
        show ?thesis unfolding f1 s1 unblock_abs by (simp add: z1 b1)
      qed
      ultimately show ?thesis by (simp only: f1 unblock_store block_simps)
    qed
  qed
qed

text \<open>
  C20. The index refines a map from apexes to zones with a set of blocked apexes: publishing,
  removing and settling an apex each keep the bookkeeping of keys and the limit exact, keep
  blocked apexes unserved, and act on the map as specified.
\<close>

theorem index_refinement:
  assumes "index_ok ix"
  shows "index_ok (fst (index_replace lib s ix)) \<and> index_abs (fst (index_replace lib s ix)) = spec_replace lib (zi_max ix) s (index_abs ix)
    \<and> index_ok (index_remove k u ix) \<and> index_abs (index_remove k u ix) = spec_remove k u (index_abs ix)
    \<and> index_ok (reconcile_absent_apex a c ix) \<and> index_abs (reconcile_absent_apex a c ix) = spec_absent a c (index_abs ix)"
  using index_replace_refines [OF assms] index_remove_refines [OF assms] reconcile_absent_refines [OF assms] by blast

section \<open>The interface of the index\<close>

text \<open>
  What the watcher relies on in an index: publishing a snapshot touches no other apex except to
  drop an older zone of the same object, never serves another object's zone under its apex, and
  serves the compiled snapshot unless the index is full; withdrawing drops only zones of that
  incarnation; settling an apex without a sole owner leaves it unserved, barred exactly after a
  conflict.
\<close>

locale zone_store =
  fixes ok :: "'ix \<Rightarrow> bool" and serving :: "'ix \<Rightarrow> string \<Rightarrow> zone option" and barred :: "'ix \<Rightarrow> string \<Rightarrow> bool"
    and publish :: "hosted_zone \<Rightarrow> 'ix \<Rightarrow> 'ix" and withdraw :: "object_reference \<Rightarrow> uid \<Rightarrow> 'ix \<Rightarrow> 'ix"
    and settle :: "string \<Rightarrow> bool \<Rightarrow> 'ix \<Rightarrow> 'ix" and compiled :: "hosted_zone \<Rightarrow> zone option" and full :: "hosted_zone \<Rightarrow> 'ix \<Rightarrow> bool"
    and apex :: "hosted_zone \<Rightarrow> string" and owned :: "hosted_zone \<Rightarrow> bool"
  assumes ok_publish: "ok ix \<Longrightarrow> ok (publish s ix)"
    and ok_withdraw: "ok ix \<Longrightarrow> ok (withdraw k u ix)"
    and ok_settle: "ok ix \<Longrightarrow> ok (settle a c ix)"
    and barred_unserved: "ok ix \<Longrightarrow> barred ix a \<Longrightarrow> serving ix a = None"
    and publish_elsewhere: "ok ix \<Longrightarrow> owned s \<Longrightarrow> b \<noteq> apex s \<Longrightarrow> barred (publish s ix) b = barred ix b \<and>
      (serving (publish s ix) b = serving ix b \<or>
       serving (publish s ix) b = None \<and> (\<exists>z. serving ix b = Some z \<and> z_key z = zone_key s))"
    and publish_own: "ok ix \<Longrightarrow> owned s \<Longrightarrow> serving (publish s ix) (apex s) = Some z \<Longrightarrow> z_key z = zone_key s"
    and publish_served: "ok ix \<Longrightarrow> owned s \<Longrightarrow> (\<forall>z. serving ix (apex s) = Some z \<longrightarrow> z_key z = zone_key s) \<Longrightarrow>
      \<not> full s ix \<Longrightarrow> compiled s = Some z \<Longrightarrow> serving (publish s ix) (apex s) = Some z"
    and withdraw_barred: "ok ix \<Longrightarrow> barred (withdraw k u ix) b = barred ix b"
    and withdraw_serving: "ok ix \<Longrightarrow> serving (withdraw k u ix) b = serving ix b \<or>
       serving (withdraw k u ix) b = None \<and> (\<exists>z. serving ix b = Some z \<and> z_key z = k)"
    and settle_barred: "ok ix \<Longrightarrow> barred (settle a c ix) b = (if b = a then c else barred ix b)"
    and settle_serving: "ok ix \<Longrightarrow> serving (settle a c ix) b = (if b = a then None else serving ix b)"

definition publish_snapshot :: "dns_lib \<Rightarrow> hosted_zone \<Rightarrow> zone_index \<Rightarrow> zone_index" where
  "publish_snapshot lib s ix = fst (index_replace lib s ix)"

definition compiled_snapshot :: "dns_lib \<Rightarrow> hosted_zone \<Rightarrow> zone option" where
  "compiled_snapshot lib s = (case compile_zone lib s of Inl _ \<Rightarrow> None | Inr z \<Rightarrow> Some z)"

definition index_full :: "hosted_zone \<Rightarrow> zone_index \<Rightarrow> bool" where
  "index_full s ix \<longleftrightarrow> map_of (zi_keys ix) (zone_key s) = None \<and> int (length (zi_keys ix)) \<ge> zi_max ix"

definition owned_snapshot :: "hosted_zone \<Rightarrow> bool" where
  "owned_snapshot s \<longleftrightarrow> has_zone_unit_owner (om_owners (hz_meta s))"

definition apex_of :: "dns_lib \<Rightarrow> hosted_zone \<Rightarrow> string" where
  "apex_of lib s = dl_canonical lib (hs_domain (hz_spec s))"

lemma index_abs_sel: "index_abs ix = S \<Longrightarrow> map_of (zi_zones ix) = sv_zones S \<and> set (zi_blocked ix) = sv_blocked S"
  by (auto simp: index_abs_def)

lemma index_full_abs: "index_ok ix \<Longrightarrow>
    index_full s ix \<longleftrightarrow> \<not> serves_key (index_abs ix) (zone_key s) \<and> int (card (dom (map_of (zi_zones ix)))) \<ge> zi_max ix"
  by (simp add: index_full_def index_ok_known index_ok_count)

lemma publish_snapshot_abs:
  assumes "index_ok ix" and "owned_snapshot s"
  shows "map_of (zi_zones (publish_snapshot lib s ix)) = sv_zones (spec_replace lib (zi_max ix) s (index_abs ix))
     \<and> set (zi_blocked (publish_snapshot lib s ix)) = sv_blocked (spec_replace lib (zi_max ix) s (index_abs ix))"
  using index_abs_sel index_replace_refines [OF assms(1)] unfolding publish_snapshot_def by blast

lemma spec_replace_elsewhere:
  assumes "has_zone_unit_owner (om_owners (hz_meta s))" and "b \<noteq> dl_canonical lib (hs_domain (hz_spec s))"
  shows "(b \<in> sv_blocked (spec_replace lib n s S) \<longleftrightarrow> b \<in> sv_blocked S) \<and>
    (sv_zones (spec_replace lib n s S) b = sv_zones S b \<or>
     sv_zones (spec_replace lib n s S) b = None \<and> (\<exists>z. sv_zones S b = Some z \<and> z_key z = zone_key s))"
  using assms by (auto simp: spec_replace_def Let_def drop_key_def split: sum.splits option.splits)

lemma spec_replace_own:
  assumes "has_zone_unit_owner (om_owners (hz_meta s))" and "sv_zones (spec_replace lib n s S) (dl_canonical lib (hs_domain (hz_spec s))) = Some z"
  shows "z_key z = zone_key s"
  using assms compile_zone_fields [of lib s]
  by (auto simp: spec_replace_def Let_def split: if_splits sum.splits option.splits)

lemma spec_replace_served:
  assumes "has_zone_unit_owner (om_owners (hz_meta s))" and "\<forall>z. sv_zones S (dl_canonical lib (hs_domain (hz_spec s))) = Some z \<longrightarrow> z_key z = zone_key s"
    and "\<not> (\<not> serves_key S (zone_key s) \<and> int (card (dom (sv_zones S))) \<ge> n)" and "compile_zone lib s = Inr z"
  shows "sv_zones (spec_replace lib n s S) (dl_canonical lib (hs_domain (hz_spec s))) = Some z"
proof -
  have "\<not> (case sv_zones S (dl_canonical lib (hs_domain (hz_spec s))) of Some z \<Rightarrow> z_key z \<noteq> zone_key s | None \<Rightarrow> False)"
    using assms(2) by (simp split: option.splits)
  with assms(1,4) show ?thesis unfolding spec_replace_def Let_def by (simp only: assms(3) if_False not_not simp_thms) simp
qed

interpretation store: zone_store index_ok "\<lambda>ix. map_of (zi_zones ix)" "\<lambda>ix a. a \<in> set (zi_blocked ix)" "publish_snapshot lib"
    index_remove reconcile_absent_apex "compiled_snapshot lib" index_full "apex_of lib" owned_snapshot for lib :: dns_lib
proof (unfold_locales, goal_cases)
  case (1 ix s)
  then show ?case using index_replace_refines by (simp add: publish_snapshot_def)
next
  case (2 ix k u)
  then show ?case using index_remove_refines by blast
next
  case (3 ix a c)
  then show ?case using reconcile_absent_refines by blast
next
  case (4 ix a)
  then show ?case using index_ok_zone [of ix a] by (cases "map_of (zi_zones ix) a") auto
next
  case (5 ix s b)
  then show ?case using publish_snapshot_abs [OF 5(1,2), of lib] spec_replace_elsewhere [of s b lib "zi_max ix" "index_abs ix"]
    by (simp add: owned_snapshot_def apex_of_def)
next
  case (6 ix s z)
  then show ?case using publish_snapshot_abs [OF 6(1,2), of lib] spec_replace_own [of s lib "zi_max ix" "index_abs ix" z]
    by (simp add: owned_snapshot_def apex_of_def)
next
  case (7 ix s z)
  from 7(5) have "compile_zone lib s = Inr z" by (simp add: compiled_snapshot_def split: sum.splits)
  with 7(2,3) spec_replace_served [of s "index_abs ix" lib "zi_max ix" z] have
    "sv_zones (spec_replace lib (zi_max ix) s (index_abs ix)) (apex_of lib s) = Some z"
    using 7(4) unfolding index_full_abs [OF 7(1)] by (simp add: owned_snapshot_def apex_of_def)
  then show ?case using publish_snapshot_abs [OF 7(1,2), of lib] by (simp only:)
next
  case (8 ix k u b)
  from index_abs_sel [OF conjunct2 [OF index_remove_refines [OF 8]]] show ?case by (simp add: spec_remove_def)
next
  case (9 ix k u b)
  from index_abs_sel [OF conjunct2 [OF index_remove_refines [OF 9, of k u]]] show ?case
    by (simp add: spec_remove_def split: option.splits)
next
  case (10 ix a c b)
  from index_abs_sel [OF conjunct2 [OF reconcile_absent_refines [OF 10, of a c]]] show ?case by (simp add: spec_absent_def)
next
  case (11 ix a c b)
  from index_abs_sel [OF conjunct2 [OF reconcile_absent_refines [OF 11, of a c]]] show ?case by (simp add: spec_absent_def)
qed

section \<open>Finding the authority for a name\<close>

lemma first_authority_iff:
  assumes "\<And>a z. map_of (zi_zones ix) a = Some z \<Longrightarrow> z_apex z = a"
  shows "first_authority ix cs = Some z \<longleftrightarrow>
    (\<exists>pre post. cs = pre @ z_apex z # post \<and> map_of (zi_zones ix) (z_apex z) = Some z \<and> z_apex z \<notin> set (zi_blocked ix)
       \<and> list_all (\<lambda>c. c \<notin> set (zi_blocked ix) \<and> map_of (zi_zones ix) c = None) pre)" (is "_ \<longleftrightarrow> ?R cs")
proof (induction cs)
  case (Cons c cs)
  show ?case
  proof (cases "c \<in> set (zi_blocked ix) \<or> map_of (zi_zones ix) c \<noteq> None")
    case True
    have "?R (c # cs) \<longleftrightarrow> c = z_apex z \<and> map_of (zi_zones ix) c = Some z \<and> c \<notin> set (zi_blocked ix)"
    proof
      assume "?R (c # cs)"
      then obtain pre post where p: "c # cs = pre @ z_apex z # post" "map_of (zi_zones ix) (z_apex z) = Some z"
          "z_apex z \<notin> set (zi_blocked ix)" "list_all (\<lambda>c. c \<notin> set (zi_blocked ix) \<and> map_of (zi_zones ix) c = None) pre" by blast
      with True show "c = z_apex z \<and> map_of (zi_zones ix) c = Some z \<and> c \<notin> set (zi_blocked ix)" by (cases pre) auto
    next
      assume "c = z_apex z \<and> map_of (zi_zones ix) c = Some z \<and> c \<notin> set (zi_blocked ix)"
      then have "c # cs = [] @ z_apex z # cs \<and> map_of (zi_zones ix) (z_apex z) = Some z \<and> z_apex z \<notin> set (zi_blocked ix)
          \<and> list_all (\<lambda>c. c \<notin> set (zi_blocked ix) \<and> map_of (zi_zones ix) c = None) []" by auto
      then show "?R (c # cs)" by blast
    qed
    moreover have "first_authority ix (c # cs) = Some z \<longleftrightarrow> c \<notin> set (zi_blocked ix) \<and> map_of (zi_zones ix) c = Some z"
      using True by (auto simp del: map_of_eq_Some_iff)
    ultimately show ?thesis using assms [of c z] by blast
  next
    case False
    have "?R (c # cs) \<longleftrightarrow> ?R cs"
    proof
      assume "?R (c # cs)"
      then obtain pre post where p: "c # cs = pre @ z_apex z # post" "map_of (zi_zones ix) (z_apex z) = Some z"
          "z_apex z \<notin> set (zi_blocked ix)" "list_all (\<lambda>c. c \<notin> set (zi_blocked ix) \<and> map_of (zi_zones ix) c = None) pre" by blast
      with False show "?R cs" by (cases pre) auto
    next
      assume "?R cs"
      then obtain pre post where p: "cs = pre @ z_apex z # post" "map_of (zi_zones ix) (z_apex z) = Some z"
          "z_apex z \<notin> set (zi_blocked ix)" "list_all (\<lambda>c. c \<notin> set (zi_blocked ix) \<and> map_of (zi_zones ix) c = None) pre" by blast
      with False have "c # cs = (c # pre) @ z_apex z # post \<and> map_of (zi_zones ix) (z_apex z) = Some z \<and> z_apex z \<notin> set (zi_blocked ix)
          \<and> list_all (\<lambda>c. c \<notin> set (zi_blocked ix) \<and> map_of (zi_zones ix) c = None) (c # pre)" by auto
      then show "?R (c # cs)" by blast
    qed
    with False Cons show ?thesis by auto
  qed
qed simp

text \<open>
  C28. A query is answered by the zone whose apex is closest at or above the name, and only when
  no name on the way, nor the apex itself, is blocked by a conflict: a conflicting zone is never
  answered for by its parent.
\<close>

theorem closest_authority:
  assumes "index_ok ix"
  shows "index_lookup lib ix name = Some z \<longleftrightarrow>
    (\<exists>pre post. lineage lib name = pre @ z_apex z # post \<and> map_of (zi_zones ix) (z_apex z) = Some z
       \<and> list_all (\<lambda>c. c \<notin> set (zi_blocked ix) \<and> map_of (zi_zones ix) c = None) pre)"
proof -
  have apex: "z_apex y = a" if "map_of (zi_zones ix) a = Some y" for a y
    using index_ok_zone [OF assms that] by simp
  have "first_authority ix (lineage lib name) = Some z \<longleftrightarrow>
    (\<exists>pre post. lineage lib name = pre @ z_apex z # post \<and> map_of (zi_zones ix) (z_apex z) = Some z \<and> z_apex z \<notin> set (zi_blocked ix)
       \<and> list_all (\<lambda>c. c \<notin> set (zi_blocked ix) \<and> map_of (zi_zones ix) c = None) pre)"
    by (rule first_authority_iff) (rule apex)
  then show ?thesis unfolding index_lookup_def using index_ok_zone [OF assms, of "z_apex z" z] by (auto simp del: map_of_eq_Some_iff)
qed

section \<open>What the table of a zone holds\<close>

lemma owner_rrsets_put [simp]:
  "owner_rrsets (map_put owners n t) m = (if m = n then t else owner_rrsets owners m)"
  by (simp add: owner_rrsets_def)

lemma rrset_put [simp]: "rrset (map_put t k rs) j = (if j = k then rs else rrset t j)"
  by (simp add: rrset_def)

lemma rrset_Nil [simp]: "rrset [] k = []"
  by (simp add: rrset_def)

lemma put_rrset_table [simp]:
  "rrset (owner_rrsets (put_rrset owners n k rs) m) j = (if m = n \<and> j = k then rs else rrset (owner_rrsets owners m) j)"
  by (simp add: put_rrset_def)

lemma put_rrset_dom [simp]: "dom (map_of (put_rrset owners n k rs)) = insert n (dom (map_of owners))"
  by (auto simp: put_rrset_def)

lemma add_ancestors_table [simp]:
  "rrset (owner_rrsets (add_ancestors lib apex as owners) m) j = rrset (owner_rrsets owners m) j"
  by (induction lib apex as owners rule: add_ancestors.induct) (auto simp: Let_def owner_rrsets_def)

text \<open>The ancestors of an owner that exist with it: those inside the zone, up to the apex.\<close>

fun inside :: "dns_lib \<Rightarrow> string \<Rightarrow> string list \<Rightarrow> string list" where
  "inside lib apex [] = []"
| "inside lib apex (a # as) = (if \<not> dl_sub lib apex a then [] else if a = apex then [a] else a # inside lib apex as)"

lemma add_ancestors_dom [simp]:
  "dom (map_of (add_ancestors lib apex as owners)) = set (inside lib apex as) \<union> dom (map_of owners)"
  by (induction lib apex as owners rule: add_ancestors.induct) (auto simp: Let_def)

definition declared_names :: "dns_lib \<Rightarrow> string \<Rightarrow> hosted_record \<Rightarrow> string set" where
  "declared_names lib apex r = insert (record_owner lib apex r)
     (set (inside lib apex (lineage lib (parent_name lib (record_owner lib apex r)))))"

lemma compile_record_parts:
  assumes "compile_record lib apex r (owners, wild, ttl) = Inr (owners1, wild1, ttl1)"
  obtains kind rs where "dl_type lib (hr_type r) = Some kind" "supported_type kind" "rs \<noteq> []"
    "rrset (owner_rrsets owners (record_owner lib apex r)) kind = []"
    "compile_values lib (record_prefix (record_owner lib apex r) r) (hr_values r) = Inr rs"
    "\<And>n k. rrset (owner_rrsets owners1 n) k = (if n = record_owner lib apex r \<and> k = kind then rs else rrset (owner_rrsets owners n) k)"
    "dom (map_of owners1) = declared_names lib apex r \<union> dom (map_of owners)"
    "set wild1 = {drop 2 (record_owner lib apex r) |x. has_prefix (record_owner lib apex r) ''*.''} \<union> set wild"
proof -
  from assms obtain kind rs where k: "dl_type lib (hr_type r) = Some kind" "supported_type kind" "hr_values r \<noteq> []"
    "rrset (owner_rrsets owners (record_owner lib apex r)) kind = []"
    "compile_values lib (record_prefix (record_owner lib apex r) r) (hr_values r) = Inr rs"
    "owners1 = add_ancestors lib apex (lineage lib (parent_name lib (record_owner lib apex r))) (put_rrset owners (record_owner lib apex r) kind rs)"
    "wild1 = (if has_prefix (record_owner lib apex r) ''*.'' then drop 2 (record_owner lib apex r) # wild else wild)"
    by (auto simp: compile_record_def Let_def split: if_splits option.splits sum.splits)
  have "rs \<noteq> []" using k(3,5) by (cases "hr_values r") (auto split: sum.splits)
  then show ?thesis using k by (intro that [of kind rs]) (auto simp: declared_names_def)
qed

text \<open>The record sets a list of records declares.\<close>

definition declared :: "dns_lib \<Rightarrow> string \<Rightarrow> hosted_record list \<Rightarrow> string \<Rightarrow> nat \<Rightarrow> rr list \<Rightarrow> bool" where
  "declared lib apex records n k rs \<longleftrightarrow> (\<exists>r \<in> set records. record_owner lib apex r = n \<and> dl_type lib (hr_type r) = Some k
     \<and> compile_values lib (record_prefix n r) (hr_values r) = Inr rs)"

lemma compile_records_table:
  assumes "compile_records lib apex records (owners, wild, ttl) = Inr (owners1, wild1, ttl1)" and "rs \<noteq> []"
  shows "rrset (owner_rrsets owners1 n) k = rs \<longleftrightarrow> rrset (owner_rrsets owners n) k = rs
     \<or> declared lib apex records n k rs"
  using assms(1)
proof (induction records arbitrary: owners wild ttl)
  case Nil
  then show ?case by (simp add: declared_def)
next
  case (Cons r records)
  from Cons.prems obtain st where one: "compile_record lib apex r (owners, wild, ttl) = Inr st"
    and rest: "compile_records lib apex records st = Inr (owners1, wild1, ttl1)" by (auto split: sum.splits)
  obtain owners2 wild2 ttl2 where st: "st = (owners2, wild2, ttl2)" by (cases st)
  from one [unfolded st] obtain kind rs2 where p: "dl_type lib (hr_type r) = Some kind" "rs2 \<noteq> []"
    "rrset (owner_rrsets owners (record_owner lib apex r)) kind = []"
    "compile_values lib (record_prefix (record_owner lib apex r) r) (hr_values r) = Inr rs2"
    "\<And>n k. rrset (owner_rrsets owners2 n) k = (if n = record_owner lib apex r \<and> k = kind then rs2 else rrset (owner_rrsets owners n) k)"
    by (rule compile_record_parts) blast
  have "declared lib apex (r # records) n k rs \<longleftrightarrow> (record_owner lib apex r = n \<and> kind = k \<and> rs2 = rs) \<or> declared lib apex records n k rs"
    using p(1,4) by (auto simp: declared_def)
  moreover have "rrset (owner_rrsets owners2 n) k = rs \<longleftrightarrow> rrset (owner_rrsets owners n) k = rs \<or> (record_owner lib apex r = n \<and> kind = k \<and> rs2 = rs)"
    using p(3,5) assms(2) by auto
  ultimately show ?case using Cons.IH [OF rest [unfolded st]] by blast
qed

lemma compile_records_dom:
  assumes "compile_records lib apex records (owners, wild, ttl) = Inr (owners1, wild1, ttl1)"
  shows "dom (map_of owners1) = (\<Union>r \<in> set records. declared_names lib apex r) \<union> dom (map_of owners)
    \<and> set wild1 = {drop 2 (record_owner lib apex r) | r. r \<in> set records \<and> has_prefix (record_owner lib apex r) ''*.''} \<union> set wild"
  using assms
proof (induction records arbitrary: owners wild ttl)
  case (Cons r records)
  from Cons.prems obtain st where one: "compile_record lib apex r (owners, wild, ttl) = Inr st"
    and rest: "compile_records lib apex records st = Inr (owners1, wild1, ttl1)" by (auto split: sum.splits)
  obtain owners2 wild2 ttl2 where st: "st = (owners2, wild2, ttl2)" by (cases st)
  from one [unfolded st] have p: "dom (map_of owners2) = declared_names lib apex r \<union> dom (map_of owners)"
    "set wild2 = {drop 2 (record_owner lib apex r) |x. has_prefix (record_owner lib apex r) ''*.''} \<union> set wild"
    by (rule compile_record_parts, blast)+
  show ?case using Cons.IH [OF rest [unfolded st]] p by auto
qed simp

lemma compile_records_ttl:
  assumes "compile_records lib apex records (owners, wild, ttl) = Inr (owners1, wild1, ttl1)"
    and "rrset (owner_rrsets owners1 apex) qtype_NS = []"
  shows "ttl1 = ttl"
  using assms(1)
proof (induction records arbitrary: owners wild ttl)
  case (Cons r records)
  from Cons.prems obtain st where one: "compile_record lib apex r (owners, wild, ttl) = Inr st"
    and rest: "compile_records lib apex records st = Inr (owners1, wild1, ttl1)" by (auto split: sum.splits)
  obtain owners2 wild2 ttl2 where st: "st = (owners2, wild2, ttl2)" by (cases st)
  from one [unfolded st] obtain kind rs2 where p: "dl_type lib (hr_type r) = Some kind" "rs2 \<noteq> []"
    "\<And>n k. rrset (owner_rrsets owners2 n) k = (if n = record_owner lib apex r \<and> k = kind then rs2 else rrset (owner_rrsets owners n) k)"
    by (rule compile_record_parts) blast
  have "\<not> (record_owner lib apex r = apex \<and> kind = qtype_NS)"
  proof
    assume "record_owner lib apex r = apex \<and> kind = qtype_NS"
    with p(3) have "rrset (owner_rrsets owners2 apex) qtype_NS = rs2" by simp
    with compile_records_table [OF rest [unfolded st] p(2), of apex qtype_NS] assms(2) p(2) show False by simp
  qed
  moreover have "ttl2 = (if record_owner lib apex r = apex \<and> kind = qtype_NS then hr_ttl r else ttl)"
    using one [unfolded st] p(1) by (auto simp: compile_record_def Let_def split: if_splits sum.splits)
  ultimately show ?case using Cons.IH [OF rest [unfolded st]] by (auto split: if_splits)
qed simp

lemma compile_zone_parts:
  assumes "compile_zone lib s = Inr z"
  obtains owners wild ttl where
    "compile_records lib (apex_of lib s) (hs_records (hz_spec s)) ([(apex_of lib s, [])], [], default_ttl) = Inr (owners, wild, ttl)"
    "find (cname_clash (apex_of lib s)) owners = None"
    "z_owners z = put_rrset (default_apex_ns lib (apex_of lib s) ttl (hs_name_servers (hz_spec s)) owners) (apex_of lib s) qtype_SOA [z_soa z]"
    "z_wildcards z = wild" "z_apex z = apex_of lib s" "compile_glue lib ttl (hs_name_servers (hz_spec s)) = Inr (z_glue z)"
  using assms by (auto simp: compile_zone_def apex_of_def Let_def split: if_splits sum.splits option.splits)

lemma owner_rrsets_initial [simp]: "rrset (owner_rrsets [(a, [])] n) k = []"
  by (simp add: owner_rrsets_def)

lemma code_neq [simp]: "qtype_SOA \<noteq> qtype_NS" "qtype_NS \<noteq> qtype_SOA" "qtype_SOA \<noteq> qtype_CNAME" "qtype_NS \<noteq> qtype_CNAME"
    "qtype_CNAME \<noteq> qtype_SOA" "qtype_CNAME \<noteq> qtype_NS"
  by (simp_all add: dns_codes)

text \<open>
  C26. The table of a compiled zone holds the record sets the snapshot declares, each with the
  values it lists, the start of authority at the apex and, where the snapshot declares no name
  servers there, those of its server list; and nothing else.
\<close>

theorem zone_table_exact:
  assumes "compile_zone lib s = Inr z" and "rs \<noteq> []"
  shows "rrset (owner_rrsets (z_owners z) n) k = rs \<longleftrightarrow>
    (if n = apex_of lib s \<and> k = qtype_SOA then rs = [z_soa z]
     else declared lib (apex_of lib s) (hs_records (hz_spec s)) n k rs
       \<or> n = apex_of lib s \<and> k = qtype_NS \<and> (\<nexists>rs. rs \<noteq> [] \<and> declared lib (apex_of lib s) (hs_records (hz_spec s)) n k rs)
         \<and> rs = map (\<lambda>v. RR_NS \<lparr>rh_name = apex_of lib s, rh_class = class_INET, rh_ttl = default_ttl\<rparr> (dl_canonical lib (nsv_name v)))
             (hs_name_servers (hz_spec s)))"
proof (rule compile_zone_parts [OF assms(1)])
  fix owners wild ttl
  let ?a = "apex_of lib s" and ?rec = "hs_records (hz_spec s)" and ?sv = "hs_name_servers (hz_spec s)"
  let ?ns = "\<lambda>t. map (\<lambda>v. RR_NS \<lparr>rh_name = ?a, rh_class = class_INET, rh_ttl = t\<rparr> (dl_canonical lib (nsv_name v))) ?sv"
  assume c: "compile_records lib ?a ?rec ([(?a, [])], [], default_ttl) = Inr (owners, wild, ttl)"
    and o: "z_owners z = put_rrset (default_apex_ns lib ?a ttl ?sv owners) ?a qtype_SOA [z_soa z]"
  have t: "rrset (owner_rrsets owners m) j = ts \<longleftrightarrow> declared lib ?a ?rec m j ts" if "ts \<noteq> []" for m j ts
    using compile_records_table [OF c that, of m j] that by auto
  let ?old = "rrset (owner_rrsets owners ?a) qtype_NS"
  have none: "(\<nexists>rs. rs \<noteq> [] \<and> declared lib ?a ?rec ?a qtype_NS rs) \<longleftrightarrow> ?old = []"
    using t [of _ ?a qtype_NS] by metis
  have d: "rrset (owner_rrsets (default_apex_ns lib ?a ttl ?sv owners) m) j =
      (if m = ?a \<and> j = qtype_NS \<and> ?old = [] then ?ns default_ttl else rrset (owner_rrsets owners m) j)" for m j
    using compile_records_ttl [OF c] by (auto simp: default_apex_ns_def)
  show ?thesis
  proof (cases "n = ?a \<and> k = qtype_SOA")
    case True
    then show ?thesis by (auto simp: o)
  next
    case False
    then have z: "rrset (owner_rrsets (z_owners z) n) k = rrset (owner_rrsets (default_apex_ns lib ?a ttl ?sv owners) n) k"
      unfolding o put_rrset_table by (rule if_not_P)
    show ?thesis
    proof (cases "n = ?a \<and> k = qtype_NS \<and> ?old = []")
      case True
      with none assms(2) have "\<not> declared lib ?a ?rec n k rs" by blast
      with True none show ?thesis unfolding z d by auto
    next
      case other: False
      then have "\<not> (n = ?a \<and> k = qtype_NS \<and> (\<nexists>rs. rs \<noteq> [] \<and> declared lib ?a ?rec n k rs))" using none by blast
      with False other show ?thesis unfolding z d t [OF assms(2), of n k, symmetric] by auto
    qed
  qed
qed

text \<open>The names that exist in a snapshot, and the closest existing name above another.\<close>

definition exists_name :: "dns_lib \<Rightarrow> hosted_zone \<Rightarrow> string \<Rightarrow> bool" where
  "exists_name lib s n \<longleftrightarrow> n = apex_of lib s \<or> list_ex (\<lambda>r. n \<in> declared_names lib (apex_of lib s) r) (hs_records (hz_spec s))"

definition closest_encloser :: "dns_lib \<Rightarrow> hosted_zone \<Rightarrow> string \<Rightarrow> string option" where
  "closest_encloser lib s name =
     find (exists_name lib s) (takeWhile (dl_sub lib (apex_of lib s)) (lineage lib (parent_name lib name)))"

definition has_wildcard :: "dns_lib \<Rightarrow> hosted_zone \<Rightarrow> string \<Rightarrow> bool" where
  "has_wildcard lib s e \<longleftrightarrow> list_ex (\<lambda>r. record_owner lib (apex_of lib s) r = ''*.'' @ e) (hs_records (hz_spec s))"

lemma zone_names:
  assumes "compile_zone lib s = Inr z"
  shows "(map_of (z_owners z) n \<noteq> None \<longleftrightarrow> exists_name lib s n) \<and> (e \<in> set (z_wildcards z) \<longleftrightarrow> has_wildcard lib s e)"
proof (rule compile_zone_parts [OF assms])
  fix owners wild ttl
  assume c: "compile_records lib (apex_of lib s) (hs_records (hz_spec s)) ([(apex_of lib s, [])], [], default_ttl) = Inr (owners, wild, ttl)"
    and o: "z_owners z = put_rrset (default_apex_ns lib (apex_of lib s) ttl (hs_name_servers (hz_spec s)) owners) (apex_of lib s) qtype_SOA [z_soa z]"
    and w: "z_wildcards z = wild"
  have "dom (map_of (default_apex_ns lib (apex_of lib s) ttl (hs_name_servers (hz_spec s)) owners)) \<union> {apex_of lib s} = dom (map_of owners) \<union> {apex_of lib s}"
    by (auto simp: default_apex_ns_def)
  then have "dom (map_of (z_owners z)) = dom (map_of owners) \<union> {apex_of lib s}" by (simp add: o)
  with compile_records_dom [OF c] have "dom (map_of (z_owners z)) = {n. exists_name lib s n}"
    by (auto simp: exists_name_def list_ex_iff)
  then have "map_of (z_owners z) n \<noteq> None \<longleftrightarrow> exists_name lib s n" by (metis (mono_tags) domIff mem_Collect_eq)
  moreover have "e \<in> set (z_wildcards z) \<longleftrightarrow> has_wildcard lib s e"
  proof -
    have p: "has_prefix x ''*.'' \<and> drop 2 x = e \<longleftrightarrow> x = ''*.'' @ e" for x by (auto simp: has_prefix_iff)
    have "set (z_wildcards z) = {drop 2 (record_owner lib (apex_of lib s) r) | r. r \<in> set (hs_records (hz_spec s))
        \<and> has_prefix (record_owner lib (apex_of lib s) r) ''*.''}"
      using compile_records_dom [OF c] by (simp add: w)
    moreover have "has_wildcard lib s e \<longleftrightarrow> (\<exists>r \<in> set (hs_records (hz_spec s)).
        has_prefix (record_owner lib (apex_of lib s) r) ''*.'' \<and> drop 2 (record_owner lib (apex_of lib s) r) = e)"
      by (simp only: has_wildcard_def list_ex_iff p)
    ultimately show ?thesis by (simp only: mem_Collect_eq) blast
  qed
  ultimately show ?thesis ..
qed

lemma enclosing_wildcard_find:
  assumes "compile_zone lib s = Inr z"
  shows "enclosing_wildcard lib z as = (case find (exists_name lib s) (takeWhile (dl_sub lib (apex_of lib s)) as) of None \<Rightarrow> None
     | Some e \<Rightarrow> if has_wildcard lib s e then Some (owner_rrsets (z_owners z) (''*.'' @ e)) else None)"
proof (induction as)
  case (Cons a as)
  have "z_apex z = apex_of lib s" by (rule compile_zone_parts [OF assms])
  with Cons zone_names [OF assms, of a a] show ?case by (simp del: not_None_eq)
qed simp

text \<open>
  C25. A name is answered as RFC 4592 asks: with its own records if it exists, as an owner or as
  a name above one; otherwise from the wildcard directly below its closest existing ancestor, when
  there is one, and from no wildcard further up.
\<close>

theorem zone_lookup_rfc4592:
  assumes "compile_zone lib s = Inr z"
  shows "zone_lookup lib z name =
    (if exists_name lib s name then Some (owner_rrsets (z_owners z) name)
     else (case closest_encloser lib s name of None \<Rightarrow> None
       | Some e \<Rightarrow> if has_wildcard lib s e then Some (owner_rrsets (z_owners z) (''*.'' @ e)) else None))"
  using zone_names [OF assms, of name name]
  by (auto simp: zone_lookup_def owner_rrsets_def enclosing_wildcard_find [OF assms] closest_encloser_def split: option.splits)

lemma cname_exclusive:
  assumes "compile_zone lib s = Inr z" and "rrset (owner_rrsets (z_owners z) n) qtype_CNAME \<noteq> []"
  shows "length (rrset (owner_rrsets (z_owners z) n) qtype_CNAME) = 1 \<and> n \<noteq> z_apex z
    \<and> (k \<noteq> qtype_CNAME \<longrightarrow> rrset (owner_rrsets (z_owners z) n) k = [])"
proof (rule compile_zone_parts [OF assms(1)])
  fix owners wild ttl
  let ?a = "apex_of lib s"
  assume f: "find (cname_clash ?a) owners = None"
    and o: "z_owners z = put_rrset (default_apex_ns lib ?a ttl (hs_name_servers (hz_spec s)) owners) ?a qtype_SOA [z_soa z]"
    and a: "z_apex z = ?a"
  have out: "rrset (owner_rrsets (z_owners z) n) j = rrset (owner_rrsets owners n) j" if "n \<noteq> ?a \<or> j = qtype_CNAME" for j
    using that by (auto simp: o default_apex_ns_def)
  have c: "rrset (owner_rrsets owners n) qtype_CNAME \<noteq> []" using assms(2) out by simp
  then obtain t where t: "map_of owners n = Some t" "rrset t qtype_CNAME \<noteq> []" "owner_rrsets owners n = t"
    by (auto simp: owner_rrsets_def split: option.splits)
  from map_of_SomeD [OF t(1)] f have "\<not> cname_clash ?a (n, t)" by (auto simp: find_None_iff)
  with t(2) have e: "length (rrset t qtype_CNAME) = 1" "length t = 1" "n \<noteq> ?a" by (auto simp: cname_clash_def Let_def)
  from e(2) obtain j rs where "t = [(j, rs)]" by (cases t) auto
  with t(2) have "k \<noteq> qtype_CNAME \<Longrightarrow> rrset t k = []" by (auto simp: rrset_def split: if_splits)
  with e t(3) out a show ?thesis by simp
qed

section \<open>An example\<close>

definition demo_canonical :: "string \<Rightarrow> string" where
  "demo_canonical s = (let l = to_lower s in if has_suffix l ''.'' then l else l @ ''.'')"

definition demo_sub :: "string \<Rightarrow> string \<Rightarrow> bool" where
  "demo_sub parent child \<longleftrightarrow> child = parent \<or> has_suffix child (''.'' @ parent)"

definition demo_next_label :: "string \<Rightarrow> nat \<times> bool" where
  "demo_next_label name = (case cut CHR ''.'' name of (b, a, found) \<Rightarrow> if a = [] then (length name, True) else (length b + 1, False))"

text \<open>Reads \<open>owner ttl IN type value\<close> of the types the example uses.\<close>

definition demo_new_rr :: "string \<Rightarrow> string + rr" where
  "demo_new_rr text = (case split_on CHR '' '' text of
     [owner, ttl, cls, kind, v] \<Rightarrow>
       let h = \<lparr>rh_name = owner, rh_class = class_INET, rh_ttl = 60\<rparr> in
       if kind = ''A'' then Inr (RR_A h (parse_addr v)) else if kind = ''CNAME'' then Inr (RR_CNAME h v)
       else Inl ''unexpected type''
   | _ \<Rightarrow> Inl ''malformed'')"

definition demo_type :: "string \<Rightarrow> nat option" where
  "demo_type s = map_of [(''A'', qtype_A), (''CNAME'', qtype_CNAME), (''NS'', qtype_NS)] s"

definition demo_dns :: dns_lib where
  "demo_dns = \<lparr>dl_canonical = demo_canonical, dl_is_name = (\<lambda>s. s \<noteq> []), dl_sub = demo_sub, dl_next_label = demo_next_label,
     dl_new_rr = demo_new_rr, dl_type = demo_type, dl_quoted = (\<lambda>s. s)\<rparr>"

definition demo_meta :: "string \<Rightarrow> object_meta" where
  "demo_meta n = \<lparr>om_namespace = ''dns'', om_name = n, om_uid = ''u-'' @ n, om_generation = 1, om_creation = 0,
       om_deletion = None, om_labels = [], om_annotations = [], om_finalizers = [],
       om_owners = [\<lparr>or_api_version = ''dns.appthrust.io/v1alpha1'', or_kind = ''ZoneUnit'', or_name = n, or_uid = ''z'',
         or_controller = Some True\<rparr>]\<rparr>"

definition demo_hosted :: "string \<Rightarrow> hosted_zone" where
  "demo_hosted n = \<lparr>hz_meta = demo_meta n, hz_spec = \<lparr>hs_domain = ''example.com'', hs_serial = 7,
     hs_soa = \<lparr>soa_mname = ''ns1.example.com'', soa_rname = ''hostmaster.example.com'', soa_refresh = 1, soa_retry = 1, soa_expire = 1, soa_minimum = 300\<rparr>,
     hs_name_servers = [\<lparr>nsv_name = ''ns1.example.com'', nsv_addresses = [''192.0.2.53'']\<rparr>],
     hs_records = [\<lparr>hr_name = ''www'', hr_type = ''CNAME'', hr_ttl = 60, hr_values = [''web.apps.example.com.'']\<rparr>,
       \<lparr>hr_name = ''*.apps'', hr_type = ''A'', hr_ttl = 60, hr_values = [''192.0.2.1'']\<rparr>], hs_digest = ''d''\<rparr>, hz_servers = []\<rparr>"

definition demo_zone :: zone where
  "demo_zone = (case compile_zone demo_dns (demo_hosted ''z'') of Inr z \<Rightarrow> z)"

lemma demo_labels: "labels_ok demo_dns"
  unfolding labels_ok_def
proof (intro allI impI)
  fix name i assume "dl_next_label demo_dns name = (i, False)"
  then obtain b a f where c: "cut CHR ''.'' name = (b, a, f)" "a \<noteq> []" "i = length b + 1"
    by (auto simp: demo_dns_def demo_next_label_def split: prod.splits if_splits)
  with cut_found [OF c(1)] show "0 < i \<and> i < length name" by (cases f) auto
qed

lemma demo_compiles: "compile_zone demo_dns (demo_hosted ''z'') = Inr demo_zone"
proof -
  have "\<not> isl (compile_zone demo_dns (demo_hosted ''z''))" by code_simp
  then show ?thesis by (auto simp: demo_zone_def split: sum.splits)
qed

definition demo_index :: zone_index where
  "demo_index = fst (index_replace demo_dns (demo_hosted ''z'') (new_zone_index 4))"

lemma demo_index_ok: "index_ok demo_index"
  using index_replace_refines [OF index_ok_new] by (simp add: demo_index_def)

theorem lineage_complete_witness: "lineage demo_dns ''a.b.'' = [''a.b.'', ''b.'', ''.'']"
proof -
  have "name_chain demo_dns (length ''a.b.'' + 2 + 3) ''a.b.'' = [''a.b.'', ''b.'', ''.'']" by code_simp
  then show ?thesis unfolding conjunct1 [OF lineage_complete [OF demo_labels, of "''a.b.''" 3]] .
qed

theorem index_refinement_witness: "sv_zones (index_abs (reconcile_absent_apex ''example.com.'' True demo_index)) ''example.com.'' = None"
  using index_refinement [OF demo_index_ok, of demo_dns "demo_hosted ''z''" undefined undefined "''example.com.''" True]
  by (simp add: spec_absent_def)

theorem closest_authority_witness: "\<exists>post. lineage demo_dns ''www.example.com.'' = [''www.example.com.''] @ z_apex demo_zone # post"
proof -
  have found: "index_lookup demo_dns demo_index ''www.example.com.'' = Some demo_zone"
    and line: "lineage demo_dns ''www.example.com.'' = [''www.example.com.'', ''example.com.'', ''com.'', ''.'']"
    and apex: "z_apex demo_zone = ''example.com.''" by code_simp+
  from found [unfolded closest_authority [OF demo_index_ok]] show ?thesis by (simp add: line apex)
qed

theorem zone_table_exact_witness:
  "rrset (owner_rrsets (z_owners demo_zone) ''example.com.'') qtype_SOA = [z_soa demo_zone]"
proof -
  have "apex_of demo_dns (demo_hosted ''z'') = ''example.com.''" by code_simp
  with zone_table_exact [OF demo_compiles, of "[z_soa demo_zone]" "''example.com.''" qtype_SOA] show ?thesis by simp
qed

theorem zone_lookup_rfc4592_witness:
  "zone_lookup demo_dns demo_zone ''web.apps.example.com.'' = Some (owner_rrsets (z_owners demo_zone) ''*.apps.example.com.'')"
proof -
  have "\<not> exists_name demo_dns (demo_hosted ''z'') ''web.apps.example.com.''"
    "closest_encloser demo_dns (demo_hosted ''z'') ''web.apps.example.com.'' = Some ''apps.example.com.''"
    "has_wildcard demo_dns (demo_hosted ''z'') ''apps.example.com.''" by code_simp+
  then show ?thesis by (simp add: zone_lookup_rfc4592 [OF demo_compiles])
qed

end
