(* ===== verification/Hosted_Answer.thy ===== *)
theory Hosted_Answer
  imports Hosted_Zone
begin

text \<open>
  \<open>internal/go/providers/hosted/server/handler.go\<close>: the answer to one query. A query sees one
  zone throughout. The functions of \<open>github.com/miekg/dns\<close> on messages are the parameter
  \<open>msg_lib\<close>; a failing type assertion on a record (a panic in the code) is \<open>None\<close>. The metrics are
  not modelled, and of the connection only whether it is UDP and whether the limiter admits its
  address.
\<close>

record reply = dns_msg +
  rp_recursion_available :: bool
  rp_compress :: bool

record msg_lib =
  ml_set_reply :: "dns_msg \<Rightarrow> reply"
  ml_edns0 :: "dns_msg \<Rightarrow> (nat \<times> nat) option"
  ml_set_edns0 :: "reply \<Rightarrow> nat \<Rightarrow> bool \<Rightarrow> reply"
  ml_truncate :: "reply \<Rightarrow> nat \<Rightarrow> reply"

definition udp_payload_size :: nat where "udp_payload_size = 1232"
definition min_msg_size :: nat where "min_msg_size = 512"

section \<open>Answer and additional sections\<close>

fun with_name :: "rr \<Rightarrow> string \<Rightarrow> rr" where
  "with_name (RR_A h a) n = RR_A (h\<lparr>rh_name := n\<rparr>) a"
| "with_name (RR_AAAA h a) n = RR_AAAA (h\<lparr>rh_name := n\<rparr>) a"
| "with_name (RR_CNAME h t) n = RR_CNAME (h\<lparr>rh_name := n\<rparr>) t"
| "with_name (RR_NS h t) n = RR_NS (h\<lparr>rh_name := n\<rparr>) t"
| "with_name (RR_SOA h s) n = RR_SOA (h\<lparr>rh_name := n\<rparr>) s"
| "with_name (RR_MX h p t) n = RR_MX (h\<lparr>rh_name := n\<rparr>) p t"
| "with_name (RR_HINFO h c os) n = RR_HINFO (h\<lparr>rh_name := n\<rparr>) c os"
| "with_name (RR_Other k h d) n = RR_Other k (h\<lparr>rh_name := n\<rparr>) d"

definition append_with_owner :: "rr list \<Rightarrow> rr list \<Rightarrow> string \<Rightarrow> rr list" where
  "append_with_owner answer records owner =
     answer @ map (\<lambda>r. if rh_name (rr_hdr r) \<noteq> owner then with_name r owner else r) records"

fun additional_target :: "rr \<Rightarrow> string option" where
  "additional_target (RR_NS h t) = Some t"
| "additional_target (RR_MX h p t) = Some t"
| "additional_target r = None"

text \<open>
  The code compares the addresses already added by identity. The identity of a record of the
  zone is its owner, type and position; the additional section has no other record of the zone
  when the addresses are added.
\<close>

type_synonym rr_ref = "string \<times> nat \<times> nat"

definition deref :: "zone \<Rightarrow> rr_ref \<Rightarrow> rr" where
  "deref z p = (case p of (n, k, i) \<Rightarrow> rrset (owner_rrsets (z_owners z) n) k ! i)"

definition address_refs :: "dns_lib \<Rightarrow> zone \<Rightarrow> rr \<Rightarrow> rr_ref list" where
  "address_refs lib z r = (case additional_target r of None \<Rightarrow> []
     | Some t \<Rightarrow> let n = dl_canonical lib t in
         concat (map (\<lambda>k. map (\<lambda>i. (n, k, i)) [0..<length (rrset (owner_rrsets (z_owners z) n) k)]) [qtype_A, qtype_AAAA]))"

fun add_refs :: "rr_ref list \<Rightarrow> rr_ref list \<Rightarrow> rr_ref list" where
  "add_refs present [] = present"
| "add_refs present (p # ps) = add_refs (if p \<in> set present then present else present @ [p]) ps"

definition append_additional :: "dns_lib \<Rightarrow> rr list \<Rightarrow> rr list \<Rightarrow> zone \<Rightarrow> rr list" where
  "append_additional lib additional records z =
     additional @ map (deref z) (add_refs [] (concat (map (address_refs lib z) records)))"

section \<open>The loop over aliases\<close>

definition max_links :: nat where "max_links = 8"

definition servfail :: "reply \<Rightarrow> reply" where
  "servfail r = r\<lparr>m_answer := [], m_rcode := rcode_server_failure\<rparr>"

fun cname_target :: "rr \<Rightarrow> string option" where
  "cname_target (RR_CNAME h t) = Some t"
| "cname_target r = None"

text \<open>
  \<open>find\<close> is the lookup of the index and \<open>seen\<close> the names whose alias was followed. The code leaves
  the loop when eight names have been seen, so more never are.
\<close>

function answer_loop :: "dns_lib \<Rightarrow> (string \<Rightarrow> zone option) \<Rightarrow> zone \<Rightarrow> nat \<Rightarrow> string \<Rightarrow> string \<Rightarrow> string list \<Rightarrow> reply \<Rightarrow> reply option" where
  "answer_loop lib find_zone z qtype name owner_case seen response =
     (case zone_lookup lib z name of
        None \<Rightarrow> Some (response\<lparr>m_rcode := rcode_name_error, m_ns := [z_negative_soa z]\<rparr>)
      | Some rrsets \<Rightarrow>
        let records = rrset rrsets qtype; cnames = rrset rrsets qtype_CNAME in
        if records \<noteq> [] then
          Some (response\<lparr>m_answer := append_with_owner (m_answer response) records owner_case,
            m_extra := (if name = z_apex z \<and> (qtype = qtype_SOA \<or> qtype = qtype_NS) then m_extra response @ z_glue z
              else append_additional lib (m_extra response) records z)\<rparr>)
        else if cnames = [] then Some (response\<lparr>m_ns := [z_negative_soa z]\<rparr>)
        else if length seen \<ge> max_links then Some (servfail response)
        else if name \<in> set seen then Some (servfail response)
        else (case cname_target (hd cnames) of
            None \<Rightarrow> None
          | Some target \<Rightarrow>
            let next = dl_canonical lib target;
                response1 = response\<lparr>m_answer := append_with_owner (m_answer response) cnames owner_case\<rparr> in
            if \<not> dl_sub lib (z_apex z) next then Some response1
            else if (case find_zone next of None \<Rightarrow> True | Some y \<Rightarrow> z_apex y \<noteq> z_apex z) then Some response1
            else answer_loop lib find_zone z qtype next target (seen @ [name]) response1))"
  by pat_completeness auto
termination
  by (relation "measure (\<lambda>(lib, f, z, q, n, c, seen, r). max_links - length seen)") auto

declare answer_loop.simps [simp del]

definition hinfo_answer :: "zone \<Rightarrow> string \<Rightarrow> rr" where
  "hinfo_answer z name = RR_HINFO \<lparr>rh_name = name, rh_class = class_INET, rh_ttl = rh_ttl (rr_hdr (z_soa z))\<rparr> ''RFC8482'' []"

text \<open>The reply and the apex the query is counted for.\<close>

definition answer :: "dns_lib \<Rightarrow> msg_lib \<Rightarrow> zone_index \<Rightarrow> dns_msg \<Rightarrow> (reply \<times> string) option" where
  "answer lib ml ix request =
     (let response0 = (ml_set_reply ml request)\<lparr>m_authoritative := True, rp_recursion_available := False, rp_compress := True\<rparr>;
          response = (case ml_edns0 ml request of None \<Rightarrow> response0 | Some _ \<Rightarrow> ml_set_edns0 ml response0 udp_payload_size False) in
      if (case ml_edns0 ml request of None \<Rightarrow> False | Some (version, _) \<Rightarrow> version \<noteq> 0) then
        Some (response\<lparr>m_rcode := rcode_bad_vers\<rparr>, [])
      else if m_opcode request \<noteq> opcode_query then Some (response\<lparr>m_rcode := rcode_not_implemented\<rparr>, [])
      else if length (m_question request) \<noteq> 1 then Some (response\<lparr>m_rcode := rcode_format_error\<rparr>, [])
      else
        let question = hd (m_question request); name = dl_canonical lib (qn_name question) in
        (case index_lookup lib ix name of
           None \<Rightarrow> Some (response\<lparr>m_rcode := rcode_refused\<rparr>, [])
         | Some z \<Rightarrow>
           if qn_class question \<noteq> class_INET then Some (response\<lparr>m_rcode := rcode_refused\<rparr>, [])
           else if qn_type question = qtype_AXFR \<or> qn_type question = qtype_IXFR then
             Some (response\<lparr>m_rcode := rcode_refused\<rparr>, z_apex z)
           else if qn_type question = qtype_ANY then
             Some (response\<lparr>m_answer := [hinfo_answer z (qn_name question)]\<rparr>, z_apex z)
           else map_option (\<lambda>r. (r, z_apex z))
             (answer_loop lib (index_lookup lib ix) z (qn_type question) name (qn_name question) [] response)))"

text \<open>
  \<open>ServeDNS\<close>: nothing is sent to a source over its rate; a UDP reply is cut to the size the
  query allows. The outer \<open>None\<close> is a panic.
\<close>

definition udp_size :: "msg_lib \<Rightarrow> dns_msg \<Rightarrow> nat" where
  "udp_size ml request = (case ml_edns0 ml request of None \<Rightarrow> min_msg_size
     | Some (_, advertised) \<Rightarrow> min udp_payload_size (max min_msg_size advertised))"

definition serve_dns :: "dns_lib \<Rightarrow> msg_lib \<Rightarrow> zone_index \<Rightarrow> bool \<Rightarrow> bool \<Rightarrow> dns_msg \<Rightarrow> reply option option" where
  "serve_dns lib ml ix udp allowed request =
     (if udp \<and> \<not> allowed then Some None
      else (case answer lib ml ix request of None \<Rightarrow> None
        | Some (response, apex) \<Rightarrow>
          Some (Some (if udp then ml_truncate ml response (udp_size ml request) else response))))"

section \<open>What a query is answered\<close>

text \<open>
  The specification of the loop: the alias chain of a name within its zone, with the records it
  collects, how it ends and the number of aliases followed.
\<close>

datatype chain_end = NoName | NoData | Outside | Found string "rr list"

definition renamed :: "rr list \<Rightarrow> string \<Rightarrow> rr list" where
  "renamed records owner = append_with_owner [] records owner"

definition stays :: "dns_lib \<Rightarrow> (string \<Rightarrow> zone option) \<Rightarrow> zone \<Rightarrow> string \<Rightarrow> bool" where
  "stays lib find_zone z n \<longleftrightarrow> dl_sub lib (z_apex z) n \<and> (case find_zone n of None \<Rightarrow> False | Some y \<Rightarrow> z_apex y = z_apex z)"

inductive resolves :: "dns_lib \<Rightarrow> (string \<Rightarrow> zone option) \<Rightarrow> zone \<Rightarrow> nat \<Rightarrow> string \<Rightarrow> string \<Rightarrow> rr list \<Rightarrow> chain_end \<Rightarrow> nat \<Rightarrow> bool"
  for lib find_zone z qtype where
  no_name: "zone_lookup lib z n = None \<Longrightarrow> resolves lib find_zone z qtype n c [] NoName 0"
| found: "zone_lookup lib z n = Some t \<Longrightarrow> rrset t qtype \<noteq> [] \<Longrightarrow>
    resolves lib find_zone z qtype n c (renamed (rrset t qtype) c) (Found n (rrset t qtype)) 0"
| no_data: "zone_lookup lib z n = Some t \<Longrightarrow> rrset t qtype = [] \<Longrightarrow> rrset t qtype_CNAME = [] \<Longrightarrow>
    resolves lib find_zone z qtype n c [] NoData 0"
| outside: "zone_lookup lib z n = Some t \<Longrightarrow> rrset t qtype = [] \<Longrightarrow> rrset t qtype_CNAME \<noteq> [] \<Longrightarrow>
    cname_target (hd (rrset t qtype_CNAME)) = Some target \<Longrightarrow> \<not> stays lib find_zone z (dl_canonical lib target) \<Longrightarrow>
    resolves lib find_zone z qtype n c (renamed (rrset t qtype_CNAME) c) Outside 1"
| follow: "zone_lookup lib z n = Some t \<Longrightarrow> rrset t qtype = [] \<Longrightarrow> rrset t qtype_CNAME \<noteq> [] \<Longrightarrow>
    cname_target (hd (rrset t qtype_CNAME)) = Some target \<Longrightarrow> stays lib find_zone z (dl_canonical lib target) \<Longrightarrow>
    resolves lib find_zone z qtype (dl_canonical lib target) target ans e k \<Longrightarrow>
    resolves lib find_zone z qtype n c (renamed (rrset t qtype_CNAME) c @ ans) e (Suc k)"

inductive_cases resolvesE: "resolves lib find_zone z qtype n c ans e k"

text \<open>The reply such a chain calls for.\<close>

definition chain_reply :: "dns_lib \<Rightarrow> zone \<Rightarrow> nat \<Rightarrow> reply \<Rightarrow> rr list \<Rightarrow> chain_end \<Rightarrow> reply" where
  "chain_reply lib z qtype r ans e = (let r1 = r\<lparr>m_answer := m_answer r @ ans\<rparr> in
     case e of
       NoName \<Rightarrow> r1\<lparr>m_rcode := rcode_name_error, m_ns := [z_negative_soa z]\<rparr>
     | NoData \<Rightarrow> r1\<lparr>m_ns := [z_negative_soa z]\<rparr>
     | Outside \<Rightarrow> r1
     | Found n records \<Rightarrow> r1\<lparr>m_extra := (if n = z_apex z \<and> (qtype = qtype_SOA \<or> qtype = qtype_NS) then m_extra r @ z_glue z
         else append_additional lib (m_extra r) records z)\<rparr>)"

definition aliases_typed :: "zone \<Rightarrow> bool" where
  "aliases_typed z \<longleftrightarrow> (\<forall>n. \<forall>r \<in> set (rrset (owner_rrsets (z_owners z) n) qtype_CNAME). cname_target r \<noteq> None)"

lemma append_renamed: "append_with_owner xs records c = xs @ renamed records c"
  by (simp add: append_with_owner_def renamed_def)

lemma resolves_length:
  "resolves lib f z q n c ans e k \<Longrightarrow> resolves lib f z q n c' ans' e' k' \<Longrightarrow> k = k'"
proof (induction arbitrary: c' ans' e' k' rule: resolves.induct)
  case (follow n t target ans e k c)
  from follow.prems show ?case
  proof (cases rule: resolves.cases)
    case (follow t2 target2 ans2 k2)
    with follow.hyps(1-5) have "target2 = target" by simp
    with follow follow.IH show ?thesis by simp
  qed (use follow.hyps(1-5) in simp_all)
qed (auto elim: resolvesE)

lemma chain_reply_step:
  "chain_reply lib z q (r\<lparr>m_answer := m_answer r @ xs\<rparr>) ans e = chain_reply lib z q r (xs @ ans) e"
  by (simp add: chain_reply_def Let_def split: chain_end.splits)

lemma answer_loop_chain:
  "resolves lib f z q n c ans e k \<Longrightarrow> length seen + k \<le> max_links \<Longrightarrow>
   (\<forall>s \<in> set seen. \<forall>c ans e j. resolves lib f z q s c ans e j \<longrightarrow> k < j) \<Longrightarrow>
   answer_loop lib f z q n c seen r = Some (chain_reply lib z q r ans e)"
proof (induction arbitrary: seen r rule: resolves.induct)
  case (no_name n c)
  then show ?case by (simp add: answer_loop.simps [of lib f z q n] chain_reply_def Let_def)
next
  case (found n t c)
  then show ?case by (simp add: answer_loop.simps [of lib f z q n] chain_reply_def append_renamed Let_def)
next
  case (no_data n t c)
  then show ?case by (simp add: answer_loop.simps [of lib f z q n] chain_reply_def Let_def)
next
  case (outside n t target c)
  have "resolves lib f z q n c (renamed (rrset t qtype_CNAME) c) Outside 1"
    using outside(1-5) by (rule resolves.outside)
  then have "n \<notin> set seen" using outside.prems(2) by blast
  then show ?case using outside
    by (auto simp: answer_loop.simps [of lib f z q n] chain_reply_def append_renamed Let_def stays_def split: option.splits)
next
  case (follow n t target ans e k c)
  have here: "resolves lib f z q n c (renamed (rrset t qtype_CNAME) c @ ans) e (Suc k)" for c
    using follow(1-6) by (rule resolves.follow)
  then have fresh: "n \<notin> set seen" using follow.prems(2) by blast
  let ?r = "r\<lparr>m_answer := m_answer r @ renamed (rrset t qtype_CNAME) c\<rparr>"
  have "\<forall>s \<in> set (seen @ [n]). \<forall>c ans e j. resolves lib f z q s c ans e j \<longrightarrow> k < j"
  proof (intro ballI allI impI)
    fix s c ans e j assume s: "s \<in> set (seen @ [n])" "resolves lib f z q s c ans e j"
    show "k < j"
    proof (cases "s \<in> set seen")
      case True
      with follow.prems(2) s(2) have "Suc k < j" by blast
      then show ?thesis by simp
    next
      case False
      with s resolves_length [OF here] show ?thesis by auto
    qed
  qed
  moreover have "length (seen @ [n]) + k \<le> max_links" using follow.prems(1) by simp
  ultimately have "answer_loop lib f z q (dl_canonical lib target) target (seen @ [n]) ?r = Some (chain_reply lib z q ?r ans e)"
    using follow.IH by blast
  then show ?case using follow fresh
    by (simp add: answer_loop.simps [of lib f z q n] append_renamed Let_def stays_def chain_reply_step split: option.splits)
qed

lemma zone_lookup_typed:
  assumes "aliases_typed z" and "zone_lookup lib z n = Some t" and "rrset t qtype_CNAME \<noteq> []"
  shows "\<exists>target. cname_target (hd (rrset t qtype_CNAME)) = Some target"
proof -
  have c: "\<exists>m. t = owner_rrsets (z_owners z) m" if "enclosing_wildcard lib z as = Some t" for as
    using that by (induction as) (auto split: if_splits)
  have "\<exists>m. t = owner_rrsets (z_owners z) m"
  proof (cases "map_of (z_owners z) n")
    case None
    with assms(2) c show ?thesis by (simp add: zone_lookup_def)
  next
    case (Some u)
    with assms(2) show ?thesis by (intro exI [of _ n]) (simp add: zone_lookup_def owner_rrsets_def)
  qed
  then obtain m where m: "t = owner_rrsets (z_owners z) m" ..
  from assms(3) have "hd (rrset t qtype_CNAME) \<in> set (rrset t qtype_CNAME)" by simp
  with assms(1) have "cname_target (hd (rrset t qtype_CNAME)) \<noteq> None" unfolding aliases_typed_def m by blast
  then show ?thesis by simp
qed

lemma answer_loop_fails:
  assumes "aliases_typed z" and "length seen \<le> max_links"
    and "\<nexists>ans e k. length seen + k \<le> max_links \<and> resolves lib f z q n c ans e k"
  shows "answer_loop lib f z q n c seen r = Some (servfail r)"
  using assms(2,3)
proof (induction "max_links - length seen" arbitrary: n c seen r)
  case 0
  show ?case
  proof (cases "zone_lookup lib z n")
    case None
    with resolves.no_name [OF this] 0 show ?thesis by (metis add.right_neutral)
  next
    case (Some t)
    have q: "rrset t q = []" using resolves.found [OF Some] 0 by (metis add.right_neutral)
    have "rrset t qtype_CNAME \<noteq> []" using resolves.no_data [OF Some q] 0 by (metis add.right_neutral)
    with Some q 0 show ?thesis by (simp add: answer_loop.simps [of lib f z q n] Let_def)
  qed
next
  case (Suc m)
  show ?case
  proof (cases "zone_lookup lib z n")
    case None
    with resolves.no_name [OF this] Suc.prems show ?thesis by (metis add.right_neutral)
  next
    case (Some t)
    have q: "rrset t q = []" using resolves.found [OF Some] Suc.prems by (metis add.right_neutral)
    have cn: "rrset t qtype_CNAME \<noteq> []" using resolves.no_data [OF Some q] Suc.prems by (metis add.right_neutral)
    from zone_lookup_typed [OF assms(1) Some cn] obtain target where target: "cname_target (hd (rrset t qtype_CNAME)) = Some target" ..
    have lt: "length seen < max_links" using Suc.hyps(2) by simp
    have stays: "stays lib f z (dl_canonical lib target)"
      using resolves.outside [OF Some q cn target] Suc.prems(2) lt by (metis Suc_eq_plus1 Suc_leI)
    have none: "\<nexists>ans e k. length (seen @ [n]) + k \<le> max_links \<and> resolves lib f z q (dl_canonical lib target) target ans e k"
    proof
      assume "\<exists>ans e k. length (seen @ [n]) + k \<le> max_links \<and> resolves lib f z q (dl_canonical lib target) target ans e k"
      then obtain ans e k where "length seen + Suc k \<le> max_links" "resolves lib f z q (dl_canonical lib target) target ans e k" by auto
      with resolves.follow [OF Some q cn target stays] Suc.prems(2) show False by blast
    qed
    have "m = max_links - length (seen @ [n])" "length (seen @ [n]) \<le> max_links" using Suc.hyps(2) by simp_all
    from Suc.hyps(1) [OF this none]
    have "answer_loop lib f z q (dl_canonical lib target) target (seen @ [n]) (r\<lparr>m_answer := append_with_owner (m_answer r) (rrset t qtype_CNAME) c\<rparr>)
        = Some (servfail r)" by (simp add: servfail_def)
    with Some q cn target stays lt show ?thesis
      by (auto simp: answer_loop.simps [of lib f z q n] Let_def stays_def split: option.splits)
  qed
qed

text \<open>
  C17. A query for a name in a zone is answered along its chain of aliases, as far as the zone
  has authority: with every alias on the way and the records, the absence of data or the absence
  of the name it ends in. A chain that is cyclic or has more than eight aliases is answered with
  a failure and no records. In either case the loop returns.
\<close>

theorem answer_loop_exact:
  assumes "aliases_typed z"
  shows "(\<forall>ans e k. resolves lib f z q n c ans e k \<and> k \<le> max_links \<longrightarrow> answer_loop lib f z q n c [] r = Some (chain_reply lib z q r ans e))
    \<and> ((\<nexists>ans e k. k \<le> max_links \<and> resolves lib f z q n c ans e k) \<longrightarrow> answer_loop lib f z q n c [] r = Some (servfail r))"
  using answer_loop_chain [of lib f z q n c _ _ _ "[]" r] answer_loop_fails [OF assms, of "[]" lib f q n c r] by auto

section \<open>Compiled zones\<close>

text \<open>
  What the code relies on in \<open>dns.NewRR\<close>, for the values of one snapshot: a line with type CNAME
  yields a CNAME record.
\<close>

definition alias_values_ok :: "dns_lib \<Rightarrow> hosted_zone \<Rightarrow> bool" where
  "alias_values_ok lib s \<longleftrightarrow> list_all (\<lambda>r. dl_type lib (hr_type r) = Some qtype_CNAME \<longrightarrow>
     list_all (\<lambda>v. case dl_new_rr lib (record_prefix (record_owner lib (apex_of lib s) r) r @ v) of
       Inl _ \<Rightarrow> True | Inr x \<Rightarrow> cname_target x \<noteq> None) (hr_values r)) (hs_records (hz_spec s))"

lemma compile_values_from: "compile_values lib p vs = Inr rs \<Longrightarrow> x \<in> set rs \<Longrightarrow> \<exists>v \<in> set vs. dl_new_rr lib (p @ v) = Inr x"
  by (induction vs arbitrary: rs) (auto split: sum.splits)

lemma compiled_aliases_typed:
  assumes "compile_zone lib s = Inr z" and "alias_values_ok lib s"
  shows "aliases_typed z"
  unfolding aliases_typed_def
proof (intro allI ballI)
  fix n x assume x: "x \<in> set (rrset (owner_rrsets (z_owners z) n) qtype_CNAME)"
  show "cname_target x \<noteq> None"
  proof (rule compile_zone_parts [OF assms(1)])
    fix owners wild ttl
    let ?a = "apex_of lib s" and ?rec = "hs_records (hz_spec s)"
    assume c: "compile_records lib ?a ?rec ([(?a, [])], [], default_ttl) = Inr (owners, wild, ttl)"
      and o: "z_owners z = put_rrset (default_apex_ns lib ?a ttl (hs_name_servers (hz_spec s)) owners) ?a qtype_SOA [z_soa z]"
    let ?rs = "rrset (owner_rrsets owners n) qtype_CNAME"
    have "rrset (owner_rrsets (z_owners z) n) qtype_CNAME = ?rs" by (simp add: o default_apex_ns_def)
    with x have m: "x \<in> set ?rs" and ne: "?rs \<noteq> []" by auto
    from compile_records_table [OF c ne, of n qtype_CNAME] ne have "declared lib ?a ?rec n qtype_CNAME ?rs" by simp
    then obtain r where r: "r \<in> set ?rec" "record_owner lib ?a r = n" "dl_type lib (hr_type r) = Some qtype_CNAME"
        "compile_values lib (record_prefix n r) (hr_values r) = Inr ?rs" by (auto simp: declared_def)
    from compile_values_from [OF r(4) m] obtain v where "v \<in> set (hr_values r)" "dl_new_rr lib (record_prefix n r @ v) = Inr x" ..
    with assms(2) r(1-3) show ?thesis unfolding alias_values_ok_def list_all_iff by fastforce
  qed
qed

text \<open>A name at or below a blocked apex, with no zone served in between, is refused.\<close>

lemma first_authority_blocked:
  "list_all (\<lambda>n. map_of (zi_zones ix) n = None) pre \<Longrightarrow> b \<in> set (zi_blocked ix) \<Longrightarrow> first_authority ix (pre @ b # post) = None"
  by (induction pre) auto

lemma blocked_refused:
  assumes "lineage lib (dl_canonical lib (qn_name q)) = pre @ b # post" and "list_all (\<lambda>n. map_of (zi_zones ix) n = None) pre"
    and "b \<in> set (zi_blocked ix)" and "m_question request = [q]" and "m_opcode request = opcode_query" and "ml_edns0 ml request = None"
  shows "answer lib ml ix request = Some ((ml_set_reply ml request)\<lparr>m_authoritative := True, rp_recursion_available := False,
     rp_compress := True, m_rcode := rcode_refused\<rparr>, [])"
  using first_authority_blocked [OF assms(2,3), of post] assms(1,4-6)
  by (simp add: answer_def index_lookup_def Let_def)

section \<open>An example\<close>

lemma demo_aliases: "aliases_typed demo_zone"
  by (rule compiled_aliases_typed [OF demo_compiles]) code_simp

definition demo_reply :: reply where
  "demo_reply = \<lparr>m_response = True, m_opcode = 0, m_rcode = 0, m_authoritative = True, m_truncated = False, m_question = [],
     m_answer = [], m_ns = [], m_extra = [], rp_recursion_available = False, rp_compress = True\<rparr>"

theorem answer_loop_exact_witness:
  "\<exists>ans. answer_loop demo_dns (index_lookup demo_dns demo_index) demo_zone qtype_A ''www.example.com.'' ''WWW.example.com.'' [] demo_reply =
     Some (chain_reply demo_dns demo_zone qtype_A demo_reply ans
       (Found ''web.apps.example.com.'' [RR_A \<lparr>rh_name = ''*.apps.example.com.'', rh_class = 1, rh_ttl = 60\<rparr> (Some (V4 192 0 2 1))]))"
proof -
  have www: "zone_lookup demo_dns demo_zone ''www.example.com.'' =
      Some [(5, [RR_CNAME \<lparr>rh_name = ''www.example.com.'', rh_class = 1, rh_ttl = 60\<rparr> ''web.apps.example.com.''])]"
    and web: "zone_lookup demo_dns demo_zone ''web.apps.example.com.'' =
      Some [(1, [RR_A \<lparr>rh_name = ''*.apps.example.com.'', rh_class = 1, rh_ttl = 60\<rparr> (Some (V4 192 0 2 1))])]"
    and canon: "dl_canonical demo_dns ''web.apps.example.com.'' = ''web.apps.example.com.''"
    and stays: "stays demo_dns (index_lookup demo_dns demo_index) demo_zone ''web.apps.example.com.''" by code_simp+
  have "\<exists>ans. resolves demo_dns (index_lookup demo_dns demo_index) demo_zone qtype_A ''www.example.com.'' ''WWW.example.com.'' ans
      (Found ''web.apps.example.com.'' [RR_A \<lparr>rh_name = ''*.apps.example.com.'', rh_class = 1, rh_ttl = 60\<rparr> (Some (V4 192 0 2 1))]) (Suc 0)"
  proof -
    let ?a = "RR_A \<lparr>rh_name = ''*.apps.example.com.'', rh_class = 1, rh_ttl = 60\<rparr> (Some (V4 192 0 2 1))"
    have "resolves demo_dns (index_lookup demo_dns demo_index) demo_zone qtype_A ''web.apps.example.com.'' ''web.apps.example.com.''
        (renamed [?a] ''web.apps.example.com.'') (Found ''web.apps.example.com.'' [?a]) 0"
      using resolves.found [OF web, of qtype_A] by (simp add: rrset_def dns_codes)
    then have "resolves demo_dns (index_lookup demo_dns demo_index) demo_zone qtype_A (dl_canonical demo_dns ''web.apps.example.com.'')
        ''web.apps.example.com.'' (renamed [?a] ''web.apps.example.com.'') (Found ''web.apps.example.com.'' [?a]) 0"
      unfolding canon .
    from resolves.follow [OF www _ _ _ _ this] show ?thesis unfolding canon using stays by (auto simp: rrset_def dns_codes)
  qed
  then obtain ans where "resolves demo_dns (index_lookup demo_dns demo_index) demo_zone qtype_A ''www.example.com.'' ''WWW.example.com.'' ans
      (Found ''web.apps.example.com.'' [RR_A \<lparr>rh_name = ''*.apps.example.com.'', rh_class = 1, rh_ttl = 60\<rparr> (Some (V4 192 0 2 1))]) (Suc 0)" ..
  moreover have "Suc 0 \<le> max_links" by (simp add: max_links_def)
  ultimately show ?thesis using conjunct1 [OF answer_loop_exact [OF demo_aliases]] by blast
qed

end
