(* ===== verification/Hosted_Watch.thy ===== *)
theory Hosted_Watch
  imports Hosted_Answer
begin

text \<open>
  \<open>internal/go/providers/hosted/server/watch.go\<close>: which snapshots reach the index. The informer's
  store changes as soon as the cluster does; its notifications wait in a queue, and a handler
  reads the store as it is when it runs. The unstructured objects are their metadata and their
  raw specification; reading the domain and decoding the snapshot are parameters. The
  acknowledgements written to the served snapshots and the connection tracking are not modelled.
\<close>

record watched =
  wt_meta :: object_meta
  wt_spec :: raw

record watch_lib =
  wl_domain :: "raw \<Rightarrow> string"
  wl_decode :: "watched \<Rightarrow> hosted_zone option"

definition watched_key :: "watched \<Rightarrow> object_reference" where
  "watched_key w = \<lparr>obr_namespace = om_namespace (wt_meta w), obr_name = om_name (wt_meta w)\<rparr>"

definition watched_owned :: "watched \<Rightarrow> bool" where
  "watched_owned w \<longleftrightarrow> has_zone_unit_owner (om_owners (wt_meta w))"

definition snapshot_apex :: "dns_lib \<Rightarrow> watch_lib \<Rightarrow> watched \<Rightarrow> string" where
  "snapshot_apex lib wl w = (let domain = wl_domain wl (wt_spec w) in if domain = [] then [] else dl_canonical lib domain)"

text \<open>The secondary index of the informer.\<close>

definition apex_keys :: "dns_lib \<Rightarrow> watch_lib \<Rightarrow> watched \<Rightarrow> string list" where
  "apex_keys lib wl w =
     (if \<not> watched_owned w then [] else let apex = snapshot_apex lib wl w in if apex = [] then [] else [apex])"

definition by_apex :: "dns_lib \<Rightarrow> watch_lib \<Rightarrow> watched list \<Rightarrow> string \<Rightarrow> watched list" where
  "by_apex lib wl objects apex = filter (\<lambda>w. apex \<in> set (apex_keys lib wl w)) objects"

text \<open>The errors logged, with the snapshot they concern.\<close>

type_synonym log = "(object_reference \<times> string) list"

definition reconcile_apex :: "dns_lib \<Rightarrow> watch_lib \<Rightarrow> watched list \<Rightarrow> string \<Rightarrow> zone_index \<Rightarrow> zone_index \<times> log" where
  "reconcile_apex lib wl objects apex ix =
     (if apex = [] then (ix, [])
      else let found = by_apex lib wl objects apex in
        if length found \<noteq> 1 then (reconcile_absent_apex apex (length found > 1) ix, [])
        else (case wl_decode wl (hd found) of
            None \<Rightarrow> (ix, [(watched_key (hd found), ''decode hosted snapshot'')])
          | Some snapshot \<Rightarrow>
            (case index_replace lib snapshot ix of
               (ix1, None) \<Rightarrow> (ix1, [])
             | (ix1, Some e) \<Rightarrow> (ix1, [(zone_key snapshot, e)]))))"

definition load :: "dns_lib \<Rightarrow> watch_lib \<Rightarrow> watched list \<Rightarrow> watched \<Rightarrow> zone_index \<Rightarrow> zone_index \<times> log" where
  "load lib wl objects w ix =
     (if \<not> watched_owned w then (index_remove (watched_key w) (om_uid (wt_meta w)) ix, [])
      else reconcile_apex lib wl objects (snapshot_apex lib wl w) ix)"

text \<open>An update that cannot have changed the specification.\<close>

definition same_revision :: "watched \<Rightarrow> watched \<Rightarrow> bool" where
  "same_revision old new \<longleftrightarrow> om_uid (wt_meta old) = om_uid (wt_meta new) \<and> om_owners (wt_meta old) = om_owners (wt_meta new)
     \<and> (om_generation (wt_meta old) > 0 \<and> om_generation (wt_meta old) = om_generation (wt_meta new)
        \<or> om_generation (wt_meta old) = 0 \<and> wt_spec old = wt_spec new)"

datatype notification = Added watched | Updated watched watched | Deleted watched

fun handle :: "dns_lib \<Rightarrow> watch_lib \<Rightarrow> watched list \<Rightarrow> notification \<Rightarrow> zone_index \<Rightarrow> zone_index \<times> log" where
  "handle lib wl objects (Added w) ix = load lib wl objects w ix"
| "handle lib wl objects (Updated old new) ix =
     (if same_revision old new then (ix, [])
      else
        let (ix1, log1) = (if watched_owned old \<and> (snapshot_apex lib wl old \<noteq> snapshot_apex lib wl new \<or> \<not> watched_owned new)
              then reconcile_apex lib wl objects (snapshot_apex lib wl old) ix else (ix, []));
            (ix2, log2) = load lib wl objects new ix1 in (ix2, log1 @ log2))"
| "handle lib wl objects (Deleted w) ix =
     (if watched_owned w then
        reconcile_apex lib wl objects (snapshot_apex lib wl w) (index_remove (watched_key w) (om_uid (wt_meta w)) ix)
      else (ix, []))"

section \<open>The watcher as a system\<close>

record watching =
  wg_objects :: "watched list"
  wg_queue :: "notification list"
  wg_index :: zone_index
  wg_log :: log

text \<open>
  The cluster creates, changes and deletes objects; the API server keeps the generation of an
  incarnation with its specification, and admits only specifications that decode.
\<close>

definition honest :: "watched \<Rightarrow> watched \<Rightarrow> bool" where
  "honest old new \<longleftrightarrow> (om_uid (wt_meta old) = om_uid (wt_meta new) \<and> om_generation (wt_meta old) = om_generation (wt_meta new)
     \<and> om_generation (wt_meta old) > 0 \<longrightarrow> wt_spec old = wt_spec new)"

inductive watch_step :: "dns_lib \<Rightarrow> watch_lib \<Rightarrow> watching \<Rightarrow> watching \<Rightarrow> bool" for lib wl where
  created: "watched_key w \<notin> watched_key ` set (wg_objects S) \<Longrightarrow> wl_decode wl w \<noteq> None \<Longrightarrow>
    watch_step lib wl S (S\<lparr>wg_objects := wg_objects S @ [w], wg_queue := wg_queue S @ [Added w]\<rparr>)"
| changed: "old \<in> set (wg_objects S) \<Longrightarrow> watched_key new = watched_key old \<Longrightarrow> honest old new \<Longrightarrow> wl_decode wl new \<noteq> None \<Longrightarrow>
    watch_step lib wl S (S\<lparr>wg_objects := map (\<lambda>w. if w = old then new else w) (wg_objects S),
      wg_queue := wg_queue S @ [Updated old new]\<rparr>)"
| deleted: "old \<in> set (wg_objects S) \<Longrightarrow>
    watch_step lib wl S (S\<lparr>wg_objects := removeAll old (wg_objects S), wg_queue := wg_queue S @ [Deleted old]\<rparr>)"
| handled: "wg_queue S = ev # rest \<Longrightarrow> handle lib wl (wg_objects S) ev (wg_index S) = (ix, errors) \<Longrightarrow>
    watch_step lib wl S (S\<lparr>wg_queue := rest, wg_index := ix, wg_log := wg_log S @ errors\<rparr>)"

definition initial_watching :: "int \<Rightarrow> watching" where
  "initial_watching limit = \<lparr>wg_objects = [], wg_queue = [], wg_index = new_zone_index limit, wg_log = []\<rparr>"

inductive watch_reaches :: "dns_lib \<Rightarrow> watch_lib \<Rightarrow> int \<Rightarrow> watching \<Rightarrow> bool" for lib wl limit where
  start: "watch_reaches lib wl limit (initial_watching limit)"
| next_step: "watch_reaches lib wl limit S \<Longrightarrow> watch_step lib wl S T \<Longrightarrow> watch_reaches lib wl limit T"

inductive_cases watch_stepE: "watch_step lib wl S T"

text \<open>What the code relies on in the decoding of a snapshot.\<close>

definition decode_ok :: "watch_lib \<Rightarrow> bool" where
  "decode_ok wl \<longleftrightarrow> (\<forall>w s. wl_decode wl w = Some s \<longrightarrow> hz_meta s = wt_meta w \<and> hs_domain (hz_spec s) = wl_domain wl (wt_spec w))
     \<and> (\<forall>v w s t. wl_decode wl v = Some s \<and> wl_decode wl w = Some t \<and> wt_spec v = wt_spec w \<longrightarrow> hz_spec s = hz_spec t)"

section \<open>What one index operation changes\<close>

context zone_store
begin

lemma publish_keeps:
  "ok ix \<Longrightarrow> owned s \<Longrightarrow> serving (publish s ix) b = Some z \<Longrightarrow> serving ix b = Some z \<or> b = apex s \<and> z_key z = zone_key s"
  using publish_elsewhere [of ix s b] publish_own [of ix s z] by (cases "b = apex s") auto

lemma publish_loses:
  "ok ix \<Longrightarrow> owned s \<Longrightarrow> b \<noteq> apex s \<Longrightarrow> serving ix b = Some z \<Longrightarrow> serving (publish s ix) b \<noteq> Some z \<Longrightarrow>
   serving (publish s ix) b = None \<and> z_key z = zone_key s"
  using publish_elsewhere [of ix s b] by auto

lemma publish_settled:
  assumes "ok ix" and "owned s" and "\<forall>z. serving ix (apex s) = Some z \<longrightarrow> z_key z = zone_key s"
    and "\<not> full s ix" and "compiled s = Some z"
  shows "serving (publish s ix) (apex s) = Some z \<and> \<not> barred (publish s ix) (apex s)"
  using publish_served [OF assms] barred_unserved [OF ok_publish [OF assms(1)], of s "apex s"] by auto

lemma withdraw_keeps: "ok ix \<Longrightarrow> serving (withdraw k u ix) b = Some z \<Longrightarrow> serving ix b = Some z"
  using withdraw_serving [of ix k u b] by auto

end

section \<open>The settled apexes\<close>

definition place :: "dns_lib \<Rightarrow> watch_lib \<Rightarrow> watched \<Rightarrow> string option" where
  "place lib wl w = (case apex_keys lib wl w of [] \<Rightarrow> None | a # _ \<Rightarrow> Some a)"

lemma place_keys: "place lib wl w = Some a \<longleftrightarrow> a \<in> set (apex_keys lib wl w)"
  by (auto simp: place_def apex_keys_def Let_def)

lemma by_apex_place: "by_apex lib wl objects a = filter (\<lambda>w. place lib wl w = Some a) objects"
  by (simp add: by_apex_def place_keys)

lemma place_iff: "place lib wl w = Some a \<longleftrightarrow> watched_owned w \<and> a \<noteq> [] \<and> snapshot_apex lib wl w = a"
  by (auto simp: place_def apex_keys_def Let_def)

lemma by_apex_Nil [simp]: "by_apex lib wl objects [] = []"
  by (simp add: by_apex_place place_iff)

text \<open>The zone an object should be served as.\<close>

definition wanted :: "dns_lib \<Rightarrow> watch_lib \<Rightarrow> watched \<Rightarrow> zone option" where
  "wanted lib wl w = Option.bind (wl_decode wl w) (compiled_snapshot lib)"

definition limit_error :: "int \<Rightarrow> string" where
  "limit_error n = ''hosted zone limit '' @ itoa n @ '' reached''"

text \<open>
  An apex without an owned object is unserved, one with several is barred, and one with a sole
  object serves that object or an error was logged: at the limit, or because it does not compile.
\<close>

definition settled :: "dns_lib \<Rightarrow> watch_lib \<Rightarrow> watched list \<Rightarrow> zone_index \<Rightarrow> log \<Rightarrow> string \<Rightarrow> bool" where
  "settled lib wl objects ix errors a \<longleftrightarrow>
     (by_apex lib wl objects a = [] \<longrightarrow> map_of (zi_zones ix) a = None \<and> a \<notin> set (zi_blocked ix))
   \<and> (length (by_apex lib wl objects a) > 1 \<longrightarrow> map_of (zi_zones ix) a = None \<and> a \<in> set (zi_blocked ix))
   \<and> (\<forall>w. by_apex lib wl objects a = [w] \<longrightarrow> (\<forall>z. map_of (zi_zones ix) a = Some z \<longrightarrow> z_key z = watched_key w)
       \<and> (\<forall>z. wanted lib wl w = Some z \<longrightarrow> map_of (zi_zones ix) a = Some z \<and> a \<notin> set (zi_blocked ix)
            \<or> (\<exists>n. (watched_key w, limit_error n) \<in> set errors)))"

lemma replace_full:
  assumes "owned_snapshot s" and "\<forall>z. map_of (zi_zones ix) (apex_of lib s) = Some z \<longrightarrow> z_key z = zone_key s" and "index_full s ix"
  shows "index_replace lib s ix = (ix, Some (limit_error (zi_max ix)))"
proof -
  have "\<not> (case map_of (zi_zones ix) (apex_of lib s) of Some z \<Rightarrow> z_key z \<noteq> zone_key s | None \<Rightarrow> False)"
    using assms(2) by (simp split: option.splits)
  with assms(1,3) show ?thesis
    by (simp add: index_replace_def Let_def owned_snapshot_def index_full_def limit_error_def apex_of_def)
qed

definition observed :: "watch_lib \<Rightarrow> watched list \<Rightarrow> bool" where
  "observed wl objects \<longleftrightarrow> decode_ok wl \<and> (\<forall>w \<in> set objects. wl_decode wl w \<noteq> None) \<and> distinct (map watched_key objects)"

lemma same_key: "observed wl objects \<Longrightarrow> v \<in> set objects \<Longrightarrow> w \<in> set objects \<Longrightarrow> watched_key v = watched_key w \<Longrightarrow> v = w"
  by (auto simp: observed_def distinct_map inj_on_def)

lemma sole_member: "by_apex lib wl objects a = [w] \<Longrightarrow> w \<in> set objects \<and> place lib wl w = Some a"
proof -
  assume "by_apex lib wl objects a = [w]"
  then have "w \<in> set (by_apex lib wl objects a)" by simp
  then show ?thesis by (simp add: by_apex_place)
qed

text \<open>A reconciliation either settles the apex without a sole object, or publishes that object.\<close>

lemma reconcile_sole:
  assumes obs: "observed wl objects" and sole: "by_apex lib wl objects a = [w]"
  obtains s where "wl_decode wl w = Some s" "owned_snapshot s" "zone_key s = watched_key w" "apex_of lib s = a"
    "reconcile_apex lib wl objects a ix = (publish_snapshot lib s ix,
       (case snd (index_replace lib s ix) of None \<Rightarrow> [] | Some e \<Rightarrow> [(watched_key w, e)]))"
proof -
  from sole_member [OF sole] have w: "w \<in> set objects" "watched_owned w" "a \<noteq> []" "snapshot_apex lib wl w = a" by (simp_all add: place_iff)
  from obs w(1) obtain s where s: "wl_decode wl w = Some s" by (auto simp: observed_def)
  with obs have m: "hz_meta s = wt_meta w" "hs_domain (hz_spec s) = wl_domain wl (wt_spec w)" unfolding observed_def decode_ok_def by blast+
  have "owned_snapshot s" "zone_key s = watched_key w"
    using w(2) by (simp_all add: owned_snapshot_def m watched_owned_def zone_key_def watched_key_def)
  moreover have "apex_of lib s = a" using w(3,4) by (auto simp: apex_of_def m snapshot_apex_def Let_def split: if_splits)
  moreover have "reconcile_apex lib wl objects a ix = (publish_snapshot lib s ix,
       (case snd (index_replace lib s ix) of None \<Rightarrow> [] | Some e \<Rightarrow> [(watched_key w, e)]))"
    using w(3) sole s calculation(2) by (simp add: reconcile_apex_def publish_snapshot_def Let_def split: prod.splits option.splits)
  ultimately show ?thesis using s by (intro that)
qed

lemma reconcile_other:
  "a \<noteq> [] \<Longrightarrow> length (by_apex lib wl objects a) \<noteq> 1 \<Longrightarrow>
   reconcile_apex lib wl objects a ix = (reconcile_absent_apex a (length (by_apex lib wl objects a) > 1) ix, [])"
  by (simp add: reconcile_apex_def)

lemma sole_cases: "length (by_apex lib wl objects a) \<noteq> 1 \<or> (\<exists>w. by_apex lib wl objects a = [w])"
  by (cases "by_apex lib wl objects a"; cases "tl (by_apex lib wl objects a)") auto

lemma reconcile_effect:
  assumes "index_ok ix" and "reconcile_apex lib wl objects a ix = (ix1, errors)" and obs: "observed wl objects"
  shows "index_ok ix1"
    and "b \<noteq> a \<Longrightarrow> b \<in> set (zi_blocked ix1) \<longleftrightarrow> b \<in> set (zi_blocked ix)"
    and "map_of (zi_zones ix1) b = Some z \<Longrightarrow> map_of (zi_zones ix) b = Some z \<or> b = a"
    and "b \<noteq> a \<Longrightarrow> map_of (zi_zones ix1) b = map_of (zi_zones ix) b \<or> map_of (zi_zones ix1) b = None \<and>
      (\<exists>z w. map_of (zi_zones ix) b = Some z \<and> by_apex lib wl objects a = [w] \<and> z_key z = watched_key w)"
    and "a \<noteq> [] \<Longrightarrow> map_of (zi_zones ix1) a = Some z \<Longrightarrow> \<exists>w. by_apex lib wl objects a = [w] \<and> z_key z = watched_key w"
proof -
  have "index_ok ix1 \<and> (b \<noteq> a \<longrightarrow> (b \<in> set (zi_blocked ix1) \<longleftrightarrow> b \<in> set (zi_blocked ix)))
    \<and> (map_of (zi_zones ix1) b = Some z \<longrightarrow> map_of (zi_zones ix) b = Some z \<or> b = a)
    \<and> (b \<noteq> a \<longrightarrow> map_of (zi_zones ix1) b = map_of (zi_zones ix) b \<or> map_of (zi_zones ix1) b = None \<and>
      (\<exists>z w. map_of (zi_zones ix) b = Some z \<and> by_apex lib wl objects a = [w] \<and> z_key z = watched_key w))
    \<and> (a \<noteq> [] \<longrightarrow> map_of (zi_zones ix1) a = Some z \<longrightarrow> (\<exists>w. by_apex lib wl objects a = [w] \<and> z_key z = watched_key w))"
  proof (cases "a = []")
    case True
    with assms show ?thesis by (simp add: reconcile_apex_def)
  next
    case False
    from sole_cases show ?thesis
    proof
      assume l: "length (by_apex lib wl objects a) \<noteq> 1"
      then have "ix1 = reconcile_absent_apex a (length (by_apex lib wl objects a) > 1) ix"
        using assms(2) reconcile_other [OF False] by simp
      then show ?thesis using store.ok_settle [OF assms(1)] store.settle_barred [OF assms(1)] store.settle_serving [OF assms(1)] by auto
    next
      assume "\<exists>w. by_apex lib wl objects a = [w]"
      then obtain w where w: "by_apex lib wl objects a = [w]" ..
      from reconcile_sole [OF obs w] obtain s where s: "owned_snapshot s" "zone_key s = watched_key w" "apex_of lib s = a"
        "ix1 = publish_snapshot lib s ix" using assms(2) by (metis prod.inject)
      note s3 = s(3) [symmetric]
      show ?thesis
        using store.ok_publish [OF assms(1), of lib s] store.publish_elsewhere [OF assms(1) s(1), of b lib]
          store.publish_keeps [OF assms(1) s(1), of lib b z] store.publish_own [OF assms(1) s(1), of lib z] w
        unfolding s(4) s3 s(2) by auto
    qed
  qed
  then show "index_ok ix1"
    and "b \<noteq> a \<Longrightarrow> b \<in> set (zi_blocked ix1) \<longleftrightarrow> b \<in> set (zi_blocked ix)"
    and "map_of (zi_zones ix1) b = Some z \<Longrightarrow> map_of (zi_zones ix) b = Some z \<or> b = a"
    and "b \<noteq> a \<Longrightarrow> map_of (zi_zones ix1) b = map_of (zi_zones ix) b \<or> map_of (zi_zones ix1) b = None \<and>
      (\<exists>z w. map_of (zi_zones ix) b = Some z \<and> by_apex lib wl objects a = [w] \<and> z_key z = watched_key w)"
    and "a \<noteq> [] \<Longrightarrow> map_of (zi_zones ix1) a = Some z \<Longrightarrow> \<exists>w. by_apex lib wl objects a = [w] \<and> z_key z = watched_key w"
    by blast+
qed

lemma reconcile_settles:
  assumes "index_ok ix" and "reconcile_apex lib wl objects a ix = (ix1, errors)" and "a \<noteq> []"
    and "\<And>w z. by_apex lib wl objects a = [w] \<Longrightarrow> map_of (zi_zones ix) a = Some z \<Longrightarrow> z_key z = watched_key w"
    and obs: "observed wl objects"
  shows "settled lib wl objects ix1 errors a"
  using sole_cases
proof
  assume l: "length (by_apex lib wl objects a) \<noteq> 1"
  then have "ix1 = reconcile_absent_apex a (length (by_apex lib wl objects a) > 1) ix"
    using assms(2) reconcile_other [OF assms(3)] by simp
  then show ?thesis using l store.settle_barred [OF assms(1)] store.settle_serving [OF assms(1)] by (auto simp: settled_def)
next
  assume "\<exists>w. by_apex lib wl objects a = [w]"
  then obtain w where w: "by_apex lib wl objects a = [w]" ..
  from reconcile_sole [OF obs w] obtain s where s: "wl_decode wl w = Some s" "owned_snapshot s" "zone_key s = watched_key w" "apex_of lib s = a"
    "ix1 = publish_snapshot lib s ix" "errors = (case snd (index_replace lib s ix) of None \<Rightarrow> [] | Some e \<Rightarrow> [(watched_key w, e)])"
    using assms(2) by (metis prod.inject)
  have own: "\<forall>z. map_of (zi_zones ix) (apex_of lib s) = Some z \<longrightarrow> z_key z = zone_key s" using assms(4) [OF w] s(3,4) by simp
  have "map_of (zi_zones ix1) a = Some z \<Longrightarrow> z_key z = watched_key w" for z
    using store.publish_own [OF assms(1) s(2), of lib z] by (simp add: s)
  moreover have "map_of (zi_zones ix1) a = Some z \<and> a \<notin> set (zi_blocked ix1) \<or> (\<exists>n. (watched_key w, limit_error n) \<in> set errors)"
    if "wanted lib wl w = Some z" for z
  proof (cases "index_full s ix")
    case True
    then show ?thesis using replace_full [OF s(2) own] by (auto simp: s(6))
  next
    case False
    from that have "compiled_snapshot lib s = Some z" by (simp add: wanted_def s(1))
    from store.publish_settled [OF assms(1) s(2) own False this] show ?thesis by (simp add: s)
  qed
  ultimately show ?thesis using w by (simp add: settled_def)
qed

lemma settled_same:
  assumes "settled lib wl objects ix errors b" and "b \<in> set (zi_blocked ix1) \<longleftrightarrow> b \<in> set (zi_blocked ix)"
    and "map_of (zi_zones ix1) b = map_of (zi_zones ix) b" and "set errors \<subseteq> set errors1"
  shows "settled lib wl objects ix1 errors1 b"
  using assms(1) [unfolded settled_def] assms(4) unfolding settled_def assms(2,3) by blast

lemma settled_frame:
  assumes "settled lib wl objects ix errors b" and "b \<in> set (zi_blocked ix1) \<longleftrightarrow> b \<in> set (zi_blocked ix)"
    and "map_of (zi_zones ix1) b = map_of (zi_zones ix) b \<or> map_of (zi_zones ix1) b = None \<and>
      (\<exists>z. map_of (zi_zones ix) b = Some z \<and> z_key z = k)"
    and "\<And>w. by_apex lib wl objects b = [w] \<Longrightarrow> watched_key w \<noteq> k" and "set errors \<subseteq> set errors1"
  shows "settled lib wl objects ix1 errors1 b"
proof -
  have same: "map_of (zi_zones ix1) b = map_of (zi_zones ix) b"
  proof (rule ccontr)
    assume "map_of (zi_zones ix1) b \<noteq> map_of (zi_zones ix) b"
    with assms(3) obtain z where z: "map_of (zi_zones ix) b = Some z" "z_key z = k" by blast
    from sole_cases [of lib wl objects b] assms(1) z(1) obtain w where "by_apex lib wl objects b = [w]"
      by (cases "by_apex lib wl objects b") (auto simp: settled_def)
    with assms(1,4) z show False by (auto simp: settled_def)
  qed
  show ?thesis by (rule settled_same [OF assms(1,2) same assms(5)])
qed

section \<open>What one notification changes\<close>

fun touches :: "dns_lib \<Rightarrow> watch_lib \<Rightarrow> string \<Rightarrow> notification \<Rightarrow> bool" where
  "touches lib wl a (Added w) \<longleftrightarrow> place lib wl w = Some a"
| "touches lib wl a (Updated old new) \<longleftrightarrow> \<not> same_revision old new \<and> (place lib wl old = Some a \<or> place lib wl new = Some a)"
| "touches lib wl a (Deleted w) \<longleftrightarrow> place lib wl w = Some a"

text \<open>The notification tells that object \<open>k\<close> left, or came to, the apex, or is not owned any more.\<close>

fun departs :: "dns_lib \<Rightarrow> watch_lib \<Rightarrow> object_reference \<Rightarrow> string \<Rightarrow> notification \<Rightarrow> bool" where
  "departs lib wl k a (Added w) \<longleftrightarrow> False"
| "departs lib wl k a (Updated old new) \<longleftrightarrow> \<not> same_revision old new \<and> watched_key new = k
     \<and> place lib wl old = Some a \<and> place lib wl new \<noteq> Some a"
| "departs lib wl k a (Deleted w) \<longleftrightarrow> watched_key w = k \<and> place lib wl w = Some a"

fun arrives :: "dns_lib \<Rightarrow> watch_lib \<Rightarrow> object_reference \<Rightarrow> string \<Rightarrow> notification \<Rightarrow> bool" where
  "arrives lib wl k a (Added w) \<longleftrightarrow> watched_key w = k \<and> place lib wl w = Some a"
| "arrives lib wl k a (Updated old new) \<longleftrightarrow> \<not> same_revision old new \<and> watched_key new = k \<and> place lib wl new = Some a"
| "arrives lib wl k a (Deleted w) \<longleftrightarrow> False"

fun vacates :: "object_reference \<Rightarrow> notification \<Rightarrow> bool" where
  "vacates k (Added w) \<longleftrightarrow> watched_key w = k \<and> \<not> watched_owned w"
| "vacates k (Updated old new) \<longleftrightarrow> \<not> same_revision old new \<and> watched_key new = k \<and> \<not> watched_owned new"
| "vacates k (Deleted w) \<longleftrightarrow> watched_key w = k"

lemma departs_touches: "departs lib wl k a ev \<Longrightarrow> touches lib wl a ev"
  by (cases ev) auto

lemma arrives_touches: "arrives lib wl k a ev \<Longrightarrow> touches lib wl a ev"
  by (cases ev) auto

lemma departs_arrives: "departs lib wl k a ev \<Longrightarrow> arrives lib wl q a ev \<Longrightarrow> False"
  by (cases ev) auto

text \<open>What every notification leaves of the index, and what it settles.\<close>

definition leaves :: "dns_lib \<Rightarrow> watch_lib \<Rightarrow> watched list \<Rightarrow> (string \<Rightarrow> bool) \<Rightarrow> (object_reference \<Rightarrow> bool) \<Rightarrow> zone_index \<Rightarrow> zone_index \<Rightarrow> bool" where
  "leaves lib wl objects touched vacated ix ix1 \<longleftrightarrow> index_ok ix1
   \<and> (\<forall>b. \<not> touched b \<longrightarrow> (b \<in> set (zi_blocked ix1) \<longleftrightarrow> b \<in> set (zi_blocked ix)))
   \<and> (\<forall>b z. map_of (zi_zones ix1) b = Some z \<longrightarrow> map_of (zi_zones ix) b = Some z
        \<or> touched b \<and> (\<exists>w. by_apex lib wl objects b = [w] \<and> z_key z = watched_key w))
   \<and> (\<forall>b. \<not> touched b \<longrightarrow> map_of (zi_zones ix1) b = map_of (zi_zones ix) b \<or> map_of (zi_zones ix1) b = None \<and>
        (\<exists>z. map_of (zi_zones ix) b = Some z \<and> (vacated (z_key z)
           \<or> (\<exists>w \<in> set objects. z_key z = watched_key w \<and> place lib wl w \<noteq> Some b))))"

lemma leaves_refl: "index_ok ix \<Longrightarrow> leaves lib wl objects touched vacated ix ix"
  by (simp add: leaves_def)

lemma leaves_reconcile:
  assumes "index_ok ix" and "observed wl objects" and "reconcile_apex lib wl objects a ix = (ix1, errors)"
  shows "leaves lib wl objects (\<lambda>b. b = a \<and> a \<noteq> []) vacated ix ix1"
proof (cases "a = []")
  case True
  with assms show ?thesis by (simp add: reconcile_apex_def leaves_def)
next
  case False
  note e = reconcile_effect [OF assms(1,3,2)]
  show ?thesis
    unfolding leaves_def
  proof (intro conjI allI impI)
    show "index_ok ix1" by (rule e(1))
  next
    fix b assume "\<not> (b = a \<and> a \<noteq> [])"
    with False have "b \<noteq> a" by simp
    then show "(b \<in> set (zi_blocked ix1)) = (b \<in> set (zi_blocked ix))" by (rule e(2))
  next
    fix b z assume "map_of (zi_zones ix1) b = Some z"
    with e(3) [OF this] e(5) False show "map_of (zi_zones ix) b = Some z
        \<or> (b = a \<and> a \<noteq> []) \<and> (\<exists>w. by_apex lib wl objects b = [w] \<and> z_key z = watched_key w)" by auto
  next
    fix b assume "\<not> (b = a \<and> a \<noteq> [])"
    with False have "b \<noteq> a" by simp
    from e(4) [OF this] show "map_of (zi_zones ix1) b = map_of (zi_zones ix) b \<or> map_of (zi_zones ix1) b = None \<and>
        (\<exists>z. map_of (zi_zones ix) b = Some z \<and> (vacated (z_key z)
           \<or> (\<exists>w \<in> set objects. z_key z = watched_key w \<and> place lib wl w \<noteq> Some b)))"
      using sole_member [of lib wl objects a] \<open>b \<noteq> a\<close> by (metis option.inject)
  qed
qed

lemma leaves_withdraw:
  assumes "index_ok ix" and "vacated k"
  shows "leaves lib wl objects touched vacated ix (index_remove k u ix)"
  unfolding leaves_def
proof (intro conjI allI impI)
  show "index_ok (index_remove k u ix)" by (rule store.ok_withdraw [OF assms(1)])
  show "(b \<in> set (zi_blocked (index_remove k u ix))) = (b \<in> set (zi_blocked ix))" for b
    by (rule store.withdraw_barred [OF assms(1)])
  show "map_of (zi_zones ix) b = Some z \<or> touched b \<and> (\<exists>w. by_apex lib wl objects b = [w] \<and> z_key z = watched_key w)"
    if "map_of (zi_zones (index_remove k u ix)) b = Some z" for b z
    using store.withdraw_keeps [OF assms(1) that] ..
  show "map_of (zi_zones (index_remove k u ix)) b = map_of (zi_zones ix) b \<or> map_of (zi_zones (index_remove k u ix)) b = None \<and>
        (\<exists>z. map_of (zi_zones ix) b = Some z \<and> (vacated (z_key z)
           \<or> (\<exists>w \<in> set objects. z_key z = watched_key w \<and> place lib wl w \<noteq> Some b)))" for b
    using store.withdraw_serving [OF assms(1), where k = k and u = u and b = b] assms(2) by blast
qed

lemma leaves_trans:
  assumes "leaves lib wl objects t1 v ix ix1" and "leaves lib wl objects t2 v ix1 ix2" and "\<And>b. t1 b \<or> t2 b \<Longrightarrow> t b"
  shows "leaves lib wl objects t v ix ix2"
proof -
  have b: "b \<in> set (zi_blocked ix2) \<longleftrightarrow> b \<in> set (zi_blocked ix)" if "\<not> t b" for b
    using assms that unfolding leaves_def by blast
  have z: "map_of (zi_zones ix) b = Some z \<or> t b \<and> (\<exists>w. by_apex lib wl objects b = [w] \<and> z_key z = watched_key w)"
    if "map_of (zi_zones ix2) b = Some z" for b z
    using assms that unfolding leaves_def by blast
  let ?drop = "\<lambda>z b. v (z_key z) \<or> (\<exists>w \<in> set objects. z_key z = watched_key w \<and> place lib wl w \<noteq> Some b)"
  have d: "map_of (zi_zones ix2) b = map_of (zi_zones ix) b \<or> map_of (zi_zones ix2) b = None \<and>
        (\<exists>z. map_of (zi_zones ix) b = Some z \<and> ?drop z b)" if n: "\<not> t b" for b
  proof -
    from n assms(3) have "\<not> t1 b" "\<not> t2 b" by blast+
    then have "map_of (zi_zones ix1) b = map_of (zi_zones ix) b \<or> map_of (zi_zones ix1) b = None \<and> (\<exists>z. map_of (zi_zones ix) b = Some z \<and> ?drop z b)"
      and "map_of (zi_zones ix2) b = map_of (zi_zones ix1) b \<or> map_of (zi_zones ix2) b = None \<and> (\<exists>z. map_of (zi_zones ix1) b = Some z \<and> ?drop z b)"
      using assms(1,2) unfolding leaves_def by blast+
    then show ?thesis by (elim disjE conjE exE) (simp_all, (metis option.inject option.simps(3))+)
  qed
  have "index_ok ix2" using assms(2) unfolding leaves_def by blast
  with b z d show ?thesis unfolding leaves_def by blast
qed

lemma leaves_mono: "leaves lib wl objects t1 v ix ix1 \<Longrightarrow> index_ok ix \<Longrightarrow> (\<And>b. t1 b \<Longrightarrow> t b) \<Longrightarrow> leaves lib wl objects t v ix ix1"
  by (rule leaves_trans [OF leaves_refl]) auto

lemma place_apex: "watched_owned w \<Longrightarrow> place lib wl w = (if snapshot_apex lib wl w = [] then None else Some (snapshot_apex lib wl w))"
  by (auto simp: place_def apex_keys_def Let_def)

lemma place_unowned: "\<not> watched_owned w \<Longrightarrow> place lib wl w = None"
  by (simp add: place_def apex_keys_def)

lemma leaves_load:
  assumes "index_ok ix" and "observed wl objects" and "load lib wl objects w ix = (ix1, errors)" and "\<not> watched_owned w \<Longrightarrow> v (watched_key w)"
  shows "leaves lib wl objects (\<lambda>b. place lib wl w = Some b) v ix ix1"
proof (cases "watched_owned w")
  case True
  with assms(3) have "reconcile_apex lib wl objects (snapshot_apex lib wl w) ix = (ix1, errors)" by (simp add: load_def)
  from leaves_reconcile [OF assms(1,2) this] assms(1) show ?thesis by (rule leaves_mono) (use True in \<open>auto simp: place_apex\<close>)
next
  case False
  with assms(3) have "ix1 = index_remove (watched_key w) (om_uid (wt_meta w)) ix" by (simp add: load_def)
  with leaves_withdraw [OF assms(1), of v "watched_key w"] assms(4) False show ?thesis by simp
qed

lemma handle_leaves:
  assumes "index_ok ix" and "observed wl objects" and "handle lib wl objects ev ix = (ix1, errors)"
  shows "leaves lib wl objects (\<lambda>b. touches lib wl b ev) (\<lambda>k. vacates k ev) ix ix1"
proof (cases ev)
  case (Added w)
  with assms(3) have "load lib wl objects w ix = (ix1, errors)" by simp
  from leaves_load [OF assms(1,2) this] show ?thesis by (simp add: Added)
next
  case (Updated old new)
  show ?thesis
  proof (cases "same_revision old new")
    case True
    with assms show ?thesis by (simp add: Updated leaves_refl)
  next
    case False
    let ?c = "watched_owned old \<and> (snapshot_apex lib wl old \<noteq> snapshot_apex lib wl new \<or> \<not> watched_owned new)"
    obtain ixm em where m: "(if ?c then reconcile_apex lib wl objects (snapshot_apex lib wl old) ix else (ix, [])) = (ixm, em)" by fastforce
    obtain e2 where l: "load lib wl objects new ixm = (ix1, e2)"
      using assms(3) False m by (auto simp: Updated split: prod.splits if_splits)
    have "leaves lib wl objects (\<lambda>b. place lib wl old = Some b) (\<lambda>k. vacates k ev) ix ixm"
    proof (cases ?c)
      case True
      with m have "reconcile_apex lib wl objects (snapshot_apex lib wl old) ix = (ixm, em)" by simp
      from leaves_reconcile [OF assms(1,2) this] assms(1) show ?thesis by (rule leaves_mono) (use True in \<open>auto simp: place_apex\<close>)
    next
      case False
      with m assms(1) show ?thesis by (auto simp: leaves_refl)
    qed
    moreover from this have "index_ok ixm" by (simp add: leaves_def)
    from leaves_load [OF this assms(2) l, of "\<lambda>k. vacates k ev"] False have
      "leaves lib wl objects (\<lambda>b. place lib wl new = Some b) (\<lambda>k. vacates k ev) ixm ix1" by (simp add: Updated)
    ultimately show ?thesis by (rule leaves_trans) (auto simp: Updated False)
  qed
next
  case (Deleted w)
  show ?thesis
  proof (cases "watched_owned w")
    case True
    let ?ixm = "index_remove (watched_key w) (om_uid (wt_meta w)) ix"
    have "leaves lib wl objects (\<lambda>b. False) (\<lambda>k. vacates k ev) ix ?ixm"
      by (rule leaves_withdraw [OF assms(1)]) (simp add: Deleted)
    moreover have "reconcile_apex lib wl objects (snapshot_apex lib wl w) ?ixm = (ix1, errors)" using assms(3) True by (simp add: Deleted)
    from leaves_reconcile [OF store.ok_withdraw [OF assms(1)] assms(2) this]
    have "leaves lib wl objects (\<lambda>b. b = snapshot_apex lib wl w \<and> snapshot_apex lib wl w \<noteq> []) (\<lambda>k. vacates k ev) ?ixm ix1" .
    ultimately show ?thesis by (rule leaves_trans) (use True in \<open>auto simp: Deleted place_apex\<close>)
  next
    case False
    with assms show ?thesis by (simp add: Deleted leaves_refl)
  qed
qed

lemma leaves_served:
  "leaves lib wl objects t v ix ix1 \<Longrightarrow> map_of (zi_zones ix1) b = Some z \<Longrightarrow> map_of (zi_zones ix) b = Some z
     \<or> t b \<and> (\<exists>w. by_apex lib wl objects b = [w] \<and> z_key z = watched_key w)"
  unfolding leaves_def by blast

lemma leaves_ok: "leaves lib wl objects t v ix ix1 \<Longrightarrow> index_ok ix1"
  unfolding leaves_def by blast

text \<open>A sole object of another apex does not hold the key of the object settled here.\<close>

lemma settled_leaves:
  assumes "settled lib wl objects ix errors b" and "leaves lib wl objects t v ix ix1" and "\<not> t b" and "observed wl objects"
    and "\<And>w. w \<in> set objects \<Longrightarrow> place lib wl w = Some b \<Longrightarrow> \<not> v (watched_key w)" and "set errors \<subseteq> set errors1"
  shows "settled lib wl objects ix1 errors1 b"
proof -
  from assms(2,3) have blk: "b \<in> set (zi_blocked ix1) \<longleftrightarrow> b \<in> set (zi_blocked ix)"
    and d: "map_of (zi_zones ix1) b = map_of (zi_zones ix) b \<or> map_of (zi_zones ix1) b = None \<and>
        (\<exists>z. map_of (zi_zones ix) b = Some z \<and> (v (z_key z) \<or> (\<exists>w \<in> set objects. z_key z = watched_key w \<and> place lib wl w \<noteq> Some b)))"
    unfolding leaves_def by blast+
  from d show ?thesis
  proof
    assume "map_of (zi_zones ix1) b = map_of (zi_zones ix) b"
    from settled_same [OF assms(1) blk this assms(6)] show ?thesis .
  next
    assume "map_of (zi_zones ix1) b = None \<and>
        (\<exists>z. map_of (zi_zones ix) b = Some z \<and> (v (z_key z) \<or> (\<exists>w \<in> set objects. z_key z = watched_key w \<and> place lib wl w \<noteq> Some b)))"
    then obtain z where z: "map_of (zi_zones ix1) b = None" "map_of (zi_zones ix) b = Some z"
      "v (z_key z) \<or> (\<exists>w \<in> set objects. z_key z = watched_key w \<and> place lib wl w \<noteq> Some b)" by blast
    have "watched_key w \<noteq> z_key z" if "by_apex lib wl objects b = [w]" for w
    proof
      from sole_member [OF that] have w: "w \<in> set objects" "place lib wl w = Some b" by simp_all
      assume k: "watched_key w = z_key z"
      from z(3) show False
      proof
        assume "v (z_key z)"
        with assms(5) [OF w] k show False by simp
      next
        assume "\<exists>w \<in> set objects. z_key z = watched_key w \<and> place lib wl w \<noteq> Some b"
        with same_key [OF assms(4) w(1)] k w(2) show False by metis
      qed
    qed
    with settled_frame [OF assms(1) blk _ _ assms(6), of "z_key z"] z show ?thesis by blast
  qed
qed

lemma load_settles:
  assumes "index_ok ix" and "observed wl objects" and "load lib wl objects w ix = (ix1, errors)" and "place lib wl w = Some a"
    and "\<And>v z. by_apex lib wl objects a = [v] \<Longrightarrow> map_of (zi_zones ix) a = Some z \<Longrightarrow> z_key z = watched_key v"
  shows "settled lib wl objects ix1 errors a"
proof (rule reconcile_settles [OF assms(1) _ _ assms(5,2)])
  from assms(4) show "a \<noteq> []" by (simp add: place_iff)
  from assms(3,4) show "reconcile_apex lib wl objects a ix = (ix1, errors)" by (auto simp: load_def place_iff)
qed

lemma handle_settles:
  assumes "index_ok ix" and "observed wl objects" and "handle lib wl objects ev ix = (ix1, errors)" and "touches lib wl a ev"
    and own: "\<And>w z. by_apex lib wl objects a = [w] \<Longrightarrow> map_of (zi_zones ix) a = Some z \<Longrightarrow> z_key z = watched_key w"
    and held: "\<And>w. w \<in> set objects \<Longrightarrow> place lib wl w = Some a \<Longrightarrow> \<not> vacates (watched_key w) ev"
  shows "settled lib wl objects ix1 errors a"
proof (cases ev)
  case (Added w)
  show ?thesis by (rule load_settles [OF assms(1,2) _ _ own]) (use assms(3,4) in \<open>simp_all add: Added\<close>)
next
  case (Updated old new)
  with assms(4) have ns: "\<not> same_revision old new" by simp
  let ?c = "watched_owned old \<and> (snapshot_apex lib wl old \<noteq> snapshot_apex lib wl new \<or> \<not> watched_owned new)"
  obtain ixm em where m: "(if ?c then reconcile_apex lib wl objects (snapshot_apex lib wl old) ix else (ix, [])) = (ixm, em)" by fastforce
  obtain e2 where l: "load lib wl objects new ixm = (ix1, e2)" and e: "errors = em @ e2"
    using assms(3) ns m by (auto simp: Updated split: prod.splits if_splits)
  have first: "leaves lib wl objects (\<lambda>b. ?c \<and> place lib wl old = Some b) (\<lambda>k. vacates k ev) ix ixm"
  proof (cases ?c)
    case True
    with m have "reconcile_apex lib wl objects (snapshot_apex lib wl old) ix = (ixm, em)" by simp
    from leaves_reconcile [OF assms(1,2) this] assms(1) show ?thesis by (rule leaves_mono) (use True in \<open>auto simp: place_apex\<close>)
  next
    case False
    with m assms(1) show ?thesis by (auto simp: leaves_refl)
  qed
  have v: "\<not> watched_owned new \<Longrightarrow> vacates (watched_key new) ev" using ns by (simp add: Updated)
  note second = leaves_load [OF leaves_ok [OF first] assms(2) l, of "\<lambda>k. vacates k ev", OF v]
  show ?thesis
  proof (cases "place lib wl new = Some a")
    case True
    have "settled lib wl objects ix1 e2 a"
    proof (rule load_settles [OF leaves_ok [OF first] assms(2) l True])
      fix w z assume "by_apex lib wl objects a = [w]" "map_of (zi_zones ixm) a = Some z"
      with leaves_served [OF first this(2)] own show "z_key z = watched_key w" by auto
    qed
    then show ?thesis unfolding e by (rule settled_same) simp_all
  next
    case False
    with assms(4) have old: "place lib wl old = Some a" by (simp add: Updated)
    then have o: "watched_owned old" "a \<noteq> []" "snapshot_apex lib wl old = a" by (simp_all add: place_iff)
    with False have c: ?c by (auto simp: place_iff)
    have "reconcile_apex lib wl objects a ix = (ixm, em)" using m [unfolded if_P [OF c]] unfolding o(3) .
    then have "settled lib wl objects ixm em a" by (rule reconcile_settles [OF assms(1) _ o(2) own assms(2)])
    moreover have "set em \<subseteq> set errors" by (simp add: e)
    ultimately show ?thesis using settled_leaves [OF _ second False assms(2), of em errors] held by blast
  qed
next
  case (Deleted w)
  then have w: "watched_owned w" "snapshot_apex lib wl w = a" "a \<noteq> []" using assms(4) by (auto simp: place_iff)
  let ?ixm = "index_remove (watched_key w) (om_uid (wt_meta w)) ix"
  have r: "reconcile_apex lib wl objects a ?ixm = (ix1, errors)" using assms(3) w by (simp add: Deleted)
  show ?thesis
  proof (rule reconcile_settles [OF store.ok_withdraw [OF assms(1)] r w(3) _ assms(2)])
    fix v z assume "by_apex lib wl objects a = [v]" "map_of (zi_zones ?ixm) a = Some z"
    with store.withdraw_keeps [OF assms(1) this(2)] own show "z_key z = watched_key v" by blast
  qed
qed

section \<open>The invariant of the watcher\<close>

text \<open>
  Until its notification is handled, an object may be served where it no longer is, or wait for
  an apex another object is served under. Nothing else differs from the settled state.
\<close>

definition watch_inv :: "dns_lib \<Rightarrow> watch_lib \<Rightarrow> watching \<Rightarrow> bool" where
  "watch_inv lib wl S \<longleftrightarrow> observed wl (wg_objects S) \<and> index_ok (wg_index S)
   \<and> (\<forall>a z. map_of (zi_zones (wg_index S)) a = Some z \<longrightarrow>
        (\<exists>w \<in> set (wg_objects S). place lib wl w = Some a \<and> watched_key w = z_key z) \<or> (\<exists>ev \<in> set (wg_queue S). departs lib wl (z_key z) a ev))
   \<and> (\<forall>a z w. map_of (zi_zones (wg_index S)) a = Some z \<and> w \<in> set (wg_objects S) \<and> place lib wl w = Some a \<and> watched_key w \<noteq> z_key z \<longrightarrow>
        (\<exists>ev \<in> set (wg_queue S). arrives lib wl (watched_key w) a ev))
   \<and> (\<forall>q1 ev q2 w a. wg_queue S = q1 @ ev # q2 \<and> vacates (watched_key w) ev \<and> w \<in> set (wg_objects S) \<and> place lib wl w = Some a \<longrightarrow>
        (\<exists>e \<in> set q2. arrives lib wl (watched_key w) a e))
   \<and> (\<forall>a. a \<noteq> [] \<and> (\<forall>ev \<in> set (wg_queue S). \<not> touches lib wl a ev) \<longrightarrow> settled lib wl (wg_objects S) (wg_index S) (wg_log S) a)"

lemma watch_invD:
  assumes "watch_inv lib wl S"
  shows "observed wl (wg_objects S)" and "index_ok (wg_index S)"
    and "map_of (zi_zones (wg_index S)) a = Some z \<Longrightarrow>
        (\<exists>w \<in> set (wg_objects S). place lib wl w = Some a \<and> watched_key w = z_key z) \<or> (\<exists>ev \<in> set (wg_queue S). departs lib wl (z_key z) a ev)"
    and "map_of (zi_zones (wg_index S)) a = Some z \<Longrightarrow> w \<in> set (wg_objects S) \<Longrightarrow> place lib wl w = Some a \<Longrightarrow> watched_key w \<noteq> z_key z \<Longrightarrow>
        \<exists>ev \<in> set (wg_queue S). arrives lib wl (watched_key w) a ev"
    and "wg_queue S = q1 @ ev # q2 \<Longrightarrow> vacates (watched_key w) ev \<Longrightarrow> w \<in> set (wg_objects S) \<Longrightarrow> place lib wl w = Some a \<Longrightarrow>
        \<exists>e \<in> set q2. arrives lib wl (watched_key w) a e"
    and "a \<noteq> [] \<Longrightarrow> (\<forall>ev \<in> set (wg_queue S). \<not> touches lib wl a ev) \<Longrightarrow> settled lib wl (wg_objects S) (wg_index S) (wg_log S) a"
  using assms unfolding watch_inv_def by blast+

lemma watch_inv_start:
  assumes "decode_ok wl"
  shows "watch_inv lib wl (initial_watching limit)"
  using assms index_ok_new [of limit]
  by (simp add: watch_inv_def initial_watching_def observed_def settled_def new_zone_index_def by_apex_def)

text \<open>
  A change in the cluster: the objects of an apex that is not touched stay, up to their metadata,
  and the new notification tells of every other.
\<close>

definition changes :: "dns_lib \<Rightarrow> watch_lib \<Rightarrow> watched list \<Rightarrow> watched list \<Rightarrow> notification \<Rightarrow> bool" where
  "changes lib wl objs objs1 ev \<longleftrightarrow>
     (\<forall>w a. w \<in> set objs \<and> place lib wl w = Some a \<longrightarrow>
        (\<exists>w1 \<in> set objs1. place lib wl w1 = Some a \<and> watched_key w1 = watched_key w) \<or> departs lib wl (watched_key w) a ev)
   \<and> (\<forall>w a. w \<in> set objs1 \<and> place lib wl w = Some a \<longrightarrow>
        (\<exists>w0 \<in> set objs. place lib wl w0 = Some a \<and> watched_key w0 = watched_key w) \<or> arrives lib wl (watched_key w) a ev)
   \<and> (\<forall>w a. w \<in> set objs1 \<and> place lib wl w = Some a \<longrightarrow> \<not> vacates (watched_key w) ev)
   \<and> (\<forall>a. \<not> touches lib wl a ev \<longrightarrow> map (\<lambda>w. (watched_key w, wanted lib wl w)) (by_apex lib wl objs1 a)
        = map (\<lambda>w. (watched_key w, wanted lib wl w)) (by_apex lib wl objs a))"

lemma settled_same_objects:
  assumes "settled lib wl objs ix errors a"
    and "map (\<lambda>w. (watched_key w, wanted lib wl w)) (by_apex lib wl objs1 a) = map (\<lambda>w. (watched_key w, wanted lib wl w)) (by_apex lib wl objs a)"
  shows "settled lib wl objs1 ix errors a"
proof -
  from assms(2) have len: "length (by_apex lib wl objs1 a) = length (by_apex lib wl objs a)" by (rule map_eq_imp_length_eq)
  show ?thesis
    unfolding settled_def
  proof (intro conjI impI allI)
    fix w assume w: "by_apex lib wl objs1 a = [w]"
    with assms(2) obtain v where v: "by_apex lib wl objs a = [v]" "watched_key v = watched_key w" "wanted lib wl v = wanted lib wl w" by auto
    from assms(1) [unfolded settled_def] v(1)
    have k: "\<forall>z. map_of (zi_zones ix) a = Some z \<longrightarrow> z_key z = watched_key v"
      and s: "\<forall>z. wanted lib wl v = Some z \<longrightarrow> map_of (zi_zones ix) a = Some z \<and> a \<notin> set (zi_blocked ix)
            \<or> (\<exists>n. (watched_key v, limit_error n) \<in> set errors)" by blast+
    show "z_key z = watched_key w" if "map_of (zi_zones ix) a = Some z" for z using k that v(2) by simp
    show "map_of (zi_zones ix) a = Some z \<and> a \<notin> set (zi_blocked ix) \<or> (\<exists>n. (watched_key w, limit_error n) \<in> set errors)"
      if "wanted lib wl w = Some z" for z using s that v(2,3) by simp
  qed (use assms(1) len in \<open>auto simp: settled_def\<close>)
qed

lemma watch_inv_change:
  assumes inv: "watch_inv lib wl S" and "observed wl objs" and c: "changes lib wl (wg_objects S) objs ev"
  shows "watch_inv lib wl (S\<lparr>wg_objects := objs, wg_queue := wg_queue S @ [ev]\<rparr>)"
proof -
  note i = watch_invD [OF inv]
  from c have dep: "w \<in> set (wg_objects S) \<Longrightarrow> place lib wl w = Some a \<Longrightarrow>
        (\<exists>w1 \<in> set objs. place lib wl w1 = Some a \<and> watched_key w1 = watched_key w) \<or> departs lib wl (watched_key w) a ev"
    and arr: "w \<in> set objs \<Longrightarrow> place lib wl w = Some a \<Longrightarrow>
        (\<exists>w0 \<in> set (wg_objects S). place lib wl w0 = Some a \<and> watched_key w0 = watched_key w) \<or> arrives lib wl (watched_key w) a ev"
    and vac: "w \<in> set objs \<Longrightarrow> place lib wl w = Some a \<Longrightarrow> \<not> vacates (watched_key w) ev"
    and same: "\<not> touches lib wl a ev \<Longrightarrow> map (\<lambda>w. (watched_key w, wanted lib wl w)) (by_apex lib wl objs a)
        = map (\<lambda>w. (watched_key w, wanted lib wl w)) (by_apex lib wl (wg_objects S) a)" for w a
    unfolding changes_def by blast+
  have 1: "(\<exists>w \<in> set objs. place lib wl w = Some a \<and> watched_key w = z_key z) \<or> (\<exists>e \<in> set (wg_queue S @ [ev]). departs lib wl (z_key z) a e)"
    if "map_of (zi_zones (wg_index S)) a = Some z" for a z
    using i(3) [OF that] dep by fastforce
  have 2: "\<exists>e \<in> set (wg_queue S @ [ev]). arrives lib wl (watched_key w) a e"
    if "map_of (zi_zones (wg_index S)) a = Some z" "w \<in> set objs" "place lib wl w = Some a" "watched_key w \<noteq> z_key z" for a z w
    using arr [OF that(2,3)]
  proof
    assume "\<exists>w0 \<in> set (wg_objects S). place lib wl w0 = Some a \<and> watched_key w0 = watched_key w"
    then obtain w0 where w0: "w0 \<in> set (wg_objects S)" "place lib wl w0 = Some a" "watched_key w0 = watched_key w" by blast
    from i(4) [OF that(1) w0(1,2)] that(4) w0(3) show ?thesis by auto
  qed simp
  have 3: "\<exists>e \<in> set q2. arrives lib wl (watched_key w) a e"
    if q: "wg_queue S @ [ev] = q1 @ e1 # q2" "vacates (watched_key w) e1" "w \<in> set objs" "place lib wl w = Some a" for q1 e1 q2 w a
  proof (cases q2 rule: rev_cases)
    case Nil
    with q(1,2) vac [OF q(3,4)] show ?thesis by simp
  next
    case (snoc q3 e)
    with q(1) have q3: "wg_queue S = q1 @ e1 # q3" "e = ev" by simp_all
    from arr [OF q(3,4)] show ?thesis
    proof
      assume "\<exists>w0 \<in> set (wg_objects S). place lib wl w0 = Some a \<and> watched_key w0 = watched_key w"
      then obtain w0 where "w0 \<in> set (wg_objects S)" "place lib wl w0 = Some a" "watched_key w0 = watched_key w" by blast
      with i(5) [OF q3(1), of w0 a] q(2) snoc show ?thesis by auto
    qed (simp add: snoc q3)
  qed
  have 4: "settled lib wl objs (wg_index S) (wg_log S) a" if "a \<noteq> []" "\<forall>e \<in> set (wg_queue S @ [ev]). \<not> touches lib wl a e" for a
    using settled_same_objects [OF i(6) same] that by simp
  show ?thesis unfolding watch_inv_def using assms(2) i(2) 1 2 3 4 by simp
qed

lemma reconcile_sole_served:
  assumes "index_ok ix" and "observed wl objects" and "place lib wl w = Some a" and "load lib wl objects w ix = (ix1, errors)"
    and "map_of (zi_zones ix1) a = Some z"
  shows "\<exists>w. by_apex lib wl objects a = [w] \<and> z_key z = watched_key w"
proof -
  from assms(3,4) have "reconcile_apex lib wl objects a ix = (ix1, errors)" "a \<noteq> []" by (auto simp: load_def place_iff)
  from reconcile_effect(5) [OF assms(1) this(1) assms(2) this(2) assms(5)] show ?thesis .
qed

lemma handle_sole_served:
  assumes "index_ok ix" and "observed wl objects" and "handle lib wl objects ev ix = (ix1, errors)" and "touches lib wl a ev"
    and "map_of (zi_zones ix1) a = Some z"
  shows "\<exists>w. by_apex lib wl objects a = [w] \<and> z_key z = watched_key w"
proof (cases ev)
  case (Added w)
  with assms(3,4) show ?thesis by (intro reconcile_sole_served [OF assms(1,2) _ _ assms(5)]) simp_all
next
  case (Updated old new)
  with assms(4) have ns: "\<not> same_revision old new" by simp
  let ?c = "watched_owned old \<and> (snapshot_apex lib wl old \<noteq> snapshot_apex lib wl new \<or> \<not> watched_owned new)"
  obtain ixm em where m: "(if ?c then reconcile_apex lib wl objects (snapshot_apex lib wl old) ix else (ix, [])) = (ixm, em)" by fastforce
  obtain e2 where l: "load lib wl objects new ixm = (ix1, e2)"
    using assms(3) ns m by (auto simp: Updated split: prod.splits if_splits)
  have okm: "index_ok ixm"
    using m assms(1) reconcile_effect(1) [OF assms(1) _ assms(2)] by (auto split: if_splits)
  show ?thesis
  proof (cases "place lib wl new = Some a")
    case True
    then show ?thesis by (rule reconcile_sole_served [OF okm assms(2) _ l assms(5)])
  next
    case False
    with assms(4) have "place lib wl old = Some a" by (simp add: Updated)
    then have o: "watched_owned old" "a \<noteq> []" "snapshot_apex lib wl old = a" by (simp_all add: place_iff)
    with False have c: ?c by (auto simp: place_iff)
    have r: "reconcile_apex lib wl objects a ix = (ixm, em)" using m [unfolded if_P [OF c]] unfolding o(3) .
    from leaves_served [OF leaves_load [OF okm assms(2) l, of "\<lambda>_. True"] assms(5)] False
    have "map_of (zi_zones ixm) a = Some z" by simp
    from reconcile_effect(5) [OF assms(1) r assms(2) o(2) this] show ?thesis .
  qed
next
  case (Deleted w)
  then have w: "watched_owned w" "snapshot_apex lib wl w = a" "a \<noteq> []" using assms(4) by (auto simp: place_iff)
  have "reconcile_apex lib wl objects a (index_remove (watched_key w) (om_uid (wt_meta w)) ix) = (ix1, errors)"
    using assms(3) w by (simp add: Deleted)
  from reconcile_effect(5) [OF store.ok_withdraw [OF assms(1)] this assms(2) w(3) assms(5)] show ?thesis .
qed

lemma sole_unique: "by_apex lib wl objects a = [v] \<Longrightarrow> w \<in> set objects \<Longrightarrow> place lib wl w = Some a \<Longrightarrow> w = v"
proof -
  assume v: "by_apex lib wl objects a = [v]" and w: "w \<in> set objects" "place lib wl w = Some a"
  from w have "w \<in> set (by_apex lib wl objects a)" by (simp add: by_apex_place)
  then show "w = v" unfolding v by simp
qed

lemma watch_inv_handle:
  assumes inv: "watch_inv lib wl S" and q: "wg_queue S = ev # rest" and h: "handle lib wl (wg_objects S) ev (wg_index S) = (ix, errors)"
  shows "watch_inv lib wl (S\<lparr>wg_queue := rest, wg_index := ix, wg_log := wg_log S @ errors\<rparr>)"
proof -
  let ?objs = "wg_objects S"
  note i = watch_invD [OF inv]
  note lv = handle_leaves [OF i(2,1) h] and sole = handle_sole_served [OF i(2,1) h]
  have held: "\<not> vacates (watched_key w) ev" if "w \<in> set ?objs" "place lib wl w = Some a" "\<forall>e \<in> set rest. \<not> touches lib wl a e" for w a
    using i(5) [of "[]" ev rest w a] q that arrives_touches by fastforce
  have 1: "(\<exists>w \<in> set ?objs. place lib wl w = Some a \<and> watched_key w = z_key z) \<or> (\<exists>e \<in> set rest. departs lib wl (z_key z) a e)"
    if z: "map_of (zi_zones ix) a = Some z" for a z
  proof (cases "touches lib wl a ev")
    case True
    from sole [OF this z] sole_member show ?thesis by metis
  next
    case False
    with leaves_served [OF lv z] have "map_of (zi_zones (wg_index S)) a = Some z" by simp
    from i(3) [OF this] q False departs_touches show ?thesis by auto
  qed
  have 2: "\<exists>e \<in> set rest. arrives lib wl (watched_key w) a e"
    if z: "map_of (zi_zones ix) a = Some z" and w: "w \<in> set ?objs" "place lib wl w = Some a" "watched_key w \<noteq> z_key z" for a z w
  proof (cases "touches lib wl a ev")
    case True
    from sole [OF this z] sole_unique [OF _ w(1,2)] w(3) show ?thesis by metis
  next
    case False
    with leaves_served [OF lv z] have "map_of (zi_zones (wg_index S)) a = Some z" by simp
    from i(4) [OF this w] q False arrives_touches show ?thesis by auto
  qed
  have 3: "\<exists>e \<in> set q2. arrives lib wl (watched_key w) a e"
    if "rest = q1 @ e1 # q2" "vacates (watched_key w) e1" "w \<in> set ?objs" "place lib wl w = Some a" for q1 e1 q2 w a
    using i(5) [of "ev # q1" e1 q2 w a] that q by simp
  have 4: "settled lib wl ?objs ix (wg_log S @ errors) a" if a: "a \<noteq> []" "\<forall>e \<in> set rest. \<not> touches lib wl a e" for a
  proof (cases "touches lib wl a ev")
    case True
    have "settled lib wl ?objs ix errors a"
    proof (rule handle_settles [OF i(2,1) h True])
      show "\<not> vacates (watched_key w) ev" if "w \<in> set ?objs" "place lib wl w = Some a" for w using held that a(2) by blast
      fix w z assume w: "by_apex lib wl ?objs a = [w]" and z: "map_of (zi_zones (wg_index S)) a = Some z"
      show "z_key z = watched_key w"
      proof (rule ccontr)
        assume n: "z_key z \<noteq> watched_key w"
        from sole_unique [OF w] n i(3) [OF z] have "\<exists>e \<in> set (wg_queue S). departs lib wl (z_key z) a e" by metis
        moreover from i(4) [OF z] sole_member [OF w] n have "\<exists>e \<in> set (wg_queue S). arrives lib wl (watched_key w) a e" by metis
        ultimately have "departs lib wl (z_key z) a ev" "arrives lib wl (watched_key w) a ev"
          using q a(2) departs_touches arrives_touches by fastforce+
        then show False by (rule departs_arrives)
      qed
    qed
    then show ?thesis by (rule settled_same) simp_all
  next
    case False
    with a q have "settled lib wl ?objs (wg_index S) (wg_log S) a" by (intro i(6)) simp_all
    from settled_leaves [OF this lv False i(1), of "wg_log S @ errors"] held a(2) show ?thesis by simp
  qed
  show ?thesis unfolding watch_inv_def using i(1) leaves_ok [OF lv] 1 2 3 4 by simp
qed

section \<open>Changes in the cluster\<close>

lemma map_filter_replace:
  "(P new = P old) \<Longrightarrow> (P old \<Longrightarrow> g new = g old) \<Longrightarrow>
   map g (filter P (map (\<lambda>w. if w = old then new else w) xs)) = map g (filter P xs)"
  by (induction xs) auto

lemma filter_removeAll_other: "\<not> P x \<Longrightarrow> filter P (removeAll x xs) = filter P xs"
  by (induction xs) auto

lemma changes_created:
  "watched_key w \<notin> watched_key ` set objs \<Longrightarrow> changes lib wl objs (objs @ [w]) (Added w)"
  unfolding changes_def by (auto simp: by_apex_place place_iff)

lemma changes_deleted:
  assumes "observed wl objs" and "old \<in> set objs"
  shows "changes lib wl objs (removeAll old objs) (Deleted old)"
  unfolding changes_def using same_key [OF assms(1) assms(2)] by (auto simp: by_apex_place filter_removeAll_other)

lemma wanted_same:
  assumes "decode_ok wl" and "wl_decode wl old \<noteq> None" and "wl_decode wl new \<noteq> None" and "watched_key new = watched_key old"
    and "om_uid (wt_meta old) = om_uid (wt_meta new)" and "wt_spec old = wt_spec new"
  shows "wanted lib wl new = wanted lib wl old"
proof -
  from assms(2,3) obtain s t where d: "wl_decode wl old = Some s" "wl_decode wl new = Some t" by blast
  with assms(1,6) have "hz_meta s = wt_meta old" "hz_meta t = wt_meta new" "hz_spec s = hz_spec t"
    unfolding decode_ok_def by blast+
  with assms(4,5) have "zone_key t = zone_key s" "om_uid (hz_meta t) = om_uid (hz_meta s)" "hz_spec t = hz_spec s"
    by (simp_all add: zone_key_def watched_key_def)
  then have "compile_zone lib t = compile_zone lib s" by (simp only: compile_zone_def)
  with d show ?thesis by (simp add: wanted_def compiled_snapshot_def)
qed

lemma changes_changed:
  assumes obs: "observed wl objs" and old: "old \<in> set objs" and key: "watched_key new = watched_key old" and "honest old new"
    and new: "wl_decode wl new \<noteq> None"
  shows "changes lib wl objs (map (\<lambda>w. if w = old then new else w) objs) (Updated old new)"
proof -
  have same: "place lib wl new = place lib wl old \<and> wanted lib wl new = wanted lib wl old" if r: "same_revision old new"
  proof -
    from r \<open>honest old new\<close> have spec: "wt_spec old = wt_spec new" "om_uid (wt_meta old) = om_uid (wt_meta new)"
      "om_owners (wt_meta old) = om_owners (wt_meta new)" unfolding same_revision_def honest_def by blast+
    then have "place lib wl new = place lib wl old"
      by (simp add: place_def apex_keys_def watched_owned_def snapshot_apex_def)
    moreover have "wanted lib wl new = wanted lib wl old"
      by (rule wanted_same [OF _ _ new key spec(2,1)]) (use obs old in \<open>auto simp: observed_def\<close>)
    ultimately show ?thesis ..
  qed
  have other: "w = old" if "w \<in> set objs" "watched_key w = watched_key old" for w using same_key [OF obs that(1) old that(2)] .
  have "map (\<lambda>w. (watched_key w, wanted lib wl w)) (by_apex lib wl (map (\<lambda>w. if w = old then new else w) objs) a)
      = map (\<lambda>w. (watched_key w, wanted lib wl w)) (by_apex lib wl objs a)" if "\<not> touches lib wl a (Updated old new)" for a
    unfolding by_apex_place by (rule map_filter_replace) (use that same key in auto)
  moreover have "(\<exists>w1 \<in> set (map (\<lambda>w. if w = old then new else w) objs). place lib wl w1 = Some a \<and> watched_key w1 = watched_key w)
      \<or> departs lib wl (watched_key w) a (Updated old new)" if w: "w \<in> set objs" "place lib wl w = Some a" for w a
    using w key same by (cases "w = old") (auto simp: rev_image_eqI)
  moreover have "(\<exists>w0 \<in> set objs. place lib wl w0 = Some a \<and> watched_key w0 = watched_key w) \<or> arrives lib wl (watched_key w) a (Updated old new)"
    if w: "w \<in> set (map (\<lambda>w. if w = old then new else w) objs)" "place lib wl w = Some a" for w a
    using w key same old by (auto split: if_splits)
  moreover have "\<not> vacates (watched_key w) (Updated old new)"
    if w: "w \<in> set (map (\<lambda>w. if w = old then new else w) objs)" "place lib wl w = Some a" for w a
    using w key other by (auto simp: place_iff split: if_splits)
  ultimately show ?thesis unfolding changes_def by blast
qed

lemma observed_change:
  assumes "observed wl objs"
  shows "watched_key w \<notin> watched_key ` set objs \<Longrightarrow> wl_decode wl w \<noteq> None \<Longrightarrow> observed wl (objs @ [w])"
    and "observed wl (removeAll old objs)"
    and "watched_key new = watched_key old \<Longrightarrow> wl_decode wl new \<noteq> None \<Longrightarrow> observed wl (map (\<lambda>w. if w = old then new else w) objs)"
proof -
  show "watched_key w \<notin> watched_key ` set objs \<Longrightarrow> wl_decode wl w \<noteq> None \<Longrightarrow> observed wl (objs @ [w])"
    using assms by (auto simp: observed_def)
  have "distinct (map watched_key (removeAll old objs))"
    using assms by (simp add: observed_def distinct_map_filter removeAll_filter_not_eq)
  then show "observed wl (removeAll old objs)" using assms by (auto simp: observed_def)
  assume "watched_key new = watched_key old" and n: "wl_decode wl new \<noteq> None"
  then have "map watched_key (map (\<lambda>w. if w = old then new else w) objs) = map watched_key objs" by auto
  with assms have "distinct (map watched_key (map (\<lambda>w. if w = old then new else w) objs))" by (simp only: observed_def)
  then show "observed wl (map (\<lambda>w. if w = old then new else w) objs)" using assms n unfolding observed_def by (auto simp del: map_map)
qed

lemma watch_inv_reaches:
  assumes "watch_reaches lib wl limit S" and "decode_ok wl"
  shows "watch_inv lib wl S"
  using assms(1)
proof (induction rule: watch_reaches.induct)
  case start
  show ?case using assms(2) by (rule watch_inv_start)
next
  case (next_step S T)
  note obs = watch_invD(1) [OF next_step.IH]
  from next_step.hyps(2) show ?case
  proof (cases rule: watch_step.cases)
    case (created w)
    then show ?thesis using watch_inv_change [OF next_step.IH observed_change(1) [OF obs] changes_created] by simp
  next
    case (changed old new)
    then show ?thesis
      using watch_inv_change [OF next_step.IH observed_change(3) [OF obs changed(3,5)] changes_changed [OF obs changed(2-5)]] by simp
  next
    case (deleted old)
    then show ?thesis using watch_inv_change [OF next_step.IH observed_change(2) [OF obs] changes_deleted [OF obs deleted(2)]] by simp
  next
    case (handled ev rest ix errors)
    then show ?thesis using watch_inv_handle [OF next_step.IH handled(2,3)] by simp
  qed
qed

text \<open>
  C16. However changes in the cluster and their handling interleave, an apex no pending
  notification concerns is settled: without an owned object it is neither served nor barred, with
  several it is barred and not served, and with one it serves nothing but that object, as compiled
  from its current specification unless the process was at its limit.
\<close>

theorem watch_settled:
  assumes "watch_reaches lib wl limit S" and "decode_ok wl" and "a \<noteq> []" and "list_all (\<lambda>ev. \<not> touches lib wl a ev) (wg_queue S)"
  shows "settled lib wl (wg_objects S) (wg_index S) (wg_log S) a"
  using watch_invD(6) [OF watch_inv_reaches [OF assms(1,2)] assms(3)] assms(4) by (simp add: list_all_iff)


section \<open>An example\<close>

definition demo_watch_lib :: watch_lib where
  "demo_watch_lib = \<lparr>wl_domain = (\<lambda>_. ''example.com''),
     wl_decode = (\<lambda>w. Some \<lparr>hz_meta = wt_meta w, hz_spec = hz_spec (demo_hosted ''z''), hz_servers = []\<rparr>)\<rparr>"

definition demo_watched :: "string \<Rightarrow> watched" where
  "demo_watched n = \<lparr>wt_meta = demo_meta n, wt_spec = ''spec''\<rparr>"

definition demo_handle :: "watching \<Rightarrow> watching" where
  "demo_handle S = (case wg_queue S of [] \<Rightarrow> S
     | ev # rest \<Rightarrow> (case handle demo_dns demo_watch_lib (wg_objects S) ev (wg_index S) of
         (ix, errors) \<Rightarrow> S\<lparr>wg_queue := rest, wg_index := ix, wg_log := wg_log S @ errors\<rparr>))"

definition demo_create :: "string \<Rightarrow> watching \<Rightarrow> watching" where
  "demo_create n S = S\<lparr>wg_objects := wg_objects S @ [demo_watched n], wg_queue := wg_queue S @ [Added (demo_watched n)]\<rparr>"

lemma demo_decode_ok: "decode_ok demo_watch_lib"
  by (simp add: decode_ok_def demo_watch_lib_def demo_hosted_def)

lemma demo_handle_reaches:
  "watch_reaches demo_dns demo_watch_lib n S \<Longrightarrow> watch_reaches demo_dns demo_watch_lib n (demo_handle S)"
  by (auto simp: demo_handle_def split: list.splits prod.splits intro: watch_reaches.next_step watch_step.handled)

lemma demo_create_reaches:
  "watch_reaches demo_dns demo_watch_lib n S \<Longrightarrow> watched_key (demo_watched m) \<notin> watched_key ` set (wg_objects S) \<Longrightarrow>
   watch_reaches demo_dns demo_watch_lib n (demo_create m S)"
  unfolding demo_create_def
  by (rule watch_reaches.next_step [OF _ watch_step.created]) (simp_all add: demo_watch_lib_def)

definition demo_one :: watching where
  "demo_one = demo_handle (demo_create ''y'' (initial_watching 4))"

definition demo_two :: watching where
  "demo_two = demo_handle (demo_create ''z'' demo_one)"

lemma demo_one_reaches: "watch_reaches demo_dns demo_watch_lib 4 demo_one"
  unfolding demo_one_def
  by (intro demo_handle_reaches demo_create_reaches watch_reaches.start) (simp add: initial_watching_def)

lemma demo_two_reaches: "watch_reaches demo_dns demo_watch_lib 4 demo_two"
proof -
  have "watched_key (demo_watched ''z'') \<notin> watched_key ` set (wg_objects demo_one)" by code_simp
  then show ?thesis unfolding demo_two_def by (intro demo_handle_reaches demo_create_reaches demo_one_reaches)
qed

theorem watch_settled_witness: "settled demo_dns demo_watch_lib (wg_objects demo_one) (wg_index demo_one) (wg_log demo_one) ''example.com.''"
proof -
  have "wg_queue demo_one = []" by code_simp
  then show ?thesis using watch_settled [OF demo_one_reaches demo_decode_ok, of "''example.com.''"] by simp
qed

definition demo_query :: dns_msg where
  "demo_query = \<lparr>m_response = False, m_opcode = 0, m_rcode = 0, m_authoritative = False, m_truncated = False,
     m_question = [\<lparr>qn_name = ''www.example.com.'', qn_type = 1, qn_class = 1\<rparr>], m_answer = [], m_ns = [], m_extra = []\<rparr>"

definition demo_msg_lib :: msg_lib where
  "demo_msg_lib = \<lparr>ml_set_reply = (\<lambda>_. demo_reply), ml_edns0 = (\<lambda>_. None), ml_set_edns0 = (\<lambda>r _ _. r), ml_truncate = (\<lambda>r _. r)\<rparr>"


end
