(* ===== verification/Hosted_Unit.thy ===== *)
theory Hosted_Unit
  imports Core_Reconcile Hosted_Render Hosted_Exclusion
begin

text \<open>
  \<open>internal/go/providers/hosted/controllers/zoneunit\<close>: the state and the results the hosted
  controller keeps in the status of a zone unit (\<open>status.go\<close>, \<open>model.go\<close>). Encodings
  (JSON), digests, the condition list of the API machinery, the clock readings, the jitter and the
  resolver of the service name are parameters of the model, collected in \<open>hosted_env\<close>.
\<close>

section \<open>The private state\<close>

record wschedule =
  sc_identity :: string
  sc_policy :: string
  sc_binding :: string
  sc_omission_serial :: uint32
  sc_omission_digest :: string
  sc_next :: gotime
  sc_state :: "wstate option"

record scheduler =
  sd_withdrawals :: "(string \<times> wschedule) list"
  sd_publications :: "(string \<times> gotime) list"
  sd_cursor :: string
  sd_delegation_policy :: string
  sd_delegation_next :: gotime
  sd_probed :: bool

record delegation_data =
  dg_observed :: "string list"
  dg_matches :: bool
  dg_probe :: gotime
  dg_error :: string

record record_receipt =
  rc_fingerprint :: string
  rc_first :: uint32
  rc_digest :: string
  rc_served :: "gotime option"

record zone_data =
  zd_serial :: uint32
  zd_digest :: string
  zd_servers :: "server_status list"
  zd_delegation :: "delegation_data option"

definition empty_schedule :: wschedule where
  "empty_schedule = \<lparr>sc_identity = [], sc_policy = [], sc_binding = [], sc_omission_serial = 0,
     sc_omission_digest = [], sc_next = 0, sc_state = None\<rparr>"

definition empty_receipt :: record_receipt where
  "empty_receipt = \<lparr>rc_fingerprint = [], rc_first = 0, rc_digest = [], rc_served = None\<rparr>"

text \<open>What the fingerprint of a binding covers of a class: its spec.\<close>

type_synonym class_spec = "provider_reference \<times> string \<times> string option \<times> raw \<times> namespace_policy"

definition class_spec :: "zone_class \<Rightarrow> class_spec" where
  "class_spec zc = (zc_provider zc, zc_controller zc, zc_identity zc, zc_parameters zc, zc_allowed_zones zc)"

record ('ctx) hosted_env = "'ctx core_env" +
  ho_render :: render_env
  ho_wd :: wd_env
  ho_controller :: string
  ho_provider :: string
  ho_version :: string
  ho_default_views :: "string list"
  ho_class_context :: "zone_class \<Rightarrow> 'ctx"
  ho_parameters :: "raw \<Rightarrow> string + class_parameters"
  ho_effective :: "policy \<Rightarrow> policy \<times> go_error option"
  ho_fingerprint :: "uid \<Rightarrow> class_spec \<Rightarrow> uid \<Rightarrow> provider_version list \<Rightarrow> unit_zone_spec \<Rightarrow> policy \<Rightarrow> bool \<Rightarrow> string"
  ho_item_digest :: "unit_record_set \<Rightarrow> string"
  ho_claim_digest :: "uid \<Rightarrow> object_reference \<Rightarrow> withdrawal_ref \<Rightarrow> int \<Rightarrow> string \<Rightarrow> string \<Rightarrow> string"
  ho_policy_digest :: "string \<Rightarrow> string \<Rightarrow> bool \<Rightarrow> waiver_reference option \<Rightarrow> string"
  ho_result_digest :: "string \<Rightarrow> provider_reference \<Rightarrow> unit_withdrawal_status \<Rightarrow> string"
  ho_zone_json :: "zone_data \<Rightarrow> raw"
  ho_read_zone :: "raw \<Rightarrow> bool \<times> zone_data"
  ho_digest_json :: "string \<Rightarrow> raw"
  ho_receipt_json :: "record_receipt \<Rightarrow> raw"
  ho_read_receipt :: "raw \<Rightarrow> record_receipt"
  ho_record_json :: "uint32 \<Rightarrow> gotime option \<Rightarrow> raw"
  ho_state_json :: "scheduler \<Rightarrow> raw"
  ho_read_state :: "raw \<Rightarrow> scheduler"
  ho_views_json :: "values_preview \<Rightarrow> raw"
  ho_clock :: "nat \<Rightarrow> gotime"
  ho_jitter :: "nat \<Rightarrow> duration \<Rightarrow> duration"
  ho_remove_condition :: "condition list \<Rightarrow> string \<Rightarrow> condition list"
  ho_lookup :: "string \<Rightarrow> string list option"
  ho_probe :: "probe_request \<Rightarrow> go_error + probe_result"
  ho_evaluate :: "nat \<Rightarrow> wd_input \<Rightarrow> go_error + wd_output"

section \<open>Bounded messages (status.go)\<close>

text \<open>\<open>utf8.ValidString\<close>, on bytes.\<close>

definition continuation :: "nat \<Rightarrow> nat \<Rightarrow> char \<Rightarrow> bool" where
  "continuation lo hi c \<longleftrightarrow> lo \<le> (of_char c :: nat) \<and> (of_char c :: nat) \<le> hi"

text \<open>The number of bytes of the first character, 0 when it is not well formed.\<close>

definition utf8_width :: "string \<Rightarrow> nat" where
  "utf8_width s = (case s of [] \<Rightarrow> 0
     | c # cs \<Rightarrow> let b = (of_char c :: nat);
         more = (\<lambda>n lo hi. case cs of [] \<Rightarrow> False
           | d # ds \<Rightarrow> continuation lo hi d \<and> n \<le> length ds \<and> list_all (continuation 128 191) (take n ds)) in
       if b < 128 then 1
       else if 194 \<le> b \<and> b \<le> 223 then (if more 0 128 191 then 2 else 0)
       else if b = 224 then (if more 1 160 191 then 3 else 0)
       else if b = 237 then (if more 1 128 159 then 3 else 0)
       else if 225 \<le> b \<and> b \<le> 239 then (if more 1 128 191 then 3 else 0)
       else if b = 240 then (if more 2 144 191 then 4 else 0)
       else if 241 \<le> b \<and> b \<le> 243 then (if more 2 128 191 then 4 else 0)
       else if b = 244 then (if more 2 128 143 then 4 else 0)
       else 0)"

function valid_utf8 :: "string \<Rightarrow> bool" where
  "valid_utf8 s = (if s = [] then True else if utf8_width s = 0 then False else valid_utf8 (drop (utf8_width s) s))"
  by pat_completeness auto
termination
  by (relation "measure length") auto

declare valid_utf8.simps [simp del]

function trim_utf8 :: "string \<Rightarrow> string" where
  "trim_utf8 s = (if valid_utf8 s then s else trim_utf8 (butlast s))"
  by pat_completeness auto
termination
proof (relation "measure length")
  fix s :: string
  assume "\<not> valid_utf8 s"
  then have "s \<noteq> []" by (auto simp: valid_utf8.simps)
  then show "(butlast s, s) \<in> measure length" by simp
qed simp

declare trim_utf8.simps [simp del]

definition bounded_message :: "string \<Rightarrow> string" where
  "bounded_message m = (if length m \<le> 2048 then m else trim_utf8 (take 2048 m))"

definition bounded_error :: "string \<Rightarrow> string" where
  "bounded_error m = take 512 m"

definition put_condition :: "('c, 'a) core_env_scheme \<Rightarrow> condition list \<Rightarrow> string \<Rightarrow> condition_status \<Rightarrow> string \<Rightarrow> string
    \<Rightarrow> int \<Rightarrow> gotime \<Rightarrow> condition list" where
  "put_condition env cs kind st reason message gen now = co_set_condition env cs
     \<lparr>c_type = kind, c_status = st, c_reason = reason, c_message = bounded_message message, c_observed = gen, c_transition = now\<rparr>"

definition provider_data :: "raw \<Rightarrow> provider_status" where
  "provider_data r = \<lparr>ps_data = r, ps_state = []\<rparr>"

section \<open>Acknowledgements of the servers (controller.go, status.go)\<close>

definition server_freshness :: duration where
  "server_freshness = 180 * second"

definition fresh_servers :: "server_status list \<Rightarrow> gotime \<Rightarrow> server_status list" where
  "fresh_servers servers now = filter (\<lambda>s. \<not> ss_observed s < now - server_freshness \<and> \<not> now < ss_observed s) servers"

definition snapshot_served :: "hosted_spec \<Rightarrow> server_status list \<Rightarrow> bool" where
  "snapshot_served spec servers \<longleftrightarrow> servers \<noteq> []
     \<and> list_all (\<lambda>s. ss_serial s = hs_serial spec \<and> ss_digest s = hs_digest spec) servers"

definition revision_served :: "uint32 \<Rightarrow> string \<Rightarrow> hosted_spec \<Rightarrow> server_status list \<Rightarrow> bool" where
  "revision_served first digest current servers \<longleftrightarrow> first \<noteq> 0 \<and> servers \<noteq> []
     \<and> list_all (\<lambda>s. \<not> (ss_serial s < first \<or> hs_serial current < ss_serial s \<or> ss_digest s = [])
          \<and> \<not> (ss_serial s = first \<and> ss_digest s \<noteq> digest)
          \<and> \<not> (ss_serial s = hs_serial current \<and> ss_digest s \<noteq> hs_digest current)) servers"

definition min_duration :: "duration \<Rightarrow> duration \<Rightarrow> duration" where
  "min_duration a b = (if a = 0 then b else if b = 0 then a else min a b)"

definition next_server_expiry :: "server_status list \<Rightarrow> gotime \<Rightarrow> duration" where
  "next_server_expiry servers now =
     fold (\<lambda>s next. min_duration next (max second (time_sub (ss_observed s + server_freshness) now + second))) servers 0"

section \<open>Loading and saving the state (model.go)\<close>

definition load_state :: "('c, 'a) hosted_env_scheme \<Rightarrow> provider_status option \<Rightarrow> scheduler" where
  "load_state env p = (case p of
       None \<Rightarrow> \<lparr>sd_withdrawals = [], sd_publications = [], sd_cursor = [], sd_delegation_policy = [], sd_delegation_next = 0,
                 sd_probed = False\<rparr>
     | Some s \<Rightarrow> (ho_read_state env (ps_state s))\<lparr>sd_probed := False\<rparr>)"

definition save_state :: "('c, 'a) hosted_env_scheme \<Rightarrow> provider_status option \<Rightarrow> scheduler \<Rightarrow> provider_status option" where
  "save_state env p state0 =
     (let state = state0\<lparr>sd_probed := False\<rparr> in
      if state = load_state env p then p
      else Some (case p of None \<Rightarrow> \<lparr>ps_data = [], ps_state = ho_state_json env state\<rparr>
                 | Some s \<Rightarrow> s\<lparr>ps_state := ho_state_json env state\<rparr>))"

section \<open>Positive cache horizons (model.go)\<close>

definition acknowledged :: "hosted_spec \<Rightarrow> server_status \<Rightarrow> bool" where
  "acknowledged spec s \<longleftrightarrow> ss_serial s = hs_serial spec \<and> ss_digest s = hs_digest spec"

definition records_of :: "hosted_spec \<Rightarrow> string \<Rightarrow> hosted_record list" where
  "records_of spec name = filter (\<lambda>r. hr_name r = name) (hs_records spec)"

text \<open>One record of the owner: the greater time to live, and the owner an alias leads to inside the zone.\<close>

definition publication_link :: "hosted_spec \<Rightarrow> hosted_record \<Rightarrow> uint32 \<times> string \<Rightarrow> uint32 \<times> string" where
  "publication_link spec r acc =
     (let ttl = max (fst acc) (hr_ttl r) in
      if hr_type r = TypeCNAME \<and> length (hr_values r) = 1 then
        (let target = canonical_name (hd (hr_values r)) in
         if target = hs_domain spec then (ttl, ''@'')
         else if has_suffix target (''.'' @ hs_domain spec) then (ttl, trim_suffix target (''.'' @ hs_domain spec))
         else (ttl, snd acc))
      else (ttl, snd acc))"

definition publish_address :: "string \<Rightarrow> gotime \<Rightarrow> string \<Rightarrow> (string \<times> gotime) list \<Rightarrow> (string \<times> gotime) list" where
  "publish_address name expires address pubs =
     (let key = name @ ''/'' @ address in if map_get pubs key < expires then map_put pubs key expires else pubs)"

definition publish_record :: "string \<Rightarrow> gotime \<Rightarrow> hosted_record \<Rightarrow> (string \<times> gotime) list \<Rightarrow> (string \<times> gotime) list" where
  "publish_record name expires r pubs =
     (if hr_type r \<noteq> TypeA \<and> hr_type r \<noteq> TypeAAAA then pubs
      else fold (publish_address name expires) (hr_values r) pubs)"

text \<open>The chain of one owner; the first argument counts the remaining links.\<close>

fun publish_chain :: "nat \<Rightarrow> hosted_spec \<Rightarrow> gotime \<Rightarrow> string \<Rightarrow> string \<Rightarrow> uint32 \<Rightarrow> (string \<times> gotime) list
    \<Rightarrow> (string \<times> gotime) list" where
  "publish_chain 0 spec now name current ttl pubs = pubs"
| "publish_chain (Suc k) spec now name current ttl pubs =
     (let (ttl', next) = fold (publication_link spec) (records_of spec current) (ttl, []);
          pubs' = fold (publish_record name (now + seconds ttl')) (records_of spec current) pubs in
      if next = [] then pubs' else publish_chain k spec now name next ttl' pubs')"

definition retain_publication :: "(string \<times> gotime) list \<Rightarrow> hosted_spec \<Rightarrow> server_status list \<Rightarrow> gotime
    \<Rightarrow> (string \<times> gotime) list" where
  "retain_publication pubs0 spec servers now =
     (let pubs = filter (\<lambda>p. now < snd p) pubs0 in
      if \<not> list_ex (acknowledged spec) servers then pubs
      else fold (\<lambda>name. publish_chain 9 spec now name name 0) (remdups (map hr_name (hs_records spec))) pubs)"

section \<open>Results (status.go)\<close>

definition empty_set_status :: unit_record_set_status where
  "empty_set_status = \<lparr>us_namespace = [], us_name = [], us_uid = [], us_observed = 0, us_provider = None,
     us_deletion_completed = False, us_conditions = []\<rparr>"

text \<open>The status an item starts from: the one of the same claim and generation, or an empty one.\<close>

definition prepared_receipt :: "unit_record_set_status list \<Rightarrow> unit_record_set \<Rightarrow> unit_record_set_status" where
  "prepared_receipt old item =
     (let found = (case by_key status_key old (item_key item) of None \<Rightarrow> empty_set_status | Some s \<Rightarrow> s);
          s = (if us_uid found \<noteq> ur_uid item \<or> us_observed found \<noteq> ur_observed item then empty_set_status else found)
      in s\<lparr>us_namespace := ur_namespace item, us_name := ur_name item, us_uid := ur_uid item, us_observed := ur_observed item\<rparr>)"

definition prepare_record_receipts :: "zone_unit \<Rightarrow> unit_record_set_status list" where
  "prepare_record_receipts u = map (prepared_receipt (ust_record_sets (unit_rstatus u))) (un_record_sets (unit_rspec u))"

definition pending_message :: "uint32 \<Rightarrow> string" where
  "pending_message serial = ''Snapshot serial '' @ dec (unat serial) @ '' is not yet served by every fresh hosted server.''"

definition stored_receipt :: "('c, 'a) hosted_env_scheme \<Rightarrow> unit_record_set_status \<Rightarrow> record_receipt" where
  "stored_receipt env result = (case us_provider result of None \<Rightarrow> empty_receipt | Some p \<Rightarrow> ho_read_receipt env (ps_state p))"

text \<open>The receipt of an item: a changed item starts over at the current revision.\<close>

definition item_receipt :: "('c, 'a) hosted_env_scheme \<Rightarrow> hosted_spec \<Rightarrow> unit_record_set \<Rightarrow> unit_record_set_status \<Rightarrow> record_receipt" where
  "item_receipt env spec item result =
     (let receipt = stored_receipt env result; fp = ho_item_digest env item in
      if rc_fingerprint receipt \<noteq> fp
      then \<lparr>rc_fingerprint = fp, rc_first = hs_serial spec, rc_digest = hs_digest spec, rc_served = None\<rparr>
      else receipt)"

definition item_served :: "hosted_spec \<Rightarrow> server_status list \<Rightarrow> record_receipt \<Rightarrow> bool" where
  "item_served spec servers receipt = revision_served (rc_first receipt) (rc_digest receipt) spec servers"

definition set_item_result :: "('c, 'a) hosted_env_scheme \<Rightarrow> hosted_spec \<Rightarrow> server_status list \<Rightarrow> gotime \<Rightarrow> unit_record_set
    \<Rightarrow> unit_record_set_status \<Rightarrow> unit_record_set_status" where
  "set_item_result env spec servers now item result =
     (let previous = stored_receipt env result;
          receipt0 = item_receipt env spec item result;
          served = item_served spec servers receipt0;
          receipt = (if served \<and> rc_served receipt0 = None then receipt0\<lparr>rc_served := Some now\<rparr> else receipt0);
          prior = (case co_find_condition env (us_conditions result) ''Programmed'' of None \<Rightarrow> False
                   | Some c \<Rightarrow> c_status c = ConditionTrue);
          provider = (if us_provider result = None \<or> receipt \<noteq> previous \<or> prior \<noteq> served
             then Some \<lparr>ps_data = ho_record_json env (rc_first receipt) (if served then rc_served receipt else None),
                        ps_state = ho_receipt_json env receipt\<rparr>
             else us_provider result);
          gen = ur_observed item;
          cs1 = put_condition env (us_conditions result) ''Accepted'' ConditionTrue ''Accepted'' ''Hosted DNS record intent is accepted.'' gen now;
          denied = (\<not> is_allowed item \<and> \<not> ur_deletion item);
          cs2 = (if denied then put_condition env cs1 ''Accepted'' ConditionFalse ''DeniedByPolicy''
                    ''Record intent is not allowed by composition policy.'' gen now else cs1);
          cs3 = (if denied then put_condition env cs2 ''Programmed'' ConditionUnknown ''Reconciling''
                    ''Record intent is not allowed by composition policy.'' gen now
                 else if served then put_condition env cs2 ''Programmed'' ConditionTrue ''Programmed''
                    ''Hosted record revision is served by every fresh hosted server.'' gen now
                 else put_condition env cs2 ''Programmed'' ConditionFalse ''ServingPending'' (pending_message (rc_first receipt)) gen now)
      in result\<lparr>us_deletion_completed := (ur_deletion item \<and> ur_uid item \<noteq> [] \<and> served),
                us_provider := provider, us_conditions := cs3\<rparr>)"

definition unit_zone :: "zone_unit \<Rightarrow> unit_zone_status" where
  "unit_zone u = (case ust_zone (unit_rstatus u) of None \<Rightarrow> \<lparr>uzs_name_servers = [], uzs_provider = None, uzs_conditions = []\<rparr>
     | Some z \<Rightarrow> z)"

definition empty_zone_data :: zone_data where
  "empty_zone_data = \<lparr>zd_serial = 0, zd_digest = [], zd_servers = [], zd_delegation = None\<rparr>"

definition stored_zone_data :: "('c, 'a) hosted_env_scheme \<Rightarrow> unit_zone_status \<Rightarrow> zone_data" where
  "stored_zone_data env z = (case uzs_provider z of None \<Rightarrow> empty_zone_data | Some p \<Rightarrow> snd (ho_read_zone env (ps_data p)))"

definition zone_result :: "('c, 'a) hosted_env_scheme \<Rightarrow> zone_unit \<Rightarrow> hosted_spec \<Rightarrow> server_status list \<Rightarrow> bool \<Rightarrow> gotime
    \<Rightarrow> unit_zone_status" where
  "zone_result env u spec servers served now =
     (let z = unit_zone u; previous = stored_zone_data env z;
          data = previous\<lparr>zd_serial := hs_serial spec, zd_digest := hs_digest spec,
                          zd_servers := take 64 (sort_key ss_endpoint servers)\<rparr>;
          gen = uz_observed (un_zone (unit_rspec u));
          cs1 = put_condition env (uzs_conditions z) ''Accepted'' ConditionTrue ''Accepted'' ''Hosted DNS Zone binding is accepted.'' gen now;
          cs2 = (if served then put_condition env cs1 ''Programmed'' ConditionTrue ''Programmed''
                    ''Hosted snapshot is served by every fresh hosted server.'' gen now
                 else put_condition env cs1 ''Programmed'' ConditionFalse ''ServingPending'' (pending_message (hs_serial spec)) gen now)
      in \<lparr>uzs_name_servers = map nsv_name (hs_name_servers spec),
          uzs_provider = (if uzs_provider z = None \<or> previous \<noteq> data then Some (provider_data (ho_zone_json env data)) else uzs_provider z),
          uzs_conditions = cs2\<rparr>)"

definition set_results :: "('c, 'a) hosted_env_scheme \<Rightarrow> zone_unit \<Rightarrow> hosted_spec \<Rightarrow> server_status list \<Rightarrow> bool \<Rightarrow> gotime
    \<Rightarrow> zone_unit" where
  "set_results env u spec servers served now =
     (let st = unit_rstatus u; ordered = sort_key ss_endpoint servers;
          cs = (if served then put_condition env (ust_conditions st) ''Programmed'' ConditionTrue ''Programmed''
                   ''Hosted snapshot is served by every fresh hosted server.'' (om_generation (unit_meta u)) now
                else put_condition env (ust_conditions st) ''Programmed'' ConditionFalse ''ProviderChangePending''
                   (pending_message (hs_serial spec)) (om_generation (unit_meta u)) now)
      in u\<lparr>unit_rstatus := st\<lparr>ust_zone := Some (zone_result env u spec servers served now),
             ust_record_sets := map2 (set_item_result env spec ordered now) (un_record_sets (unit_rspec u)) (prepare_record_receipts u),
             ust_conditions := cs\<rparr>\<rparr>)"

end
