(* ===== verification/Hosted_Publication.thy ===== *)
theory Hosted_Publication
  imports Hosted_Unit
begin

text \<open>
  What the hosted controller keeps of the snapshots it published (\<open>retainPublication\<close>, model.go):
  the time until which a cache may hold an address for an owner name, through aliases inside the zone.
\<close>

section \<open>Horizons only grow\<close>

text \<open>An update of the horizons raises some and lowers none.\<close>

definition raises :: "((string \<times> gotime) list \<Rightarrow> (string \<times> gotime) list) \<Rightarrow> bool" where
  "raises f \<longleftrightarrow> (\<forall>m k. map_get m k \<le> map_get (f m) k)"

lemma raisesD: "raises f \<Longrightarrow> map_get m k \<le> map_get (f m) k"
  by (simp add: raises_def)

lemma raises_fold: "(\<And>x. x \<in> set xs \<Longrightarrow> raises (f x)) \<Longrightarrow> raises (fold f xs)"
proof (induction xs)
  case (Cons x xs)
  then have x: "raises (f x)" and xs: "raises (fold f xs)" by auto
  show ?case unfolding raises_def by (auto intro: order_trans [OF raisesD [OF x] raisesD [OF xs]])
qed (simp add: raises_def)

text \<open>What one element of a fold establishes, the rest keeps.\<close>

lemma fold_establishes:
  assumes "\<And>y. y \<in> set xs \<Longrightarrow> raises (f y)" and "x \<in> set xs" and "\<And>m. t \<le> map_get (f x m) k"
  shows "t \<le> map_get (fold f xs m) k"
proof -
  obtain ys zs where xs: "xs = ys @ x # zs" using assms(2) by (meson split_list)
  have "raises (fold f zs)" by (rule raises_fold) (use assms(1) xs in simp)
  from order_trans [OF assms(3) raisesD [OF this]] show ?thesis by (simp add: xs)
qed

lemma raises_address: "raises (publish_address name t a)"
  by (auto simp: raises_def publish_address_def Let_def)

lemma address_horizon: "t \<le> map_get (publish_address name t a m) (name @ ''/'' @ a)"
  by (auto simp: publish_address_def Let_def)

lemma raises_record: "raises (publish_record name t r)"
proof -
  have "raises (fold (publish_address name t) (hr_values r))" by (rule raises_fold) (rule raises_address)
  then show ?thesis by (simp add: raises_def publish_record_def)
qed

lemma record_horizon:
  assumes "hr_type r = TypeA \<or> hr_type r = TypeAAAA" and "v \<in> set (hr_values r)"
  shows "t \<le> map_get (publish_record name t r m) (name @ ''/'' @ v)"
proof -
  have "t \<le> map_get (fold (publish_address name t) (hr_values r) m) (name @ ''/'' @ v)"
    by (rule fold_establishes [OF raises_address assms(2)]) (rule address_horizon)
  with assms(1) show ?thesis by (auto simp: publish_record_def)
qed

lemma raises_chain: "raises (publish_chain n spec now name cur ttl)"
proof (induction n arbitrary: cur ttl)
  case (Suc n)
  let ?f = "\<lambda>t. fold (publish_record name t) (records_of spec cur)"
  have f: "raises (?f t)" for t by (rule raises_fold) (rule raises_record)
  show ?case unfolding raises_def
  proof (intro allI)
    fix m k
    obtain ttl' goes where l: "fold (publication_link spec) (records_of spec cur) (ttl, []) = (ttl', goes)" by fastforce
    show "map_get m k \<le> map_get (publish_chain (Suc n) spec now name cur ttl m) k"
      using raisesD [OF f, of m k] order_trans [OF raisesD [OF f, of m k] raisesD [OF Suc.IH]] by (simp add: l Let_def)
  qed
qed (simp add: raises_def)

section \<open>Chains\<close>

text \<open>The owner reached after some links, with the greatest time to live met before it.\<close>

primrec chain_at :: "nat \<Rightarrow> hosted_spec \<Rightarrow> string \<Rightarrow> uint32 \<Rightarrow> (string \<times> uint32) option" where
  "chain_at 0 spec cur ttl = Some (cur, ttl)"
| "chain_at (Suc k) spec cur ttl =
     (let (ttl', next) = fold (publication_link spec) (records_of spec cur) (ttl, []) in
      if next = [] then None else chain_at k spec next ttl')"

lemma publication_link_ttl: "fst (publication_link spec r acc) = max (fst acc) (hr_ttl r)"
  by (simp add: publication_link_def Let_def)

lemma publication_link_pair: "\<exists>n'. publication_link spec r (ttl, n) = (max ttl (hr_ttl r), n')"
  using publication_link_ttl [of spec r "(ttl, n)"] by (cases "publication_link spec r (ttl, n)") simp

lemma link_ttl: "ttl \<le> fst (fold (publication_link spec) rs (ttl, n))"
proof (induction rs arbitrary: ttl n)
  case (Cons r rs)
  obtain n' where "publication_link spec r (ttl, n) = (max ttl (hr_ttl r), n')" using publication_link_pair by blast
  with Cons.IH [of "max ttl (hr_ttl r)" n'] show ?case by (auto intro: order_trans)
qed simp

lemma link_record_ttl: "r \<in> set rs \<Longrightarrow> hr_ttl r \<le> fst (fold (publication_link spec) rs (ttl, n))"
proof (induction rs arbitrary: ttl n)
  case (Cons x rs)
  obtain n' where l: "publication_link spec x (ttl, n) = (max ttl (hr_ttl x), n')" using publication_link_pair by blast
  have "hr_ttl x \<le> fst (fold (publication_link spec) rs (max ttl (hr_ttl x), n'))"
    using link_ttl [of "max ttl (hr_ttl x)"] by (meson max.cobounded2 order_trans)
  with Cons l show ?case by auto
qed simp

lemma chain_horizon:
  assumes "chain_at k spec cur ttl = Some (owner, t)" and "k < n" and "r \<in> set (records_of spec owner)"
    and "hr_type r = TypeA \<or> hr_type r = TypeAAAA" and "v \<in> set (hr_values r)"
  shows "now + seconds (max t (hr_ttl r)) \<le> map_get (publish_chain n spec now name cur ttl m) (name @ ''/'' @ v)"
  using assms(1,2)
proof (induction k arbitrary: n cur ttl m)
  case 0
  then obtain n' where n: "n = Suc n'" and cur: "cur = owner" "ttl = t" by (cases n) auto
  obtain ttl' goes where l: "fold (publication_link spec) (records_of spec owner) (t, []) = (ttl', goes)" by fastforce
  have "max t (hr_ttl r) \<le> ttl'"
    using link_ttl [of t spec "records_of spec owner" "[]"] link_record_ttl [OF assms(3), of spec t "[]"] l by simp
  then have le: "now + seconds (max t (hr_ttl r)) \<le> now + seconds ttl'" by (simp add: seconds_mono)
  let ?m = "fold (publish_record name (now + seconds ttl')) (records_of spec owner) m"
  let ?chain = "publish_chain n' spec now name goes ttl' ?m" and ?key = "name @ ''/'' @ v"
  have "now + seconds ttl' \<le> map_get ?m ?key"
    by (rule fold_establishes [OF raises_record assms(3)]) (rule record_horizon [OF assms(4,5)])
  note here = order_trans [OF le this]
  note there = order_trans [OF here raisesD [OF raises_chain, of ?m ?key n' spec now name goes ttl']]
  have "publish_chain n spec now name cur ttl m = ?m \<or> publish_chain n spec now name cur ttl m = ?chain" by (simp add: n cur l Let_def)
  then show ?case by (elim disjE) (simp_all only: here there)
next
  case (Suc k)
  then obtain n' where n: "n = Suc n'" "k < n'" by (cases n) auto
  obtain ttl' goes where l: "fold (publication_link spec) (records_of spec cur) (ttl, []) = (ttl', goes)" by fastforce
  with Suc.prems(1) have "goes \<noteq> []" "chain_at k spec goes ttl' = Some (owner, t)" by (auto split: if_splits)
  with Suc.IH [OF this(2) n(2)] show ?case by (simp add: n(1) l Let_def)
qed

section \<open>Properties\<close>

lemma filter_live: "distinct (map fst m) \<Longrightarrow> now < map_get m k \<Longrightarrow> map_get (filter (\<lambda>p. now < snd p) m) k = map_get m k"
proof (induction m)
  case (Cons p m)
  obtain a b where p: "p = (a, b)" by (cases p)
  show ?case
  proof (cases "a = k")
    case True
    then show ?thesis using Cons.prems p by simp
  next
    case False
    then show ?thesis using Cons p by simp
  qed
qed simp


definition publication_demo :: hosted_spec where
  "publication_demo = \<lparr>hs_domain = ''e.x'', hs_serial = 3,
     hs_soa = \<lparr>soa_mname = [], soa_rname = [], soa_refresh = 0, soa_retry = 0, soa_expire = 0, soa_minimum = 0\<rparr>, hs_name_servers = [],
     hs_records = [\<lparr>hr_name = ''a'', hr_type = TypeCNAME, hr_ttl = 600, hr_values = [''b.e.x'']\<rparr>,
                   \<lparr>hr_name = ''b'', hr_type = TypeA, hr_ttl = 60, hr_values = [''10.0.0.1'']\<rparr>],
     hs_digest = ''d''\<rparr>"


end
