(* ===== verification/Hosted_Unit_Withdrawals.thy ===== *)
theory Hosted_Unit_Withdrawals
  imports Hosted_Unit
begin

text \<open>
  \<open>internal/go/providers/hosted/controllers/zoneunit/withdrawal.go\<close>: the withdrawal claims of
  a unit. A pass first settles what the persisted evidence still says of every claim, then probes the
  claims that are due, in the order of their keys, starting after the cursor and within a budget of
  names, and keeps the evidence and the time of the next probe.
\<close>

section \<open>Bindings\<close>

definition max_names_per_pass :: nat where
  "max_names_per_pass = 32"

text \<open>What \<open>observe\<close> (controller.go) finds of the class and the provider.\<close>

record binding_env =
  be_class :: zone_class
  be_provider :: provider
  be_params :: class_parameters
  be_fingerprint :: string
  be_policy :: policy
  be_policy_error :: "go_error option"

definition unit_withdrawal_key :: "unit_withdrawal \<Rightarrow> string" where
  "unit_withdrawal_key item = uw_claim_namespace item @ ''/'' @ uw_claim_name item"

definition withdrawal_result_key :: "unit_withdrawal_status \<Rightarrow> string" where
  "withdrawal_result_key s = uws_claim_namespace s @ ''/'' @ uws_claim_name s"

definition withdrawal_identity :: "('c, 'a) hosted_env_scheme \<Rightarrow> zone_unit \<Rightarrow> unit_withdrawal \<Rightarrow> string" where
  "withdrawal_identity env u item = ho_claim_digest env (om_uid (unit_meta u)) (uz_ref (un_zone (unit_rspec u))) (uw_claim item)
     (uw_observed item) (uw_name item) (uw_address item)"

definition valid_unit_withdrawal :: "zone_unit \<Rightarrow> unit_withdrawal \<Rightarrow> bool" where
  "valid_unit_withdrawal u item =
     (let domain = uz_domain (un_zone (unit_rspec u));
          name = (if uw_name item \<noteq> ''@'' \<and> uw_name item \<noteq> ''*'' then trim_prefix (uw_name item) ''*.'' @ ''.'' @ domain else domain) in
      (case parse_addr (uw_address item) of None \<Rightarrow> False
       | Some ip \<Rightarrow> addr_zone ip = [] \<and> addr_string (unmap ip) = uw_address item)
      \<and> wr_uid (uw_claim item) \<noteq> [] \<and> uw_claim_namespace item \<noteq> [] \<and> uw_claim_name item \<noteq> []
      \<and> uw_claim_namespace item = wr_namespace (uw_claim item) \<and> uw_claim_name item = wr_name (uw_claim item)
      \<and> 0 < uw_observed item \<and> valid_name name)"

definition invalidate_status :: "unit_withdrawal_status \<Rightarrow> unit_withdrawal_status" where
  "invalidate_status s = s\<lparr>uws_absent_since := None, uws_not_before := None, uws_verified_at := None, uws_digest := []\<rparr>"

definition empty_withdrawal_result :: unit_withdrawal_status where
  "empty_withdrawal_result = \<lparr>uws_claim_namespace = [], uws_claim_name = [],
     uws_claim = \<lparr>wr_namespace = [], wr_name = [], wr_uid = []\<rparr>, uws_observed = 0, uws_policy = [], uws_checked_names = [],
     uws_required_views = [], uws_sampled = False, uws_absent_since = None, uws_not_before = None, uws_last_probe = None,
     uws_next_probe = None, uws_verified_at = None, uws_digest = [], uws_provider = None, uws_waiver = None, uws_conditions = []\<rparr>"

section \<open>Decisions\<close>

record unit_decision =
  ud_withdrawn :: condition_status
  ud_ready :: condition_status
  ud_reason :: string
  ud_message :: string
  ud_absent_since :: "gotime option"
  ud_not_before :: "gotime option"
  ud_verified_at :: "gotime option"
  ud_checked_names :: "string list"
  ud_required_views :: "string list"
  ud_preview :: "values_preview option"
  ud_next_probe :: gotime
  ud_state :: "wstate option"
  ud_policy :: string
  ud_waiver :: "waiver_reference option"
  ud_override :: "condition option"

definition of_output :: "wd_output \<Rightarrow> unit_decision" where
  "of_output o1 = \<lparr>ud_withdrawn = out_withdrawn o1, ud_ready = out_ready o1, ud_reason = out_reason o1, ud_message = out_message o1,
     ud_absent_since = out_absent_since o1, ud_not_before = out_not_before o1, ud_verified_at = out_verified_at o1,
     ud_checked_names = out_checked_names o1, ud_required_views = out_required_views o1, ud_preview = Some (out_preview o1),
     ud_next_probe = out_next_probe o1, ud_state = Some (out_state o1), ud_policy = out_policy o1, ud_waiver = out_waiver o1,
     ud_override = out_override o1\<rparr>"

text \<open>An unknown decision without evidence.\<close>

definition unknown_decision :: "string \<Rightarrow> string \<Rightarrow> unit_decision" where
  "unknown_decision reason message = \<lparr>ud_withdrawn = ConditionUnknown, ud_ready = ConditionFalse, ud_reason = reason, ud_message = message,
     ud_absent_since = None, ud_not_before = None, ud_verified_at = None, ud_checked_names = [], ud_required_views = [],
     ud_preview = None, ud_next_probe = 0, ud_state = None, ud_policy = [], ud_waiver = None, ud_override = None\<rparr>"

definition set_withdrawal_decision :: "('c, 'a) hosted_env_scheme \<Rightarrow> unit_decision \<Rightarrow> gotime \<Rightarrow> unit_withdrawal_status
    \<Rightarrow> unit_withdrawal_status" where
  "set_withdrawal_decision env d now s =
     s\<lparr>uws_absent_since := ud_absent_since d, uws_not_before := ud_not_before d, uws_verified_at := ud_verified_at d,
       uws_conditions := put_condition env
         (put_condition env (uws_conditions s) ''Withdrawn'' (ud_withdrawn d) (ud_reason d) (ud_message d) (uws_observed s) now)
         ''Ready'' (ud_ready d) (ud_reason d) (ud_message d) (uws_observed s) now\<rparr>"

text \<open>The digest covers the result without its digest, its provider data and the times of the transitions.\<close>

definition withdrawal_result_digest :: "('c, 'a) hosted_env_scheme \<Rightarrow> zone_unit \<Rightarrow> unit_withdrawal \<Rightarrow> unit_withdrawal_status
    \<Rightarrow> string" where
  "withdrawal_result_digest env u item s =
     ''sha256:'' @ ho_result_digest env (withdrawal_identity env u item) (un_provider (unit_rspec u))
       (s\<lparr>uws_digest := [], uws_provider := None,
          uws_conditions := sort_key c_type (map (\<lambda>c. c\<lparr>c_transition := 0\<rparr>) (uws_conditions s))\<rparr>)"

definition bind_withdrawal_waiver :: "('c, 'a) hosted_env_scheme \<Rightarrow> unit_withdrawal \<Rightarrow> gotime \<Rightarrow> unit_withdrawal_status
    \<Rightarrow> unit_withdrawal_status" where
  "bind_withdrawal_waiver env item now s =
     (let unbound = s\<lparr>uws_waiver := None, uws_conditions := ho_remove_condition env (uws_conditions s) ''OverrideAccepted''\<rparr> in
      case uw_waiver item of None \<Rightarrow> unbound
      | Some w \<Rightarrow>
        if wvr_name w = [] \<or> wvr_uid w = [] \<or> wvr_digest w = [] \<or> wr_uid (wvr_reservation_ref w) = [] then unbound
        else s\<lparr>uws_waiver := Some w, uws_conditions := put_condition env (uws_conditions s) ''OverrideAccepted'' ConditionTrue
               ''OperatorAuthorizedRelease'' ''Core-validated withdrawal waiver is bound to its exact UID and immutable scope.''
               (uw_observed item) now\<rparr>)"

section \<open>Settling the claims\<close>

text \<open>The evidence a claim starts from; a new identity keeps the horizons its name and address were published with.\<close>

definition claim_schedule :: "('c, 'a) hosted_env_scheme \<Rightarrow> zone_unit \<Rightarrow> unit_withdrawal \<Rightarrow> scheduler \<Rightarrow> gotime
    \<Rightarrow> unit_withdrawal_status \<Rightarrow> wschedule \<times> unit_withdrawal_status" where
  "claim_schedule env u item st now s =
     (let stored = (case map_of (sd_withdrawals st) (unit_withdrawal_key item) of None \<Rightarrow> empty_schedule | Some x \<Rightarrow> x);
          ident = withdrawal_identity env u item in
      if sc_identity stored = ident then (stored, s)
      else
        let missing = (sc_identity stored = [] \<and> uws_last_probe s \<noteq> None);
            expires = map_get (sd_publications st) (uw_name item @ ''/'' @ uw_address item);
            positive = (if now < expires then [(''publication'', expires)] else []);
            seed = (fresh_state [] [])\<lparr>st_missing_history := missing, st_positive := positive\<rparr>
        in (empty_schedule\<lparr>sc_identity := ident, sc_state := (if missing \<or> positive \<noteq> [] then Some seed else None)\<rparr>,
            invalidate_status s))"

text \<open>The revision since which the snapshot excludes the claim.\<close>

definition mark_omission :: "('c, 'a) hosted_env_scheme \<Rightarrow> hosted_spec \<Rightarrow> unit_withdrawal \<Rightarrow> wschedule \<Rightarrow> wschedule" where
  "mark_omission env snapshot item sc =
     (if snapshot_excludes (ho_wd env) snapshot item
      then (if sc_omission_serial sc = 0
            then sc\<lparr>sc_omission_serial := hs_serial snapshot, sc_omission_digest := hs_digest snapshot\<rparr> else sc)
      else sc\<lparr>sc_omission_serial := 0, sc_omission_digest := []\<rparr>)"

definition omission_served :: "wschedule \<Rightarrow> hosted_spec \<Rightarrow> server_status list \<Rightarrow> bool" where
  "omission_served sc snapshot servers = revision_served (sc_omission_serial sc) (sc_omission_digest sc) snapshot servers"

definition withdrawal_fingerprint :: "('c, 'a) hosted_env_scheme \<Rightarrow> binding_env \<Rightarrow> hosted_spec \<Rightarrow> server_status list
    \<Rightarrow> unit_withdrawal \<Rightarrow> wschedule \<Rightarrow> string" where
  "withdrawal_fingerprint env be snapshot servers item sc =
     ho_policy_digest env (be_fingerprint be) (hs_digest snapshot) (omission_served sc snapshot servers) (uw_waiver item)"

definition claim_bound :: "zone_unit \<Rightarrow> binding_env \<Rightarrow> unit_withdrawal \<Rightarrow> bool" where
  "claim_bound u be item \<longleftrightarrow> uw_allowed item \<and> valid_unit_withdrawal u item
     \<and> uz_class_uid (un_zone (unit_rspec u)) = om_uid (zc_meta (be_class be))
     \<and> uz_class_observed (un_zone (unit_rspec u)) = om_generation (zc_meta (be_class be))"

definition binding_not_accepted :: string where
  "binding_not_accepted = ''Hosted DNS withdrawal binding is not accepted.''"

definition claim_status :: "unit_withdrawal \<Rightarrow> unit_withdrawal_status \<Rightarrow> unit_withdrawal_status" where
  "claim_status item s = s\<lparr>uws_claim_namespace := uw_claim_namespace item, uws_claim_name := uw_claim_name item,
     uws_claim := uw_claim item, uws_observed := uw_observed item\<rparr>"

definition same_claim :: "unit_withdrawal \<Rightarrow> unit_withdrawal_status \<Rightarrow> unit_withdrawal_status" where
  "same_claim item s = (if uws_claim s \<noteq> uw_claim item \<or> uws_observed s \<noteq> uw_observed item then empty_withdrawal_result else s)"

definition old_result :: "zone_unit \<Rightarrow> unit_withdrawal \<Rightarrow> unit_withdrawal_status" where
  "old_result u item = same_claim item
     (case by_key withdrawal_result_key (ust_withdrawals (unit_rstatus u)) (unit_withdrawal_key item) of
        None \<Rightarrow> empty_withdrawal_result | Some s \<Rightarrow> s)"

text \<open>One claim: its evidence, its status and whether a probe is due.\<close>

definition settle_claim :: "('c, 'a) hosted_env_scheme \<Rightarrow> zone_unit \<Rightarrow> binding_env \<Rightarrow> hosted_spec \<Rightarrow> server_status list
    \<Rightarrow> gotime \<Rightarrow> scheduler \<Rightarrow> unit_withdrawal \<Rightarrow> wschedule \<times> unit_withdrawal_status \<times> bool" where
  "settle_claim env u be snapshot servers now st item =
     (let (sc0, s0) = claim_schedule env u item st now (old_result u item);
          sc = mark_omission env snapshot item sc0;
          fp = withdrawal_fingerprint env be snapshot servers item sc;
          s1 = (claim_status item s0)\<lparr>uws_sampled := (uw_name item = ''*'' \<or> has_prefix (uw_name item) ''*.'')\<rparr> in
      if \<not> claim_bound u be item then
        (let s2 = (invalidate_status s1)\<lparr>uws_waiver := None, uws_conditions := ho_remove_condition env (uws_conditions s1) ''OverrideAccepted''\<rparr>;
             s3 = s2\<lparr>uws_conditions := put_condition env (uws_conditions s2) ''Accepted'' ConditionFalse
                    (if uw_allowed item then ''InvalidWithdrawal'' else ''NotAllowed'') binding_not_accepted (uw_observed item) now\<rparr>
         in (sc\<lparr>sc_state := map_option invalidate (sc_state sc), sc_policy := []\<rparr>,
             set_withdrawal_decision env (unknown_decision ''DNSProbeFailed'' binding_not_accepted) now s3, False))
      else
        (let s2 = s1\<lparr>uws_conditions := put_condition env (uws_conditions s1) ''Accepted'' ConditionTrue ''Accepted''
                    ''Hosted DNS withdrawal intent is accepted.'' (uw_observed item) now\<rparr>;
             due = (sc_policy sc \<noteq> fp \<or> \<not> now < sc_next sc);
             s3 = (if sc_policy sc \<noteq> fp \<or> co_find_condition env (uws_conditions s2) ''Withdrawn'' = None
                   then set_withdrawal_decision env (unknown_decision ''DNSProbeFailed''
                          ''Hosted withdrawal verification is pending current served snapshot and policy.'') now (invalidate_status s2)
                   else s2);
             s4 = bind_withdrawal_waiver env item now s3;
             s5 = (if uws_digest s4 \<noteq> [] then s4\<lparr>uws_digest := withdrawal_result_digest env u item s4\<rparr> else s4)
         in (sc, s5, due)))"

fun settle_claims :: "('c, 'a) hosted_env_scheme \<Rightarrow> zone_unit \<Rightarrow> binding_env \<Rightarrow> hosted_spec \<Rightarrow> server_status list
    \<Rightarrow> gotime \<Rightarrow> scheduler \<Rightarrow> nat \<Rightarrow> unit_withdrawal list \<Rightarrow> scheduler \<times> unit_withdrawal_status list \<times> nat list" where
  "settle_claims env u be snapshot servers now st i [] = (st, [], [])"
| "settle_claims env u be snapshot servers now st i (item # items) =
     (let (sc, s, due) = settle_claim env u be snapshot servers now st item;
          st1 = st\<lparr>sd_withdrawals := map_put (sd_withdrawals st) (unit_withdrawal_key item) sc\<rparr>;
          (st2, ss, idx) = settle_claims env u be snapshot servers now st1 (Suc i) items
      in (st2, s # ss, if due then i # idx else idx))"

section \<open>Probing the claims that are due\<close>

text \<open>\<open>net.SplitHostPort\<close>.\<close>

definition split_host_port :: "string \<Rightarrow> (string \<times> string) option" where
  "split_host_port s =
     (let (rport, rhost, found) = cut (CHR '':'') (rev s); host = rev rhost; port = rev rport in
      if \<not> found then None
      else if has_prefix s ''['' then
        (let (inner, after, closed) = cut (CHR '']'') s in
         if \<not> closed \<or> after \<noteq> CHR '':'' # port \<or> CHR ''['' \<in> set (tl inner) \<or> CHR ''['' \<in> set after \<or> CHR '']'' \<in> set after then None
         else Some (tl inner, port))
      else if CHR '':'' \<in> set host \<or> CHR ''['' \<in> set s \<or> CHR '']'' \<in> set s then None
      else Some (host, port))"

definition view_endpoints :: "('c, 'a) hosted_env_scheme \<Rightarrow> string \<Rightarrow> go_error + string list" where
  "view_endpoints env endpoint =
     (case filter (\<lambda>ap. snd ap \<noteq> 0) (case parse_addr_port endpoint of None \<Rightarrow> [] | Some ap \<Rightarrow> [ap]) of
        ap # _ \<Rightarrow> Inr [addr_port_string ap]
      | [] \<Rightarrow>
        (case split_host_port endpoint of
           None \<Rightarrow> Inl (GoError False False ''invalid hosted service endpoint'')
         | Some (host, port) \<Rightarrow>
           (case ho_lookup env host of
              None \<Rightarrow> Inl (GoError False False ''hosted service discovery failed'')
            | Some ips \<Rightarrow> Inr (map (\<lambda>ip. join_host_port ip port) ips))))"

fun expand_views :: "('c, 'a) hosted_env_scheme \<Rightarrow> string list \<Rightarrow> go_error + string list" where
  "expand_views env [] = Inr []"
| "expand_views env (endpoint # es) =
     (case view_endpoints env endpoint of Inl e \<Rightarrow> Inl e
      | Inr vs \<Rightarrow> (case expand_views env es of Inl e \<Rightarrow> Inl e | Inr ws \<Rightarrow> Inr (vs @ ws)))"

definition resolve_views :: "('c, 'a) hosted_env_scheme \<Rightarrow> string list \<Rightarrow> go_error + string list" where
  "resolve_views env configured = (case expand_views env configured of Inl e \<Rightarrow> Inl e
     | Inr vs \<Rightarrow> let views = sort_compact vs in
       if views = [] \<or> 3 < length views then Inl (GoError False False ''hosted verification requires 1 through 3 resolved endpoints'')
       else Inr views)"

definition probe_cost :: "wschedule \<Rightarrow> nat" where
  "probe_cost sc = (case sc_state sc of None \<Rightarrow> 1 | Some s \<Rightarrow> max 1 (length (st_checked_names s)))"

definition clamp_delay :: "duration \<Rightarrow> duration" where
  "clamp_delay d = max (30 * second) (min (300 * second) d)"

definition unit_input :: "binding_env \<Rightarrow> hosted_spec \<Rightarrow> server_status list \<Rightarrow> string list \<Rightarrow> gotime \<Rightarrow> unit_withdrawal \<Rightarrow> wschedule
    \<Rightarrow> wd_input" where
  "unit_input be snapshot servers views now item sc = \<lparr>in_claim = item, in_snapshot = snapshot,
     in_served = omission_served sc snapshot servers, in_policy = \<lparr>p_mode = mode_recursive, p_servers = views, p_expected_ns = []\<rparr>,
     in_soa_minimum = soa_minimum (hs_soa snapshot), in_now = now, in_previous = sc_state sc\<rparr>"

text \<open>The decision of one probe, before it is scheduled, and whether it failed.\<close>

definition probe_decision :: "('c, 'a) hosted_env_scheme \<Rightarrow> binding_env \<Rightarrow> hosted_spec \<Rightarrow> server_status list
    \<Rightarrow> go_error + string list \<Rightarrow> gotime \<Rightarrow> gotime \<Rightarrow> nat \<Rightarrow> unit_withdrawal \<Rightarrow> wschedule \<Rightarrow> unit_decision \<times> bool" where
  "probe_decision env be snapshot servers views now completed n item sc0 =
     (let changed = (sc_binding sc0 \<noteq> [] \<and> sc_binding sc0 \<noteq> be_fingerprint be);
          sc = (if changed then sc0\<lparr>sc_state := map_option invalidate (sc_state sc0)\<rparr> else sc0);
          outcome = (case views of Inl e \<Rightarrow> Inl e | Inr vs \<Rightarrow> ho_evaluate env n (unit_input be snapshot servers vs now item sc));
          d = (case outcome of
             Inr o1 \<Rightarrow> of_output o1
           | Inl _ \<Rightarrow> (unknown_decision ''DNSProbeFailed'' ''Hosted DNS withdrawal probe failed in a required view.'')
               \<lparr>ud_state := map_option invalidate (sc_state sc), ud_next_probe := completed + 30 * second\<rparr>);
          d1 = (if changed then d\<lparr>ud_state := map_option invalidate (ud_state d), ud_withdrawn := ConditionUnknown,
                  ud_ready := ConditionFalse, ud_reason := ''PolicyChanged'',
                  ud_message := ''Hosted DNS withdrawal policy changed; the prior required view policy remains a floor.'',
                  ud_absent_since := None, ud_not_before := None, ud_verified_at := None\<rparr> else d)
      in (d1, case outcome of Inl _ \<Rightarrow> True | Inr _ \<Rightarrow> False))"

definition schedule_decision :: "('c, 'a) hosted_env_scheme \<Rightarrow> nat \<Rightarrow> gotime \<Rightarrow> unit_decision \<Rightarrow> unit_decision" where
  "schedule_decision env n completed d =
     (let next = completed + clamp_delay (ho_jitter env n (time_sub (ud_next_probe d) completed))
      in d\<lparr>ud_next_probe := next, ud_state := map_option (\<lambda>s. s\<lparr>st_next_probe := next\<rparr>) (ud_state d)\<rparr>)"

definition probed_status :: "('c, 'a) hosted_env_scheme \<Rightarrow> zone_unit \<Rightarrow> unit_withdrawal \<Rightarrow> gotime \<Rightarrow> bool \<Rightarrow> unit_decision
    \<Rightarrow> unit_withdrawal_status \<Rightarrow> unit_withdrawal_status" where
  "probed_status env u item completed erred d s0 =
     (let s1 = (set_withdrawal_decision env d completed s0)\<lparr>uws_last_probe := Some completed, uws_next_probe := Some (ud_next_probe d),
             uws_policy := ud_policy d, uws_required_views := ud_required_views d, uws_checked_names := ud_checked_names d,
             uws_provider := map_option (\<lambda>p. provider_data (ho_views_json env p)) (ud_preview d), uws_waiver := ud_waiver d\<rparr>;
          s2 = s1\<lparr>uws_conditions := (case ud_override d of Some c \<Rightarrow> co_set_condition env (uws_conditions s1) c
                  | None \<Rightarrow> ho_remove_condition env (uws_conditions s1) ''OverrideAccepted'')\<rparr>;
          s3 = (if erred then bind_withdrawal_waiver env item completed s2 else s2)
      in s3\<lparr>uws_digest := withdrawal_result_digest env u item s3\<rparr>)"

definition probe_claim :: "('c, 'a) hosted_env_scheme \<Rightarrow> zone_unit \<Rightarrow> binding_env \<Rightarrow> hosted_spec \<Rightarrow> server_status list
    \<Rightarrow> go_error + string list \<Rightarrow> gotime \<Rightarrow> nat \<Rightarrow> unit_withdrawal \<Rightarrow> wschedule \<Rightarrow> unit_withdrawal_status
    \<Rightarrow> wschedule \<times> unit_withdrawal_status" where
  "probe_claim env u be snapshot servers views now n item sc s =
     (let completed = ho_clock env (2 + n);
          (d0, erred) = probe_decision env be snapshot servers views now completed n item sc;
          d = schedule_decision env n completed d0
      in (sc\<lparr>sc_policy := withdrawal_fingerprint env be snapshot servers item sc, sc_next := ud_next_probe d,
             sc_state := ud_state d, sc_binding := be_fingerprint be\<rparr>,
          probed_status env u item completed erred d s))"

text \<open>The loop over the due claims: the budget left, the number of probes made, and the claims still to probe.\<close>

fun probe_claims :: "('c, 'a) hosted_env_scheme \<Rightarrow> zone_unit \<Rightarrow> binding_env \<Rightarrow> hosted_spec \<Rightarrow> server_status list
    \<Rightarrow> go_error + string list \<Rightarrow> gotime \<Rightarrow> nat \<Rightarrow> nat \<Rightarrow> nat list \<Rightarrow> scheduler \<times> unit_withdrawal_status list
    \<Rightarrow> scheduler \<times> unit_withdrawal_status list" where
  "probe_claims env u be snapshot servers views now budget n [] acc = acc"
| "probe_claims env u be snapshot servers views now budget n (i # is) (st, ss) =
     (let item = un_withdrawals (unit_rspec u) ! i; key = unit_withdrawal_key item;
          sc = (case map_of (sd_withdrawals st) key of None \<Rightarrow> empty_schedule | Some x \<Rightarrow> x) in
      if budget < probe_cost sc then (st, ss)
      else
        let (sc', s') = probe_claim env u be snapshot servers views now n item sc (ss ! i)
        in probe_claims env u be snapshot servers views now (budget - probe_cost sc) (Suc n) is
             (st\<lparr>sd_withdrawals := map_put (sd_withdrawals st) key sc', sd_cursor := key, sd_probed := True\<rparr>, ss[i := s']))"

text \<open>The due claims in the order of their keys, the ones after the cursor first.\<close>

definition due_order :: "unit_withdrawal list \<Rightarrow> string \<Rightarrow> nat list \<Rightarrow> nat list" where
  "due_order items cursor due =
     (let ordered = sort_key (\<lambda>i. unit_withdrawal_key (items ! i)) due;
          passed = (\<lambda>i. unit_withdrawal_key (items ! i) \<le> cursor)
      in dropWhile passed ordered @ takeWhile passed ordered)"

definition next_withdrawal :: "unit_withdrawal list \<Rightarrow> (string \<times> wschedule) list \<Rightarrow> nat list \<Rightarrow> gotime \<Rightarrow> duration" where
  "next_withdrawal items scs due now =
     (let of_due = fold (\<lambda>i next. min_duration next (max second (time_sub (case map_of scs (unit_withdrawal_key (items ! i)) of
              None \<Rightarrow> 0 | Some sc \<Rightarrow> sc_next sc) now))) due 0
      in fold (\<lambda>p next. if now < sc_next (snd p) then min_duration next (time_sub (sc_next (snd p)) now) else next) scs of_due)"

definition reconcile_unit_withdrawals :: "('c, 'a) hosted_env_scheme \<Rightarrow> zone_unit \<Rightarrow> binding_env \<Rightarrow> hosted_spec
    \<Rightarrow> server_status list \<Rightarrow> scheduler \<Rightarrow> gotime \<Rightarrow> zone_unit \<times> scheduler \<times> duration" where
  "reconcile_unit_withdrawals env u be snapshot servers st now =
     (let items = un_withdrawals (unit_rspec u); put = (\<lambda>ss. u\<lparr>unit_rstatus := (unit_rstatus u)\<lparr>ust_withdrawals := ss\<rparr>\<rparr>) in
      if items = [] then (put [], st\<lparr>sd_withdrawals := [], sd_cursor := []\<rparr>, 0)
      else
        let (st1, ss, due) = settle_claims env u be snapshot servers now st 0 items;
            st2 = st1\<lparr>sd_withdrawals := filter (\<lambda>p. fst p \<in> set (map unit_withdrawal_key items)) (sd_withdrawals st1)\<rparr>;
            views = (if due = [] then Inr []
                     else if cp_views (be_params be) \<noteq> [] then Inr (cp_views (be_params be))
                     else resolve_views env (ho_default_views env));
            order = due_order items (sd_cursor st2) due;
            (st3, ss3) = probe_claims env u be snapshot servers views now max_names_per_pass 0 order (st2, ss)
        in (put ss3, st3, next_withdrawal items (sd_withdrawals st3) due now))"

section \<open>Rejection\<close>

definition reject_claim :: "('c, 'a) hosted_env_scheme \<Rightarrow> zone_unit \<Rightarrow> gotime \<Rightarrow> unit_withdrawal \<Rightarrow> unit_withdrawal_status" where
  "reject_claim env u now item =
     (let s0 = invalidate_status (claim_status item (old_result u item));
          s1 = s0\<lparr>uws_waiver := None, uws_conditions := put_condition env (ho_remove_condition env (uws_conditions s0) ''OverrideAccepted'')
                 ''Accepted'' ConditionFalse ''InvalidWithdrawal'' binding_not_accepted (uw_observed item) now\<rparr>
      in set_withdrawal_decision env (unknown_decision ''DNSProbeFailed'' binding_not_accepted) now s1)"

definition reject_schedule :: "unit_withdrawal \<Rightarrow> scheduler \<Rightarrow> scheduler" where
  "reject_schedule item st =
     (let key = unit_withdrawal_key item;
          sc = (case map_of (sd_withdrawals st) key of None \<Rightarrow> empty_schedule | Some x \<Rightarrow> x)
      in st\<lparr>sd_withdrawals := map_put (sd_withdrawals st) key
             (sc\<lparr>sc_state := map_option invalidate (sc_state sc), sc_next := 0\<rparr>)\<rparr>)"

definition reject_withdrawals :: "('c, 'a) hosted_env_scheme \<Rightarrow> gotime \<Rightarrow> zone_unit \<Rightarrow> zone_unit" where
  "reject_withdrawals env now u =
     (let items = un_withdrawals (unit_rspec u); st = unit_rstatus u in
      if items = [] then u\<lparr>unit_rstatus := st\<lparr>ust_withdrawals := []\<rparr>\<rparr>
      else u\<lparr>unit_rstatus := st\<lparr>ust_withdrawals := map (reject_claim env u now) items,
               ust_provider := save_state env (ust_provider st) (fold reject_schedule items (load_state env (ust_provider st)))\<rparr>\<rparr>)"

section \<open>Conditions\<close>

text \<open>What the code relies on of \<open>meta.SetStatusCondition\<close>, \<open>RemoveStatusCondition\<close> and the search.\<close>

definition hosted_laws :: "('c, 'a) hosted_env_scheme \<Rightarrow> bool" where
  "hosted_laws env \<longleftrightarrow> condition_laws env
     \<and> (\<forall>cs t. co_find_condition env (ho_remove_condition env cs t) t = None)
     \<and> (\<forall>cs t k. k \<noteq> t \<longrightarrow> co_find_condition env (ho_remove_condition env cs t) k = co_find_condition env cs k)"

definition status_at :: "('c, 'a) core_env_scheme \<Rightarrow> condition list \<Rightarrow> string \<Rightarrow> condition_status option" where
  "status_at env cs t = map_option c_status (co_find_condition env cs t)"

lemma status_at_put:
  "condition_laws env \<Longrightarrow> status_at env (put_condition env cs k st r m g now) t = (if t = k then Some st else status_at env cs t)"
  unfolding status_at_def put_condition_def
  using condition_lawsD(1) [of env cs "\<lparr>c_type = k, c_status = st, c_reason = r, c_message = bounded_message m, c_observed = g, c_transition = now\<rparr>"]
    condition_lawsD(2) [of env t "\<lparr>c_type = k, c_status = st, c_reason = r, c_message = bounded_message m, c_observed = g, c_transition = now\<rparr>" cs]
  by auto

lemma status_at_set:
  "condition_laws env \<Longrightarrow> t \<noteq> c_type c \<Longrightarrow> status_at env (co_set_condition env cs c) t = status_at env cs t"
  by (simp add: status_at_def condition_lawsD(2))

lemma status_at_remove:
  "hosted_laws env \<Longrightarrow> status_at env (ho_remove_condition env cs t) k = (if k = t then None else status_at env cs k)"
  by (auto simp: status_at_def hosted_laws_def)

lemma hosted_condition_laws [intro]: "hosted_laws env \<Longrightarrow> condition_laws env"
  by (simp add: hosted_laws_def)

lemmas status_at_simps = status_at_put [OF hosted_condition_laws] status_at_remove

definition withdrawn :: "('c, 'a) core_env_scheme \<Rightarrow> unit_withdrawal_status \<Rightarrow> bool" where
  "withdrawn env s \<longleftrightarrow> status_at env (uws_conditions s) ''Withdrawn'' = Some ConditionTrue"

lemma withdrawn_decision:
  "hosted_laws env \<Longrightarrow> withdrawn env (set_withdrawal_decision env d now s) \<longleftrightarrow> ud_withdrawn d = ConditionTrue"
  by (simp add: withdrawn_def set_withdrawal_decision_def status_at_simps)

lemma withdrawn_waiver:
  "hosted_laws env \<Longrightarrow> withdrawn env (bind_withdrawal_waiver env item now s) = withdrawn env s"
  by (auto simp: withdrawn_def bind_withdrawal_waiver_def Let_def status_at_simps split: option.splits)

lemma withdrawn_frame [simp]:
  "withdrawn env (s\<lparr>uws_digest := x\<rparr>) = withdrawn env s" "withdrawn env (invalidate_status s) = withdrawn env s"
  "withdrawn env (claim_status item s) = withdrawn env s" "withdrawn env (s\<lparr>uws_sampled := b\<rparr>) = withdrawn env s"
  by (simp_all add: withdrawn_def invalidate_status_def claim_status_def)

lemma withdrawn_put:
  "hosted_laws env \<Longrightarrow> k \<noteq> ''Withdrawn'' \<Longrightarrow>
     withdrawn env (s\<lparr>uws_conditions := put_condition env (uws_conditions s') k st r m g now\<rparr>) = withdrawn env s'"
  by (simp add: withdrawn_def status_at_simps)

section \<open>Settling keeps only current evidence\<close>

definition schedule_of :: "scheduler \<Rightarrow> string \<Rightarrow> wschedule" where
  "schedule_of st key = (case map_of (sd_withdrawals st) key of None \<Rightarrow> empty_schedule | Some x \<Rightarrow> x)"

lemma mark_omission_simps [simp]:
  "sc_identity (mark_omission env snap item sc) = sc_identity sc" "sc_policy (mark_omission env snap item sc) = sc_policy sc"
  "sc_state (mark_omission env snap item sc) = sc_state sc" "sc_next (mark_omission env snap item sc) = sc_next sc"
  by (simp_all add: mark_omission_def)

lemma omission_excludes:
  "omission_served (mark_omission env snap item sc) snap servers \<Longrightarrow> snapshot_excludes (ho_wd env) snap item"
  by (auto simp: mark_omission_def omission_served_def revision_served_def split: if_splits)

lemma withdrawal_fingerprint_frame:
  "sc_omission_serial sc' = sc_omission_serial sc \<Longrightarrow> sc_omission_digest sc' = sc_omission_digest sc
    \<Longrightarrow> withdrawal_fingerprint env be snap servers item sc' = withdrawal_fingerprint env be snap servers item sc"
  by (simp add: withdrawal_fingerprint_def omission_served_def)

text \<open>A digest is not empty, and it tells a served omission from one that is not.\<close>

definition digest_laws :: "('c, 'a) hosted_env_scheme \<Rightarrow> bool" where
  "digest_laws env \<longleftrightarrow> (\<forall>p d b w. ho_policy_digest env p d b w \<noteq> [])
     \<and> (\<forall>p d w p' d' w'. ho_policy_digest env p d True w \<noteq> ho_policy_digest env p' d' False w')"

lemma settle_claim_withdrawn:
  assumes "hosted_laws env" and "digest_laws env" and "settle_claim env u be snap servers now st item = (sc, s, due)"
    and "withdrawn env s"
  shows "claim_bound u be item" and "sc_policy sc = withdrawal_fingerprint env be snap servers item sc"
    and "withdrawn env (old_result u item)" and "sc_policy sc = sc_policy (schedule_of st (unit_withdrawal_key item))"
proof -
  obtain sc0 s0 where cs: "claim_schedule env u item st now (old_result u item) = (sc0, s0)" by (cases "claim_schedule env u item st now (old_result u item)")
  let ?sc = "mark_omission env snap item sc0"
  let ?fp = "withdrawal_fingerprint env be snap servers item ?sc"
  have fp: "?fp \<noteq> []" using assms(2) by (simp add: digest_laws_def withdrawal_fingerprint_def)
  show b: "claim_bound u be item"
    using assms(1,3,4) by (auto simp: settle_claim_def cs Let_def withdrawn_decision unknown_decision_def split: if_splits)
  have sc: "sc = ?sc" using assms(3) b by (auto simp: settle_claim_def cs Let_def split: if_splits)
  have kept: "sc_policy sc0 = ?fp \<and> withdrawn env s0"
    using assms(1,3,4) b
    by (auto simp: settle_claim_def cs Let_def withdrawn_decision withdrawn_waiver unknown_decision_def withdrawn_put split: if_splits)
  then show "sc_policy sc = withdrawal_fingerprint env be snap servers item sc" by (simp add: sc)
  have same: "sc0 = schedule_of st (unit_withdrawal_key item) \<and> s0 = old_result u item"
    using cs kept fp by (auto simp: claim_schedule_def Let_def schedule_of_def empty_schedule_def split: if_splits)
  with kept show "withdrawn env (old_result u item)" by simp
  show "sc_policy sc = sc_policy (schedule_of st (unit_withdrawal_key item))" using same by (simp add: sc)
qed

text \<open>A claim is settled from its own evidence alone, so that the claims can be taken one by one.\<close>

lemma settle_claim_frame:
  "map_of (sd_withdrawals st') (unit_withdrawal_key item) = map_of (sd_withdrawals st) (unit_withdrawal_key item)
    \<Longrightarrow> sd_publications st' = sd_publications st
    \<Longrightarrow> settle_claim env u be snap servers now st' item = settle_claim env u be snap servers now st item"
proof -
  assume "map_of (sd_withdrawals st') (unit_withdrawal_key item) = map_of (sd_withdrawals st) (unit_withdrawal_key item)"
    "sd_publications st' = sd_publications st"
  then have "claim_schedule env u item st' now s = claim_schedule env u item st now s" for s
    by (simp add: claim_schedule_def Let_def)
  then show ?thesis unfolding settle_claim_def by simp
qed

lemma settle_claims_frame:
  "settle_claims env u be snap servers now st i items = (st', ss, due) \<Longrightarrow>
     sd_publications st' = sd_publications st \<and> sd_cursor st' = sd_cursor st
   \<and> (\<forall>key. key \<notin> unit_withdrawal_key ` set items \<longrightarrow> map_of (sd_withdrawals st') key = map_of (sd_withdrawals st) key)
   \<and> length ss = length items"
proof (induction items arbitrary: st i st' ss due)
  case (Cons item items)
  obtain sc s d where one: "settle_claim env u be snap servers now st item = (sc, s, d)" by (metis prod_cases3)
  let ?st = "st\<lparr>sd_withdrawals := map_put (sd_withdrawals st) (unit_withdrawal_key item) sc\<rparr>"
  obtain st2 ss2 due2 where rest: "settle_claims env u be snap servers now ?st (Suc i) items = (st2, ss2, due2)" by (metis prod_cases3)
  from Cons.IH [OF rest] Cons.prems show ?case by (auto simp: one rest map_of_map_put)
qed simp

lemma settle_claims_due:
  "settle_claims env u be snap servers now st i items = (st', ss, due) \<Longrightarrow>
     sorted due \<and> distinct due \<and> (\<forall>k \<in> set due. i \<le> k \<and> k < i + length items)"
proof (induction items arbitrary: st i st' ss due)
  case (Cons item items)
  obtain sc s d where one: "settle_claim env u be snap servers now st item = (sc, s, d)" by (metis prod_cases3)
  let ?st = "st\<lparr>sd_withdrawals := map_put (sd_withdrawals st) (unit_withdrawal_key item) sc\<rparr>"
  obtain st2 ss2 due2 where rest: "settle_claims env u be snap servers now ?st (Suc i) items = (st2, ss2, due2)" by (metis prod_cases3)
  from Cons.IH [OF rest] Cons.prems show ?case by (fastforce simp: one rest split: if_splits)
qed simp

lemma settle_claims_nth:
  assumes "distinct (map unit_withdrawal_key items)"
    and "settle_claims env u be snap servers now st i items = (st', ss, due)" and "j < length items"
  shows "\<exists>d. settle_claim env u be snap servers now st (items ! j) = (schedule_of st' (unit_withdrawal_key (items ! j)), ss ! j, d)
    \<and> (i + j \<in> set due \<longleftrightarrow> d)"
  using assms
proof (induction items arbitrary: st i st' ss due j)
  case (Cons item items)
  obtain sc s d where one: "settle_claim env u be snap servers now st item = (sc, s, d)" by (metis prod_cases3)
  let ?st = "st\<lparr>sd_withdrawals := map_put (sd_withdrawals st) (unit_withdrawal_key item) sc\<rparr>"
  obtain st2 ss2 due2 where rest: "settle_claims env u be snap servers now ?st (Suc i) items = (st2, ss2, due2)" by (metis prod_cases3)
  note fr = settle_claims_frame [OF rest]
  have out: "st' = st2" "ss = s # ss2" "due = (if d then i # due2 else due2)" using Cons.prems(2) by (simp_all add: one rest)
  have low: "\<forall>k \<in> set due2. Suc i \<le> k" using settle_claims_due [OF rest] by auto
  show ?case
  proof (cases j)
    case 0
    have "map_of (sd_withdrawals st2) (unit_withdrawal_key item) = Some sc"
      using fr Cons.prems(1) by (simp add: map_of_map_put)
    then show ?thesis using 0 one low by (auto simp: out schedule_of_def)
  next
    case (Suc k)
    have k: "k < length items" using Cons.prems(3) Suc by simp
    have dk: "distinct (map unit_withdrawal_key items)" using Cons.prems(1) by simp
    have ne: "unit_withdrawal_key (items ! k) \<noteq> unit_withdrawal_key item"
      using Cons.prems(1) k by (metis distinct.simps(2) image_eqI list.set_map list.simps(9) nth_mem)
    from Cons.IH [OF dk rest k] obtain d' where
      "settle_claim env u be snap servers now ?st (items ! k) = (schedule_of st2 (unit_withdrawal_key (items ! k)), ss2 ! k, d')"
      "Suc i + k \<in> set due2 \<longleftrightarrow> d'" by blast
    moreover have "settle_claim env u be snap servers now ?st (items ! k) = settle_claim env u be snap servers now st (items ! k)"
      by (rule settle_claim_frame) (use ne in \<open>simp_all add: map_of_map_put\<close>)
    ultimately show ?thesis using Suc by (auto simp: out)
  qed
qed simp

section \<open>Probing\<close>

text \<open>
  What the controller needs of an evaluator: a verified exclusion presupposes that the omission
  is served, and the evidence of a claim concerns one name.
\<close>

definition one_name :: "wstate option \<Rightarrow> bool" where
  "one_name s \<longleftrightarrow> (case s of None \<Rightarrow> True | Some w \<Rightarrow> length (st_checked_names w) \<le> 1)"

locale withdrawal_evaluator =
  fixes eval :: "wd_input \<Rightarrow> go_error + wd_output"
  assumes verified_served: "eval i = Inr o1 \<Longrightarrow> out_withdrawn o1 = ConditionTrue \<Longrightarrow> in_served i \<and> valid_claim i"
    and override_kind: "eval i = Inr o1 \<Longrightarrow> out_override o1 = Some c \<Longrightarrow> c_type c = ''OverrideAccepted''"
    and names_kept: "eval i = Inr o1 \<Longrightarrow> one_name (in_previous i) \<Longrightarrow> one_name (Some (out_state o1))"

lemma initial_names: "one_name (in_previous i) \<Longrightarrow> length (st_checked_names (initial_state env i)) \<le> 1"
  by (auto simp: one_name_def initial_state_def fresh_state_def Let_def split: option.splits)

lemma pass_state_names: "st_checked_names (pass_state env i) = st_checked_names (initial_state env i)"
proof -
  let ?now = "if in_now i = 0 then ev_clock env 0 else in_now i" and ?s0 = "initial_state env i"
  let ?s1 = "if stale ?s0 ?now then invalidate ?s0 else ?s0"
  let ?ch = "st_policy ?s0 \<noteq> [] \<and> st_policy ?s0 \<noteq> effective_digest env i"
  let ?s2 = "if ?ch \<or> weakened i ?s0 then invalidate ?s1 else ?s1"
  obtain n s3 d3 where ob: "observe env i (ev_clock env 0) ?now ?s2 = (n, s3, d3)" by (metis prod_cases3)
  have "st_checked_names s3 = st_checked_names ?s0" using observe_frame [OF ob] by simp
  then show ?thesis by (simp add: pass_state_def pass_def Let_def ob)
qed

lemma evaluate_names: "st_checked_names (out_state (evaluate env i)) = st_checked_names (initial_state env i)"
proof -
  have w: "st_checked_names (fst (window m t s)) = st_checked_names s" for m t s
    by (simp add: window_def Let_def)
  have sch: "st_checked_names (schedule a b t s) = st_checked_names s" for a b t s
    by (simp add: schedule_def Let_def)
  have "st_checked_names (fst (advance i t d s)) = st_checked_names s" for t d s
    by (simp add: advance_def w)
  moreover have "st_checked_names (pass_state env i) = st_checked_names (initial_state env i)"
    by (rule pass_state_names)
  ultimately show ?thesis by (simp add: evaluate_parts sch)
qed

lemma evaluate_override: "out_override (evaluate env i) = Some c \<Longrightarrow> c_type c = ''OverrideAccepted''"
  by (auto simp: evaluate_def bind_waiver_def Let_def split: prod.splits if_splits option.splits)

interpretation hosted: withdrawal_evaluator "\<lambda>i. Inr (evaluate env i)"
proof unfold_locales
  fix i o1
  assume e: "Inr (evaluate env i) = Inr o1" and "out_withdrawn o1 = ConditionTrue"
  then have "out_withdrawn (evaluate env i) = ConditionTrue" by simp
  then obtain prev where "pass_absent env i" by (rule evaluate_verified)
  from pass_absent_facts(1,2) [OF this] show "in_served i \<and> valid_claim i" by simp
next
  fix i o1 c
  assume "Inr (evaluate env i) = Inr o1" "out_override o1 = Some c"
  then show "c_type c = ''OverrideAccepted''" using evaluate_override [of env i c] by simp
next
  fix i o1
  assume "Inr (evaluate env i) = Inr o1" and p: "one_name (in_previous i)"
  then have "o1 = evaluate env i" by simp
  with initial_names [OF p, of env] show "one_name (Some (out_state o1))" by (simp add: one_name_def evaluate_names)
qed

text \<open>What a pass guarantees of a claim it reports as withdrawn.\<close>

definition backed_claim :: "('c, 'a) hosted_env_scheme \<Rightarrow> zone_unit \<Rightarrow> binding_env \<Rightarrow> hosted_spec \<Rightarrow> server_status list
    \<Rightarrow> unit_withdrawal \<Rightarrow> wschedule \<Rightarrow> unit_withdrawal_status \<Rightarrow> bool" where
  "backed_claim env u be snap servers item sc s \<longleftrightarrow>
     (omission_served sc snap servers \<longrightarrow> snapshot_excludes (ho_wd env) snap item)
   \<and> (withdrawn env s \<longrightarrow> claim_bound u be item \<and> omission_served sc snap servers
        \<and> sc_policy sc = withdrawal_fingerprint env be snap servers item sc)"

lemma probe_decision_True:
  assumes "\<forall>n. withdrawal_evaluator (ho_evaluate env n)"
    and "ud_withdrawn (fst (probe_decision env be snap servers views now completed n item sc)) = ConditionTrue"
  shows "omission_served sc snap servers"
proof -
  let ?ch = "sc_binding sc \<noteq> [] \<and> sc_binding sc \<noteq> be_fingerprint be"
  have nch: "\<not> ?ch"
  proof
    assume ?ch
    with assms(2) show False by (simp add: probe_decision_def Let_def)
  qed
  show ?thesis
  proof (cases views)
    case (Inl e)
    with assms(2) show ?thesis unfolding probe_decision_def Let_def if_not_P [OF nch] by (simp add: unknown_decision_def)
  next
    case (Inr vs)
    show ?thesis
    proof (cases "ho_evaluate env n (unit_input be snap servers vs now item sc)")
      case Inl
      with assms(2) \<open>views = Inr vs\<close> show ?thesis unfolding probe_decision_def Let_def if_not_P [OF nch] by (simp add: unknown_decision_def)
    next
      case ev: (Inr o1)
      with assms(2) \<open>views = Inr vs\<close> have "out_withdrawn o1 = ConditionTrue"
        unfolding probe_decision_def Let_def if_not_P [OF nch] by (simp add: of_output_def)
      from withdrawal_evaluator.verified_served [OF assms(1) [rule_format] ev this] show ?thesis by (simp add: unit_input_def)
    qed
  qed
qed

lemma withdrawn_cong: "uws_conditions s = uws_conditions s' \<Longrightarrow> withdrawn env s = withdrawn env s'"
  by (simp add: withdrawn_def)

lemma probed_withdrawn:
  assumes laws: "hosted_laws env" and "\<And>c. ud_override d = Some c \<Longrightarrow> c_type c = ''OverrideAccepted''"
  shows "withdrawn env (probed_status env u item completed erred d s) \<longleftrightarrow> ud_withdrawn d = ConditionTrue"
proof -
  let ?s1 = "(set_withdrawal_decision env d completed s)\<lparr>uws_last_probe := Some completed, uws_next_probe := Some (ud_next_probe d),
             uws_policy := ud_policy d, uws_required_views := ud_required_views d, uws_checked_names := ud_checked_names d,
             uws_provider := map_option (\<lambda>p. provider_data (ho_views_json env p)) (ud_preview d), uws_waiver := ud_waiver d\<rparr>"
  let ?cs = "case ud_override d of Some c \<Rightarrow> co_set_condition env (uws_conditions ?s1) c
                  | None \<Rightarrow> ho_remove_condition env (uws_conditions ?s1) ''OverrideAccepted''"
  let ?s2 = "?s1\<lparr>uws_conditions := ?cs\<rparr>"
  have "withdrawn env (probed_status env u item completed erred d s)
      = withdrawn env (if erred then bind_withdrawal_waiver env item completed ?s2 else ?s2)"
    unfolding probed_status_def Let_def by (rule withdrawn_cong) simp
  also have "\<dots> = withdrawn env ?s2" by (simp only: withdrawn_waiver [OF laws] if_cancel if_distrib [of "withdrawn env"])
  also have "\<dots> = withdrawn env ?s1"
  proof -
    have "status_at env ?cs ''Withdrawn'' = status_at env (uws_conditions ?s1) ''Withdrawn''"
    proof (cases "ud_override d")
      case None
      then show ?thesis using status_at_remove [OF laws] by simp
    next
      case (Some c)
      then show ?thesis using status_at_set [OF hosted_condition_laws [OF laws], of "''Withdrawn''" c] assms(2) [OF Some] by simp
    qed
    then show ?thesis by (simp add: withdrawn_def)
  qed
  also have "\<dots> = withdrawn env (set_withdrawal_decision env d completed s)" by (rule withdrawn_cong) simp
  finally show ?thesis by (simp only: withdrawn_decision [OF laws])
qed

lemma decision_override:
  assumes "\<forall>n. withdrawal_evaluator (ho_evaluate env n)"
    and "ud_override (fst (probe_decision env be snap servers views now completed n item sc)) = Some c"
  shows "c_type c = ''OverrideAccepted''"
proof -
  let ?sc = "if sc_binding sc \<noteq> [] \<and> sc_binding sc \<noteq> be_fingerprint be then sc\<lparr>sc_state := map_option invalidate (sc_state sc)\<rparr> else sc"
  obtain vs o1 where "ho_evaluate env n (unit_input be snap servers vs now item ?sc) = Inr o1" "out_override o1 = Some c"
  proof (cases views)
    case (Inl e)
    with assms(2) that show ?thesis unfolding probe_decision_def Let_def by (simp add: unknown_decision_def split: if_splits)
  next
    case (Inr vs)
    show ?thesis
    proof (cases "ho_evaluate env n (unit_input be snap servers vs now item ?sc)")
      case (Inl e)
      with assms(2) Inr that show ?thesis unfolding probe_decision_def Let_def by (simp add: unknown_decision_def split: if_splits)
    next
      case ev: (Inr o1)
      with assms(2) Inr have "out_override o1 = Some c" unfolding probe_decision_def Let_def
        by (simp add: of_output_def split: if_splits)
      from that [OF ev this] show ?thesis .
    qed
  qed
  from withdrawal_evaluator.override_kind [OF assms(1) [rule_format] this] show ?thesis .
qed

lemma schedule_decision_simps [simp]:
  "ud_withdrawn (schedule_decision env n t d) = ud_withdrawn d" "ud_override (schedule_decision env n t d) = ud_override d"
  by (simp_all add: schedule_decision_def Let_def)

lemma probe_claim_backed:
  assumes "hosted_laws env" and "\<forall>n. withdrawal_evaluator (ho_evaluate env n)" and "claim_bound u be item"
    and "backed_claim env u be snap servers item sc s"
    and "probe_claim env u be snap servers views now n item sc s = (sc', s')"
  shows "backed_claim env u be snap servers item sc' s'"
proof -
  let ?t = "ho_clock env (2 + n)"
  obtain d erred where d: "probe_decision env be snap servers views now ?t n item sc = (d, erred)" by fastforce
  note facts = probe_decision_True [OF assms(2), of be snap servers views now ?t n item sc]
    decision_override [OF assms(2), of be snap servers views now ?t n item sc]
  from assms(5) have sc': "sc' = sc\<lparr>sc_policy := withdrawal_fingerprint env be snap servers item sc,
        sc_next := ud_next_probe (schedule_decision env n ?t d), sc_state := ud_state (schedule_decision env n ?t d),
        sc_binding := be_fingerprint be\<rparr>"
    and s': "s' = probed_status env u item ?t erred (schedule_decision env n ?t d) s"
    unfolding probe_claim_def Let_def d by simp_all
  have served: "omission_served sc' snap servers = omission_served sc snap servers" by (simp add: sc' omission_served_def)
  have "withdrawn env s' \<longleftrightarrow> ud_withdrawn d = ConditionTrue"
    using probed_withdrawn [OF assms(1), of "schedule_decision env n ?t d"] facts(2) d by (simp add: s')
  moreover have "sc_policy sc' = withdrawal_fingerprint env be snap servers item sc'"
    by (simp add: sc' withdrawal_fingerprint_def omission_served_def)
  ultimately show ?thesis using assms(3,4) facts(1) d served by (auto simp: backed_claim_def)
qed

lemma probe_claims_backed:
  assumes "hosted_laws env" and "\<forall>n. withdrawal_evaluator (ho_evaluate env n)"
    and "distinct (map unit_withdrawal_key (un_withdrawals (unit_rspec u)))"
    and "\<forall>i \<in> set is. i < length (un_withdrawals (unit_rspec u)) \<and> claim_bound u be (un_withdrawals (unit_rspec u) ! i)"
    and "probe_claims env u be snap servers views now budget n is (st, ss) = (st', ss')"
    and "length ss = length (un_withdrawals (unit_rspec u))"
    and "\<forall>j < length ss. backed_claim env u be snap servers (un_withdrawals (unit_rspec u) ! j)
           (schedule_of st (unit_withdrawal_key (un_withdrawals (unit_rspec u) ! j))) (ss ! j)"
  shows "length ss' = length ss \<and> (\<forall>j < length ss. backed_claim env u be snap servers (un_withdrawals (unit_rspec u) ! j)
           (schedule_of st' (unit_withdrawal_key (un_withdrawals (unit_rspec u) ! j))) (ss' ! j))"
  using assms(4-)
proof (induction "is" arbitrary: budget n st ss)
  case (Cons i "is")
  let ?items = "un_withdrawals (unit_rspec u)"
  let ?key = "\<lambda>j. unit_withdrawal_key (?items ! j)"
  let ?sc = "schedule_of st (?key i)"
  have i: "i < length ?items" "claim_bound u be (?items ! i)" using Cons.prems(1) by simp_all
  show ?case
  proof (cases "budget < probe_cost ?sc")
    case True
    with Cons.prems show ?thesis by (auto simp: Let_def schedule_of_def)
  next
    case False
    obtain sc' s' where p: "probe_claim env u be snap servers views now n (?items ! i) ?sc (ss ! i) = (sc', s')" by fastforce
    let ?st = "st\<lparr>sd_withdrawals := map_put (sd_withdrawals st) (?key i) sc', sd_cursor := ?key i, sd_probed := True\<rparr>"
    have run: "probe_claims env u be snap servers views now (budget - probe_cost ?sc) (Suc n) is (?st, ss[i := s']) = (st', ss')"
      using Cons.prems(2) False p by (simp add: Let_def schedule_of_def)
    have one: "backed_claim env u be snap servers (?items ! i) sc' s'"
      using probe_claim_backed [OF assms(1,2) i(2) _ p] Cons.prems(3,4) i(1) by simp
    have ne: "?key j \<noteq> ?key i" if "j < length ?items" "j \<noteq> i" for j
      using assms(3) that i(1) by (metis distinct_conv_nth length_map nth_map)
    have "\<forall>j < length (ss[i := s']). backed_claim env u be snap servers (?items ! j) (schedule_of ?st (?key j)) (ss[i := s'] ! j)"
    proof (intro allI impI)
      fix j assume j: "j < length (ss[i := s'])"
      show "backed_claim env u be snap servers (?items ! j) (schedule_of ?st (?key j)) (ss[i := s'] ! j)"
      proof (cases "j = i")
        case True with one j show ?thesis by (simp add: schedule_of_def)
      next
        case False with Cons.prems(3,4) j ne [of j] show ?thesis by (simp add: schedule_of_def)
      qed
    qed
    with Cons.IH [OF _ run] Cons.prems(1,3) show ?thesis by simp
  qed
qed simp

text \<open>
  The evidence the private state holds for the claims that are reported as withdrawn: the last
  probe found the omission served.
\<close>

definition evidence_kept :: "('c, 'a) hosted_env_scheme \<Rightarrow> zone_unit \<Rightarrow> scheduler \<Rightarrow> bool" where
  "evidence_kept env u st \<longleftrightarrow> (\<forall>s \<in> set (ust_withdrawals (unit_rstatus u)). withdrawn env s \<longrightarrow>
     (\<exists>p d w. sc_policy (schedule_of st (withdrawal_result_key s)) = ho_policy_digest env p d True w))"

definition withdrawal_backed :: "('c, 'a) hosted_env_scheme \<Rightarrow> zone_unit \<Rightarrow> binding_env \<Rightarrow> hosted_spec \<Rightarrow> server_status list
    \<Rightarrow> scheduler \<Rightarrow> unit_withdrawal \<Rightarrow> bool" where
  "withdrawal_backed env u be snap servers st item \<longleftrightarrow> claim_bound u be item \<and> snapshot_excludes (ho_wd env) snap item
     \<and> omission_served (schedule_of st (unit_withdrawal_key item)) snap servers"

lemma result_key_simps [simp]:
  "withdrawal_result_key (claim_status item s) = unit_withdrawal_key item"
  "withdrawal_result_key (s\<lparr>uws_sampled := b\<rparr>) = withdrawal_result_key s"
  "withdrawal_result_key (s\<lparr>uws_conditions := cs\<rparr>) = withdrawal_result_key s"
  "withdrawal_result_key (s\<lparr>uws_waiver := w\<rparr>) = withdrawal_result_key s"
  "withdrawal_result_key (s\<lparr>uws_digest := x\<rparr>) = withdrawal_result_key s"
  "withdrawal_result_key (invalidate_status s) = withdrawal_result_key s"
  "withdrawal_result_key (set_withdrawal_decision env d t s) = withdrawal_result_key s"
  "withdrawal_result_key (bind_withdrawal_waiver env item t s) = withdrawal_result_key s"
  "withdrawal_result_key (probed_status env u item t e d s) = withdrawal_result_key s"
proof -
  show bind: "withdrawal_result_key (bind_withdrawal_waiver env item t s) = withdrawal_result_key s" for s
    by (simp add: withdrawal_result_key_def bind_withdrawal_waiver_def Let_def split: option.splits)
  show "withdrawal_result_key (probed_status env u item t e d s) = withdrawal_result_key s"
    by (simp add: withdrawal_result_key_def probed_status_def Let_def bind_withdrawal_waiver_def set_withdrawal_decision_def split: option.splits)
qed (simp_all add: withdrawal_result_key_def unit_withdrawal_key_def claim_status_def invalidate_status_def set_withdrawal_decision_def)

lemma settle_claim_key:
  "settle_claim env u be snap servers now st item = (sc, s, due) \<Longrightarrow> withdrawal_result_key s = unit_withdrawal_key item"
  by (auto simp: settle_claim_def Let_def split: prod.splits if_splits)

lemma old_result_withdrawn:
  assumes "hosted_laws env" and "withdrawn env (old_result u item)"
  obtains s where "s \<in> set (ust_withdrawals (unit_rstatus u))" "withdrawn env s" "withdrawal_result_key s = unit_withdrawal_key item"
proof -
  have no: "\<not> withdrawn env empty_withdrawal_result"
    by (simp add: withdrawn_def empty_withdrawal_result_def status_at_def condition_lawsD(3) [OF hosted_condition_laws [OF assms(1)]])
  show thesis
  proof (cases "by_key withdrawal_result_key (ust_withdrawals (unit_rstatus u)) (unit_withdrawal_key item)")
    case None
    with assms(2) no show ?thesis by (simp add: old_result_def same_claim_def split: if_splits)
  next
    case (Some s)
    with assms(2) no have "withdrawn env s" by (simp add: old_result_def same_claim_def split: if_splits)
    with by_key_Some [OF Some] that show ?thesis by blast
  qed
qed

lemma settled_backed:
  assumes "hosted_laws env" and "digest_laws env" and "evidence_kept env u st"
    and "settle_claim env u be snap servers now st item = (sc, s, due)"
  shows "backed_claim env u be snap servers item sc s" and "due \<Longrightarrow> claim_bound u be item"
proof -
  obtain sc0 s0 where cs: "claim_schedule env u item st now (old_result u item) = (sc0, s0)" by fastforce
  have om: "sc_omission_serial sc = sc_omission_serial (mark_omission env snap item sc0)
      \<and> sc_omission_digest sc = sc_omission_digest (mark_omission env snap item sc0)"
    using assms(4) by (auto simp: settle_claim_def cs Let_def split: if_splits)
  have ex: "omission_served sc snap servers \<Longrightarrow> snapshot_excludes (ho_wd env) snap item"
    using omission_excludes [of env snap item sc0 servers] om by (simp add: omission_served_def)
  have w: "claim_bound u be item \<and> omission_served sc snap servers
        \<and> sc_policy sc = withdrawal_fingerprint env be snap servers item sc" if "withdrawn env s"
  proof -
    note f = settle_claim_withdrawn [OF assms(1,2,4) that]
    from old_result_withdrawn [OF assms(1) f(3)] obtain s1 where
      "s1 \<in> set (ust_withdrawals (unit_rstatus u))" "withdrawn env s1" "withdrawal_result_key s1 = unit_withdrawal_key item" .
    with assms(3) obtain p d x where "sc_policy (schedule_of st (unit_withdrawal_key item)) = ho_policy_digest env p d True x"
      unfolding evidence_kept_def by metis
    with f(2,4) have "ho_policy_digest env p d True x = ho_policy_digest env (be_fingerprint be) (hs_digest snap) (omission_served sc snap servers) (uw_waiver item)"
      by (simp add: withdrawal_fingerprint_def)
    then have "omission_served sc snap servers" using assms(2) unfolding digest_laws_def by (metis (full_types))
    with f(1,2) show ?thesis by simp
  qed
  from ex w show "backed_claim env u be snap servers item sc s" unfolding backed_claim_def by blast
  show "claim_bound u be item" if due
    using assms(4) that by (auto simp: settle_claim_def cs Let_def split: if_splits)
qed

lemma due_order_set: "set (due_order items c due) = set due"
  by (simp add: due_order_def Let_def) (metis set_append set_sort takeWhile_dropWhile_id Un_commute)

lemma probe_claims_keys:
  "probe_claims env u be snap servers views now budget n is (st, ss) = (st', ss') \<Longrightarrow>
     map withdrawal_result_key ss' = map withdrawal_result_key ss"
proof (induction "is" arbitrary: budget n st ss)
  case (Cons i "is")
  show ?case
  proof (cases "budget < probe_cost (schedule_of st (unit_withdrawal_key (un_withdrawals (unit_rspec u) ! i)))")
    case True
    with Cons.prems show ?thesis by (simp add: Let_def schedule_of_def)
  next
    case False
    let ?key = "unit_withdrawal_key (un_withdrawals (unit_rspec u) ! i)"
    obtain sc' s' where p: "probe_claim env u be snap servers views now n (un_withdrawals (unit_rspec u) ! i) (schedule_of st ?key) (ss ! i) = (sc', s')"
      by fastforce
    have "withdrawal_result_key s' = withdrawal_result_key (ss ! i)"
      using p by (auto simp: probe_claim_def Let_def split: prod.splits)
    moreover from Cons.prems False p obtain st1 where
      "probe_claims env u be snap servers views now (budget - probe_cost (schedule_of st ?key)) (Suc n) is (st1, ss[i := s']) = (st', ss')"
      by (auto simp: Let_def schedule_of_def)
    ultimately show ?thesis using Cons.IH by (metis list_update_id map_update)
  qed
qed simp

lemma map_of_filter_key: "k \<in> A \<Longrightarrow> map_of (filter (\<lambda>p. fst p \<in> A) m) k = map_of m k"
  by (induction m) auto

text \<open>
  A pass over the claims reports one as withdrawn only while the claim is bound to the class, the
  snapshot excludes it, and every fresh server serves a revision without it: a status kept from
  earlier passes is dropped as soon as the policy, the snapshot, the waiver or the served revision
  changes, and a new success needs a verified probe.
\<close>

lemma withdrawn_while_served:
  assumes laws: "hosted_laws env" and ev: "\<forall>n. withdrawal_evaluator (ho_evaluate env n)" and dig: "digest_laws env"
    and keys: "distinct (map unit_withdrawal_key (un_withdrawals (unit_rspec u)))"
    and kept: "evidence_kept env u st"
    and run: "reconcile_unit_withdrawals env u be snap servers st now = (u', st', next)"
  shows "evidence_kept env u' st'
    \<and> (\<forall>s \<in> set (ust_withdrawals (unit_rstatus u')). withdrawn env s \<longrightarrow>
         (\<exists>item \<in> set (un_withdrawals (unit_rspec u)). withdrawal_result_key s = unit_withdrawal_key item
            \<and> withdrawal_backed env u be snap servers st' item))"
proof (cases "un_withdrawals (unit_rspec u) = []")
  case True
  with run show ?thesis by (auto simp: reconcile_unit_withdrawals_def evidence_kept_def)
next
  case False
  let ?items = "un_withdrawals (unit_rspec u)"
  let ?key = "\<lambda>j. unit_withdrawal_key (?items ! j)"
  obtain st1 ss due where set: "settle_claims env u be snap servers now st 0 ?items = (st1, ss, due)" by (metis prod_cases3)
  let ?st2 = "st1\<lparr>sd_withdrawals := filter (\<lambda>p. fst p \<in> set (map unit_withdrawal_key ?items)) (sd_withdrawals st1)\<rparr>"
  obtain views ss3 where pr: "probe_claims env u be snap servers views now max_names_per_pass 0 (due_order ?items (sd_cursor ?st2) due)
      (?st2, ss) = (st', ss3)" and u': "ust_withdrawals (unit_rstatus u') = ss3"
    using run False by (auto simp: reconcile_unit_withdrawals_def set Let_def split: prod.splits)
  have len: "length ss = length ?items" using settle_claims_frame [OF set] by simp
  have sched: "schedule_of ?st2 (?key j) = schedule_of st1 (?key j)" if "j < length ?items" for j
    using that map_of_filter_key [of "?key j" "set (map unit_withdrawal_key ?items)" "sd_withdrawals st1"] by (simp add: schedule_of_def)
  have settled: "backed_claim env u be snap servers (?items ! j) (schedule_of ?st2 (?key j)) (ss ! j)
      \<and> withdrawal_result_key (ss ! j) = ?key j \<and> (j \<in> set due \<longrightarrow> claim_bound u be (?items ! j))" if j: "j < length ?items" for j
  proof -
    from settle_claims_nth [OF keys set j] obtain d where
      d: "settle_claim env u be snap servers now st (?items ! j) = (schedule_of st1 (?key j), ss ! j, d)" "j \<in> set due \<longleftrightarrow> d" by auto
    from settled_backed [OF laws dig kept d(1)] settle_claim_key [OF d(1)] d(2) sched [OF j] show ?thesis by simp
  qed
  have order: "\<forall>i \<in> set (due_order ?items (sd_cursor ?st2) due). i < length ?items \<and> claim_bound u be (?items ! i)"
    using settle_claims_due [OF set] settled by (simp add: due_order_set)
  have "\<forall>j < length ss. backed_claim env u be snap servers (?items ! j) (schedule_of ?st2 (?key j)) (ss ! j)"
    using settled len by simp
  note final = probe_claims_backed [OF laws ev keys order pr len this]
  have keys': "withdrawal_result_key (ss3 ! j) = ?key j" if "j < length ?items" for j
    using probe_claims_keys [OF pr] settled that len by (metis length_map nth_map)
  have each: "withdrawn env (ss3 ! j) \<Longrightarrow> j < length ?items \<Longrightarrow>
      withdrawal_backed env u be snap servers st' (?items ! j)
      \<and> sc_policy (schedule_of st' (?key j)) = ho_policy_digest env (be_fingerprint be) (hs_digest snap) True (uw_waiver (?items ! j))" for j
    using final len by (auto simp: backed_claim_def withdrawal_backed_def withdrawal_fingerprint_def)
  have index: "\<exists>j < length ?items. s = ss3 ! j" if "s \<in> set ss3" for s
    using that final len by (auto simp: in_set_conv_nth)
  have "evidence_kept env u' st'"
    unfolding evidence_kept_def u' using index each keys' by metis
  moreover have "\<exists>item \<in> set ?items. withdrawal_result_key s = unit_withdrawal_key item \<and> withdrawal_backed env u be snap servers st' item"
    if "s \<in> set ss3" "withdrawn env s" for s
    using index [OF that(1)] each keys' that(2) nth_mem by metis
  ultimately show ?thesis by (simp add: u')
qed

end
