(* ===== verification/Hosted_Rotation.thy ===== *)
theory Hosted_Rotation
  imports Hosted_Unit_Withdrawals
begin

text \<open>
  The order in which the withdrawal claims of a unit are probed: the cursor kept between the passes
  makes them take turns, so that a claim that stays due is probed after a bounded number of passes.
\<close>

section \<open>Turns\<close>

text \<open>The claims whose turn comes before claim \<open>i\<close> when the cursor stands at \<open>c\<close>.\<close>

definition turn_before :: "string \<Rightarrow> string \<Rightarrow> string \<Rightarrow> bool" where
  "turn_before c k x \<longleftrightarrow> (if c < x then c < k \<and> k < x else c < k \<or> k < x)"

definition waiting :: "unit_withdrawal list \<Rightarrow> string \<Rightarrow> nat \<Rightarrow> nat" where
  "waiting items c i = length (filter (\<lambda>k. turn_before c k (unit_withdrawal_key (items ! i))) (map unit_withdrawal_key items))"

lemma turn_before_irrefl [simp]: "\<not> turn_before c x x"
  by (auto simp: turn_before_def split: if_splits)

lemma turn_before_trans: "turn_before c a b \<Longrightarrow> turn_before c b x \<Longrightarrow> turn_before c a x"
  by (auto simp: turn_before_def split: if_splits)

lemma turn_before_cursor: "turn_before c c' x \<Longrightarrow> turn_before c' k x \<Longrightarrow> turn_before c k x"
  by (auto simp: turn_before_def split: if_splits)

lemma turn_before_passed: "turn_before c c' x \<Longrightarrow> p = c' \<or> turn_before c p c' \<Longrightarrow> \<not> turn_before c' p x"
  by (auto simp: turn_before_def split: if_splits)

lemma sorted_wrt_distinct: "sorted_wrt (turn_before c) ks \<Longrightarrow> distinct ks"
  by (induction ks) auto

lemma waiting_card:
  "distinct (map unit_withdrawal_key items) \<Longrightarrow>
     waiting items c i = card {k \<in> unit_withdrawal_key ` set items. turn_before c k (unit_withdrawal_key (items ! i))}"
  unfolding waiting_def by (metis distinct_card distinct_filter list.set_map set_filter)

lemma waiting_less:
  assumes "i < length items"
  shows "waiting items c i < length items"
proof -
  let ?k = "unit_withdrawal_key (items ! i)"
  have "?k \<in> set (map unit_withdrawal_key items)" using assms by simp
  then have "length (filter (\<lambda>k. turn_before c k ?k) (map unit_withdrawal_key items)) < length (map unit_withdrawal_key items)"
    by (rule length_filter_less) simp
  then show ?thesis by (simp add: waiting_def)
qed

lemma due_order_sorted:
  assumes "distinct (map unit_withdrawal_key items)" and "distinct due" and "\<forall>j \<in> set due. j < length items"
  shows "sorted_wrt (turn_before c) (map (\<lambda>j. unit_withdrawal_key (items ! j)) (due_order items c due))"
proof -
  let ?key = "\<lambda>j. unit_withdrawal_key (items ! j)"
  let ?o = "sort_key ?key due"
  let ?p = "\<lambda>j. ?key j \<le> c"
  have inj: "inj_on ?key (set due)"
    using assms(1,3) by (auto simp: inj_on_def distinct_conv_nth)
  have strict: "sorted_wrt (<) (map ?key ?o)"
  proof -
    have "distinct (map ?key ?o)" using inj assms(2) by (simp add: distinct_map)
    then show ?thesis unfolding strict_sorted_iff by simp
  qed
  then have parts: "sorted_wrt (<) (map ?key (takeWhile ?p ?o)) \<and> sorted_wrt (<) (map ?key (dropWhile ?p ?o))"
    by (subst (asm) takeWhile_dropWhile_id [of ?p ?o, symmetric]) (simp only: map_append sorted_wrt_append)
  have low: "\<forall>j \<in> set (takeWhile ?p ?o). ?key j \<le> c" by (auto dest: set_takeWhileD)
  have high: "\<forall>j \<in> set (dropWhile ?p ?o). c < ?key j"
  proof
    fix j assume j: "j \<in> set (dropWhile ?p ?o)"
    then obtain h t where ht: "dropWhile ?p ?o = h # t" by (cases "dropWhile ?p ?o") (simp_all del: dropWhile_eq_Nil_conv)
    then have "\<not> ?p h" by (metis hd_dropWhile list.distinct(1) list.sel(1))
    moreover have "?key h \<le> ?key j" using parts j ht by (auto intro: order.strict_implies_order)
    ultimately show "c < ?key j" by simp
  qed
  have "sorted_wrt (turn_before c) (map ?key (dropWhile ?p ?o))"
    unfolding sorted_wrt_map
    by (rule sorted_wrt_mono_rel [OF _ parts [THEN conjunct2, unfolded sorted_wrt_map]]) (use high in \<open>simp add: turn_before_def\<close>)
  moreover have "sorted_wrt (turn_before c) (map ?key (takeWhile ?p ?o))"
    unfolding sorted_wrt_map
    by (rule sorted_wrt_mono_rel [OF _ parts [THEN conjunct1, unfolded sorted_wrt_map]]) (use low in \<open>simp add: turn_before_def leD\<close>)
  ultimately show ?thesis
    using low high by (auto simp: due_order_def Let_def sorted_wrt_append turn_before_def)
qed

text \<open>A pass that serves the first 32 of a longer queue brings every other due claim 32 turns nearer.\<close>

lemma waiting_step:
  assumes keys: "distinct (map unit_withdrawal_key items)" and so: "sorted_wrt (turn_before c) (map (\<lambda>j. unit_withdrawal_key (items ! j)) ord)"
    and range: "\<forall>j \<in> set ord. j < length items" and i: "i \<in> set ord" "i \<notin> set (take m ord)" and m: "0 < m"
  shows "waiting items (unit_withdrawal_key (items ! last (take m ord))) i + m \<le> waiting items c i"
proof -
  let ?key = "\<lambda>j. unit_withdrawal_key (items ! j)"
  let ?P = "map ?key (take m ord)" and ?x = "?key i" and ?c' = "?key (last (take m ord))"
  let ?W = "{k \<in> unit_withdrawal_key ` set items. turn_before c k ?x}" and ?W' = "{k \<in> unit_withdrawal_key ` set items. turn_before ?c' k ?x}"
  have long: "m < length ord"
  proof (rule ccontr)
    assume "\<not> m < length ord"
    with i show False by simp
  qed
  have ne: "take m ord \<noteq> []" using m long by auto
  have ip: "i \<in> set (drop m ord)" using i by (metis Un_iff append_take_drop_id set_append)
  have split: "sorted_wrt (turn_before c) (?P @ map ?key (drop m ord))"
    using so by (metis append_take_drop_id map_append)
  have before: "turn_before c p ?x" if "p \<in> set ?P" for p
    using split that ip by (auto simp: sorted_wrt_append)
  have upto: "p = ?c' \<or> turn_before c p ?c'" if "p \<in> set ?P" for p
  proof -
    have "?P = map ?key (butlast (take m ord)) @ [?c']" 
      using arg_cong [OF append_butlast_last_id [OF ne, symmetric], of "map ?key"] by (simp only: map_append list.map)
    moreover have "sorted_wrt (turn_before c) ?P" using split by (simp add: sorted_wrt_append)
    ultimately show ?thesis using that by (auto simp: sorted_wrt_append)
  qed
  have last: "?c' \<in> set ?P" using ne by auto
  have "distinct ?P"
    using split by (simp add: sorted_wrt_append) (metis sorted_wrt_distinct)
  then have card: "card (set ?P) = m" using distinct_card [of ?P] long by simp
  have disj: "?W' \<inter> set ?P = {}" using turn_before_passed [OF before [OF last]] upto by blast
  have near: "?W' \<subseteq> ?W" using turn_before_cursor [OF before [OF last]] by blast
  have served: "set ?P \<subseteq> ?W"
  proof
    fix p assume p: "p \<in> set ?P"
    then obtain j where "j \<in> set (take m ord)" "p = ?key j" by auto
    with range have "p \<in> unit_withdrawal_key ` set items" by (auto dest: in_set_takeD)
    with before [OF p] show "p \<in> ?W" by simp
  qed
  have fin: "finite ?W" "finite ?W'" by simp_all
  have "card (?W' \<union> set ?P) \<le> card ?W" by (rule card_mono [OF fin(1)]) (use near served in blast)
  moreover have "card (?W' \<union> set ?P) = card ?W' + m"
    unfolding card_Un_disjoint [OF fin(2) finite_set disj] card ..
  ultimately have "card ?W' + m \<le> card ?W" by simp
  then show ?thesis by (simp add: waiting_card [OF keys])
qed

section \<open>The evidence of a claim concerns one name\<close>

definition one_names :: "scheduler \<Rightarrow> bool" where
  "one_names st \<longleftrightarrow> (\<forall>p \<in> set (sd_withdrawals st). one_name (sc_state (snd p)))"

lemma one_names_schedule: "one_names st \<Longrightarrow> one_name (sc_state (schedule_of st key))"
  by (auto simp: one_names_def schedule_of_def empty_schedule_def one_name_def split: option.splits dest!: map_of_SomeD)

lemma map_put_subset: "set (map_put m k v) \<subseteq> insert (k, v) (set m)"
  by (induction m) (auto split: if_splits)

lemma one_names_put:
  "one_names st \<Longrightarrow> one_name (sc_state sc) \<Longrightarrow>
     one_names (st\<lparr>sd_withdrawals := map_put (sd_withdrawals st) key sc\<rparr>)"
  using map_put_subset [of "sd_withdrawals st" key sc] by (auto simp: one_names_def)

lemma one_names_frame:
  "one_names (st\<lparr>sd_cursor := c\<rparr>) = one_names st" "one_names (st\<lparr>sd_probed := b\<rparr>) = one_names st"
  by (simp_all add: one_names_def)

lemma one_name_cost: "one_name (sc_state sc) \<Longrightarrow> probe_cost sc = 1"
  by (auto simp: one_name_def probe_cost_def split: option.splits)

lemma one_name_invalidate [simp]: "one_name (map_option invalidate s) = one_name s"
  by (cases s) (simp_all add: one_name_def)

lemma settle_one_name:
  assumes "one_names st" and "settle_claim env u be snap servers now st item = (sc, s, due)"
  shows "one_name (sc_state sc)"
proof -
  obtain sc0 s0 where cs: "claim_schedule env u item st now (old_result u item) = (sc0, s0)" by fastforce
  have "one_name (sc_state sc0)"
    using cs one_names_schedule [OF assms(1), of "unit_withdrawal_key item"]
    by (auto simp: claim_schedule_def Let_def schedule_of_def one_name_def fresh_state_def empty_schedule_def split: if_splits)
  then show ?thesis using assms(2) by (auto simp: settle_claim_def cs Let_def split: if_splits)
qed

lemma settle_claims_one_names:
  "one_names st \<Longrightarrow> settle_claims env u be snap servers now st i items = (st', ss, due) \<Longrightarrow> one_names st'"
proof (induction items arbitrary: st i st' ss due)
  case (Cons item items)
  obtain sc s d where one: "settle_claim env u be snap servers now st item = (sc, s, d)" by (metis prod_cases3)
  let ?st = "st\<lparr>sd_withdrawals := map_put (sd_withdrawals st) (unit_withdrawal_key item) sc\<rparr>"
  obtain st2 ss2 due2 where rest: "settle_claims env u be snap servers now ?st (Suc i) items = (st2, ss2, due2)" by (metis prod_cases3)
  from Cons.IH [OF one_names_put [OF Cons.prems(1) settle_one_name [OF Cons.prems(1) one]] rest] Cons.prems(2)
  show ?case by (simp add: one rest)
qed simp

lemma probe_one_name:
  assumes "\<forall>n. withdrawal_evaluator (ho_evaluate env n)" and "one_name (sc_state sc)"
    and "probe_claim env u be snap servers views now n item sc s = (sc', s')"
  shows "one_name (sc_state sc')" and "uws_last_probe s' = Some (ho_clock env (2 + n))"
proof -
  let ?t = "ho_clock env (2 + n)"
  obtain d erred where d: "probe_decision env be snap servers views now ?t n item sc = (d, erred)" by fastforce
  let ?ch = "sc_binding sc \<noteq> [] \<and> sc_binding sc \<noteq> be_fingerprint be"
  let ?sc = "if ?ch then sc\<lparr>sc_state := map_option invalidate (sc_state sc)\<rparr> else sc"
  have sc: "one_name (sc_state ?sc)" using assms(2) by simp
  have "one_name (ud_state d)"
  proof (cases views)
    case (Inl e)
    then show ?thesis using d sc unfolding probe_decision_def Let_def by (auto simp: unknown_decision_def split: if_splits)
  next
    case (Inr vs)
    show ?thesis
    proof (cases "ho_evaluate env n (unit_input be snap servers vs now item ?sc)")
      case (Inl e)
      with Inr show ?thesis using d sc unfolding probe_decision_def Let_def by (auto simp: unknown_decision_def split: if_splits)
    next
      case ev: (Inr o1)
      have "one_name (in_previous (unit_input be snap servers vs now item ?sc))" using sc by (simp add: unit_input_def)
      from withdrawal_evaluator.names_kept [OF assms(1) [rule_format] ev this] Inr ev d
      show ?thesis unfolding probe_decision_def Let_def by (auto simp: of_output_def one_name_def split: if_splits)
    qed
  qed
  then have "one_name (ud_state (schedule_decision env n ?t d))"
    by (cases "ud_state d") (simp_all add: schedule_decision_def Let_def one_name_def)
  then show "one_name (sc_state sc')" using assms(3) unfolding probe_claim_def Let_def d by auto
  show "uws_last_probe s' = Some ?t"
    using assms(3) unfolding probe_claim_def Let_def d
    by (auto simp: probed_status_def Let_def bind_withdrawal_waiver_def split: option.splits)
qed

lemma probe_claims_untouched:
  "probe_claims env u be snap servers views now budget n is (st, ss) = (st', ss') \<Longrightarrow> i \<notin> set is \<Longrightarrow> ss' ! i = ss ! i"
proof (induction "is" arbitrary: budget n st ss)
  case (Cons j "is")
  let ?sc = "schedule_of st (unit_withdrawal_key (un_withdrawals (unit_rspec u) ! j))"
  show ?case
  proof (cases "budget < probe_cost ?sc")
    case True
    with Cons.prems show ?thesis by (simp add: Let_def schedule_of_def)
  next
    case False
    obtain sc' s' where p: "probe_claim env u be snap servers views now n (un_withdrawals (unit_rspec u) ! j) ?sc (ss ! j) = (sc', s')" by fastforce
    from Cons.prems(1) False p obtain st1 where
      "probe_claims env u be snap servers views now (budget - probe_cost ?sc) (Suc n) is (st1, ss[j := s']) = (st', ss')"
      by (auto simp: Let_def schedule_of_def)
    from Cons.IH [OF this] Cons.prems(2) show ?thesis by simp
  qed
qed simp

lemma probe_claims_turns:
  assumes "\<forall>n. withdrawal_evaluator (ho_evaluate env n)" and "one_names st" and "distinct is" and "\<forall>i \<in> set is. i < length ss"
    and "probe_claims env u be snap servers views now budget n is (st, ss) = (st', ss')"
  shows "one_names st'
    \<and> sd_cursor st' = (if take budget is = [] then sd_cursor st
           else unit_withdrawal_key (un_withdrawals (unit_rspec u) ! last (take budget is)))
    \<and> (\<forall>i \<in> set (take budget is). \<exists>k < budget. uws_last_probe (ss' ! i) = Some (ho_clock env (2 + (n + k))))"
  using assms(2-)
proof (induction "is" arbitrary: budget n st ss)
  case (Cons i "is")
  let ?items = "un_withdrawals (unit_rspec u)"
  let ?key = "unit_withdrawal_key (?items ! i)"
  let ?sc = "schedule_of st ?key"
  note one = one_names_schedule [OF Cons.prems(1), of ?key]
  have cost: "probe_cost ?sc = 1" by (rule one_name_cost [OF one])
  show ?case
  proof (cases budget)
    case 0
    with Cons.prems(1,4) cost show ?thesis by (simp add: Let_def schedule_of_def)
  next
    case (Suc b)
    obtain sc' s' where p: "probe_claim env u be snap servers views now n (?items ! i) ?sc (ss ! i) = (sc', s')" by fastforce
    let ?st = "st\<lparr>sd_withdrawals := map_put (sd_withdrawals st) ?key sc', sd_cursor := ?key, sd_probed := True\<rparr>"
    have run: "probe_claims env u be snap servers views now b (Suc n) is (?st, ss[i := s']) = (st', ss')"
      using Cons.prems(4) Suc cost p by (simp add: Let_def schedule_of_def)
    have names: "one_names ?st"
      using one_names_put [OF Cons.prems(1) probe_one_name(1) [OF assms(1) one p], of ?key] by (simp add: one_names_def)
    have "distinct is" "\<forall>j \<in> set is. j < length (ss[i := s'])" using Cons.prems(2,3) by simp_all
    note ih = Cons.IH [OF names this run]
    have rest: "\<exists>k < budget. uws_last_probe (ss' ! j) = Some (ho_clock env (2 + (n + k)))" if "j \<in> set (take b is)" for j
    proof -
      from ih that obtain k where "k < b" "uws_last_probe (ss' ! j) = Some (ho_clock env (2 + (Suc n + k)))" by blast
      then show ?thesis using Suc by (intro exI [of _ "Suc k"]) simp
    qed
    have "ss' ! i = s'" using probe_claims_untouched [OF run, of i] Cons.prems(2,3) by simp
    then have "uws_last_probe (ss' ! i) = Some (ho_clock env (2 + (n + 0)))" using probe_one_name(2) [OF assms(1) one p] by simp
    then have "\<exists>k < budget. uws_last_probe (ss' ! i) = Some (ho_clock env (2 + (n + k)))" using Suc by blast
    with rest ih Suc show ?thesis by simp
  qed
qed simp

definition claim_due :: "('c, 'a) hosted_env_scheme \<Rightarrow> zone_unit \<Rightarrow> binding_env \<Rightarrow> hosted_spec \<Rightarrow> server_status list
    \<Rightarrow> gotime \<Rightarrow> scheduler \<Rightarrow> unit_withdrawal \<Rightarrow> bool" where
  "claim_due env u be snap servers now st item \<longleftrightarrow> snd (snd (settle_claim env u be snap servers now st item))"

text \<open>C12. No due claim starves: a pass either probes it, or it probes 32 others and brings the claim
  32 turns nearer in the rotation the cursor keeps between the passes, of which there are fewer than
  the unit has claims. With at most 256 claims a claim that stays due is probed within eight passes.
  The evidence of every claim concerns one name, which the evaluator preserves and so does the pass.\<close>

theorem due_claim_progress:
  assumes ev: "\<forall>n. withdrawal_evaluator (ho_evaluate env n)"
    and keys: "distinct (map unit_withdrawal_key (un_withdrawals (unit_rspec u)))" and names: "one_names st"
    and i: "i < length (un_withdrawals (unit_rspec u))"
    and due: "claim_due env u be snap servers now st (un_withdrawals (unit_rspec u) ! i)"
    and run: "reconcile_unit_withdrawals env u be snap servers st now = (u', st', next)"
  shows "one_names st'
    \<and> ((\<exists>k < 32. uws_last_probe (ust_withdrawals (unit_rstatus u') ! i) = Some (ho_clock env (2 + k)))
       \<or> waiting (un_withdrawals (unit_rspec u)) (sd_cursor st') i + 32 \<le> waiting (un_withdrawals (unit_rspec u)) (sd_cursor st) i)
    \<and> waiting (un_withdrawals (unit_rspec u)) (sd_cursor st) i < length (un_withdrawals (unit_rspec u))"
proof -
  let ?items = "un_withdrawals (unit_rspec u)"
  have ne: "?items \<noteq> []" using i by auto
  obtain st1 ss due where set: "settle_claims env u be snap servers now st 0 ?items = (st1, ss, due)" by (metis prod_cases3)
  let ?st2 = "st1\<lparr>sd_withdrawals := filter (\<lambda>p. fst p \<in> set (map unit_withdrawal_key ?items)) (sd_withdrawals st1)\<rparr>"
  let ?ord = "due_order ?items (sd_cursor st1) due"
  obtain views ss3 where pr: "probe_claims env u be snap servers views now max_names_per_pass 0 ?ord (?st2, ss) = (st', ss3)"
    and u': "ust_withdrawals (unit_rstatus u') = ss3"
    using run ne by (auto simp: reconcile_unit_withdrawals_def set Let_def split: prod.splits)
  note fr = settle_claims_frame [OF set] and dd = settle_claims_due [OF set]
  have range: "\<forall>j \<in> set ?ord. j < length ?items" using dd by (simp add: due_order_set)
  have dist: "distinct ?ord"
    using due_order_sorted [OF keys, of due "sd_cursor st1"] dd sorted_wrt_distinct by (fastforce simp: distinct_map)
  have "one_names ?st2" using settle_claims_one_names [OF names set] by (simp add: one_names_def)
  note turns = probe_claims_turns [OF ev this dist _ pr]
  have mem: "i \<in> set ?ord"
    using settle_claims_nth [OF keys set i] assms(5) by (auto simp: due_order_set claim_due_def)
  have after: "one_names st'" "sd_cursor st' = (if take 32 ?ord = [] then sd_cursor st1 else unit_withdrawal_key (?items ! last (take 32 ?ord)))"
    "\<forall>j \<in> set (take 32 ?ord). \<exists>k < 32. uws_last_probe (ss3 ! j) = Some (ho_clock env (2 + k))"
    using turns range fr by (simp_all add: max_names_per_pass_def)
  have "i \<in> set (take 32 ?ord) \<or> waiting ?items (sd_cursor st') i + 32 \<le> waiting ?items (sd_cursor st) i"
  proof (cases "i \<in> set (take 32 ?ord)")
    case False
    have "?ord \<noteq> []" using mem by auto
    then have "sd_cursor st' = unit_withdrawal_key (?items ! last (take 32 ?ord))" using after(2) by simp
    with waiting_step [OF keys due_order_sorted [OF keys] range mem False] dd fr show ?thesis by simp
  qed simp
  with after(1,3) u' waiting_less [OF i] show ?thesis by auto
qed

end
