(* ===== verification/Hosted_Controller.thy ===== *)
theory Hosted_Controller
  imports Hosted_Rotation
begin

text \<open>
  \<open>internal/go/providers/hosted/controllers/zoneunit\<close>: one pass of the hosted controller over a
  zone unit (\<open>controller.go\<close>), with the observation of the delegation (\<open>model.go\<close>) and the
  rejections (\<open>status.go\<close>). A pass is given what its reads return and what its writes answer, and
  yields the writes it makes, in order, with the time to the next pass or the error that ended it.
\<close>

section \<open>The binding of a unit (observe)\<close>

record reader =
  rd_class :: "string \<times> string \<Rightarrow> go_error + zone_class option"
  rd_provider :: "string \<Rightarrow> go_error + provider option"
  rd_decl :: decl_env

datatype observation = Not_Ours | Refused acceptance | Bound binding_env

definition refuse :: "condition_status \<Rightarrow> string \<Rightarrow> string \<Rightarrow> go_error + observation" where
  "refuse st reason message = Inr (Refused \<lparr>ac_status = st, ac_reason = reason, ac_message = message\<rparr>)"

definition class_parameters_of :: "('c, 'a) hosted_env_scheme \<Rightarrow> provider \<Rightarrow> provider_version \<Rightarrow> zone_class \<Rightarrow> string + class_parameters" where
  "class_parameters_of env prov version zc =
     (case convert_zone_class_parameters (co_contract env) (Some prov) (Some version) (zc_parameters zc) (ho_class_context env zc) of
        Inl e \<Rightarrow> Inl (pe_message e)
      | Inr r \<Rightarrow> (case ho_parameters env r of Inl e \<Rightarrow> Inl (''invalid hosted parameters: '' @ e) | Inr p \<Rightarrow> Inr p))"

definition class_accepted :: "('c, 'a) hosted_env_scheme \<Rightarrow> zone_class \<Rightarrow> bool" where
  "class_accepted env zc \<longleftrightarrow> \<not> deleting (zc_meta zc)
     \<and> (case co_find_condition env (zc_conditions zc) ''Accepted'' of None \<Rightarrow> False
        | Some c \<Rightarrow> c_status c = ConditionTrue \<and> c_observed c = om_generation (zc_meta zc))"

definition bind_environment :: "('c, 'a) hosted_env_scheme \<Rightarrow> zone_unit \<Rightarrow> zone_class \<Rightarrow> provider \<Rightarrow> class_parameters \<Rightarrow> binding_env" where
  "bind_environment env u zc prov params =
     (let (policy, err) = ho_effective env \<lparr>p_mode = cp_resolver_mode params, p_servers = cp_resolver_servers params, p_expected_ns = []\<rparr>
      in \<lparr>be_class = zc, be_provider = prov, be_params = params,
          be_fingerprint = ho_fingerprint env (om_uid (zc_meta zc)) (class_spec zc) (prov_uid prov) (prov_versions prov)
            (un_zone (unit_rspec u)) policy (err \<noteq> None),
          be_policy = policy, be_policy_error = err\<rparr>)"

definition observe_provider :: "('c, 'a) hosted_env_scheme \<Rightarrow> reader \<Rightarrow> zone_unit \<Rightarrow> zone_class \<Rightarrow> provider \<Rightarrow> go_error + observation" where
  "observe_provider env rd u zc prov =
     (case storage_version (Some prov) of
        None \<Rightarrow> refuse ConditionUnknown ''ProviderStorageVersionNotResolved'' ''provider storage version is not resolved''
      | Some storage \<Rightarrow>
        (case served_version prov (pr_version (zc_provider zc)) of
           None \<Rightarrow> refuse ConditionFalse ''InvalidProvider'' ''hosted provider requires its configured credentialless storage version''
         | Some version \<Rightarrow>
           if pvn_name storage \<noteq> ho_version env \<or> pvn_identity version \<noteq> None \<or> pvn_identity storage \<noteq> None
           then refuse ConditionFalse ''InvalidProvider'' ''hosted provider requires its configured credentialless storage version''
           else if zc_identity zc \<noteq> None
           then refuse ConditionFalse ''InvalidIdentityRef'' ''spec.identityRef must be omitted for hosted DNS''
           else
             (case class_parameters_of env prov version zc of
                Inl e \<Rightarrow> refuse ConditionFalse ''InvalidProviderPayload'' (bounded_message e)
              | Inr params \<Rightarrow>
                if \<not> class_accepted env zc
                then refuse ConditionFalse ''ZoneClassNotAccepted'' ''referenced ZoneClass is not accepted''
                else
                  (case zone_allowed_by_class (rd_decl rd) zc (obr_namespace (uz_ref (un_zone (unit_rspec u)))) of
                     Inl e \<Rightarrow> Inl e
                   | Inr False \<Rightarrow> refuse ConditionFalse ''NotAllowedByZoneClass'' ''Zone namespace is not allowed by ZoneClass''
                   | Inr True \<Rightarrow> Inr (Bound (bind_environment env u zc prov params))))))"

definition observe_binding :: "('c, 'a) hosted_env_scheme \<Rightarrow> reader \<Rightarrow> zone_unit \<Rightarrow> go_error + observation" where
  "observe_binding env rd u =
     (let ref = uz_class_ref (un_zone (unit_rspec u)) in
      case rd_class rd (obr_namespace ref, obr_name ref) of
        Inl e \<Rightarrow> Inl e
      | Inr None \<Rightarrow> refuse ConditionFalse ''InvalidZoneClassRef'' ''referenced ZoneClass was not found''
      | Inr (Some zc) \<Rightarrow>
        if zc_controller zc \<noteq> ho_controller env then Inr Not_Ours
        else if pr_version (un_provider (unit_rspec u)) \<noteq> ho_version env \<or> pr_name (zc_provider zc) \<noteq> ho_provider env
        then refuse ConditionFalse ''InvalidProvider'' ''ZoneUnit provider is not handled by hosted controller''
        else
          (case rd_provider rd (ho_provider env) of
             Inl e \<Rightarrow> Inl e
           | Inr None \<Rightarrow> refuse ConditionFalse ''InvalidProvider'' ''referenced Provider was not found''
           | Inr (Some prov) \<Rightarrow> observe_provider env rd u zc prov))"

section \<open>Rejections (status.go)\<close>

definition put_status :: "(unit_status \<Rightarrow> unit_status) \<Rightarrow> zone_unit \<Rightarrow> zone_unit" where
  "put_status f u = u\<lparr>unit_rstatus := f (unit_rstatus u)\<rparr>"

text \<open>The results of a unit whose snapshot was rejected.\<close>

definition rejected_set :: "('c, 'a) hosted_env_scheme \<Rightarrow> gotime \<Rightarrow> unit_record_set_status \<Rightarrow> unit_record_set_status" where
  "rejected_set env now s = s\<lparr>us_deletion_completed := False,
     us_conditions := put_condition env
       (put_condition env (us_conditions s) ''Accepted'' ConditionTrue ''Accepted'' ''Hosted DNS record intent is accepted.'' (us_observed s) now)
       ''Programmed'' ConditionFalse ''ServingPending'' ''Hosted snapshot was rejected.'' (us_observed s) now\<rparr>"

definition snapshot_rejected :: "('c, 'a) hosted_env_scheme \<Rightarrow> zone_unit \<Rightarrow> string \<Rightarrow> gotime \<Rightarrow> zone_unit" where
  "snapshot_rejected env u message now =
     (let z = unit_zone u; gen = uz_observed (un_zone (unit_rspec u));
          z' = z\<lparr>uzs_conditions := put_condition env
                  (put_condition env (uzs_conditions z) ''Accepted'' ConditionTrue ''Accepted'' ''Hosted DNS Zone binding is accepted.'' gen now)
                  ''Programmed'' ConditionFalse ''SnapshotRejected'' message gen now\<rparr>
      in reject_withdrawals env now (put_status (\<lambda>st. st\<lparr>ust_zone := Some z',
           ust_conditions := put_condition env (ust_conditions st) ''Programmed'' ConditionFalse ''ProviderInvalidRequest'' message
             (om_generation (unit_meta u)) now,
           ust_record_sets := map (rejected_set env now) (prepare_record_receipts u)\<rparr>) u))"

definition refused_set :: "('c, 'a) hosted_env_scheme \<Rightarrow> string \<Rightarrow> gotime \<Rightarrow> unit_record_set_status \<Rightarrow> unit_record_set_status" where
  "refused_set env message now s = s\<lparr>us_deletion_completed := False,
     us_conditions := put_condition env
       (put_condition env (us_conditions s) ''Accepted'' ConditionFalse ''ZoneNotAccepted'' message (us_observed s) now)
       ''Programmed'' ConditionUnknown ''Reconciling'' message (us_observed s) now\<rparr>"

definition reject_unit :: "('c, 'a) hosted_env_scheme \<Rightarrow> zone_unit \<Rightarrow> acceptance \<Rightarrow> gotime \<Rightarrow> zone_unit" where
  "reject_unit env u rejected now =
     (let z = unit_zone u; gen = uz_observed (un_zone (unit_rspec u)); message = ac_message rejected;
          z' = \<lparr>uzs_name_servers = [], uzs_provider = None, uzs_conditions = put_condition env
                  (put_condition env (uzs_conditions z) ''Accepted'' (ac_status rejected) (ac_reason rejected) message gen now)
                  ''Programmed'' ConditionUnknown ''Reconciling'' message gen now\<rparr>
      in reject_withdrawals env now (put_status (\<lambda>st. st\<lparr>ust_zone := Some z',
           ust_conditions := put_condition env (ust_conditions st) ''Programmed'' ConditionUnknown ''Reconciling'' message
             (om_generation (unit_meta u)) now,
           ust_record_sets := map (refused_set env message now) (prepare_record_receipts u)\<rparr>) u))"

section \<open>The delegation (model.go)\<close>

definition delegation_request :: "zone_unit \<Rightarrow> binding_env \<Rightarrow> string list \<Rightarrow> gotime \<Rightarrow> probe_request" where
  "delegation_request u be expected now =
     \<lparr>q_name = uz_domain (un_zone (unit_rspec u)), q_zone = uz_domain (un_zone (unit_rspec u)),
      q_expected = \<lparr>rr_a = [], rr_aaaa = [], rr_cname = []\<rparr>, q_policy = (be_policy be)\<lparr>p_expected_ns := expected\<rparr>, q_due = now,
      q_zone_only = True, q_evidence = None, q_withdrawal = []\<rparr>"

definition delegation_of :: "('c, 'a) hosted_env_scheme \<Rightarrow> zone_unit \<Rightarrow> binding_env \<Rightarrow> gotime \<Rightarrow> delegation_data" where
  "delegation_of env u be now =
     (let expected = names (map nsv_name (cp_name_servers (be_params be)));
          request = delegation_request u be expected now;
          outcome = (case be_policy_error be of Some e \<Rightarrow> Inl e | None \<Rightarrow> ho_probe env request);
          (found, err) = (case outcome of
             Inl _ \<Rightarrow> ([], ''DNSProbeFailed'')
           | Inr observed \<Rightarrow>
             (let decision = evaluate_zone request (r_zone observed) in
              (case r_zone observed of None \<Rightarrow> [] | Some z \<Rightarrow> concat (map ao_nameservers (ze_views z)),
               if d_status decision \<noteq> ConditionTrue then bounded_error (d_reason decision @ '': '' @ d_message decision) else [])));
          ns = names found
      in \<lparr>dg_observed = take 64 ns, dg_matches = (err = [] \<and> ns = expected), dg_probe = ho_clock env 1, dg_error = err\<rparr>)"

definition observe_delegation :: "('c, 'a) hosted_env_scheme \<Rightarrow> zone_unit \<Rightarrow> binding_env \<Rightarrow> scheduler \<Rightarrow> gotime
    \<Rightarrow> zone_unit \<times> scheduler \<times> duration" where
  "observe_delegation env u be st now =
     (if sd_delegation_policy st = be_fingerprint be \<and> now < sd_delegation_next st
      then (u, st, time_sub (sd_delegation_next st) now)
      else
        let data = delegation_of env u be now; z = unit_zone u;
            public = (stored_zone_data env z)\<lparr>zd_delegation := Some data\<rparr>;
            u' = put_status (\<lambda>s. s\<lparr>ust_zone := Some (z\<lparr>uzs_provider := Some (provider_data (ho_zone_json env public))\<rparr>)\<rparr>) u;
            next = dg_probe data + 300 * second
        in (u', st\<lparr>sd_delegation_policy := be_fingerprint be, sd_delegation_next := next, sd_probed := True\<rparr>, time_sub next now))"

section \<open>One pass (Reconcile)\<close>

datatype hosted_action = Delete_Snapshot | Apply_Snapshot hosted_spec | Patch_Unit_Status unit_status

record hosted_world =
  hw_unit :: "go_error + zone_unit option"
  hw_snapshot :: "go_error + hosted_zone option"
  hw_cache :: reader
  hw_live :: reader
  hw_live_unit :: "go_error + zone_unit"
  hw_delete :: "go_error option"
  hw_apply :: "string option"
  hw_patch :: "go_error option"

type_synonym hosted_outcome = "hosted_action list \<times> (go_error + duration)"

text \<open>\<open>metav1.GetControllerOf\<close>: the first owner that is marked as the controller.\<close>

definition owned_by_unit :: "hosted_zone \<Rightarrow> zone_unit \<Rightarrow> bool" where
  "owned_by_unit snapshot u =
     (case find (\<lambda>w. or_controller w = Some True) (om_owners (hz_meta snapshot)) of
        None \<Rightarrow> False
      | Some w \<Rightarrow> or_api_version w = ''dns.appthrust.io/v1alpha1'' \<and> or_kind w = ''ZoneUnit''
          \<and> or_name w = om_name (unit_meta u) \<and> or_uid w = om_uid (unit_meta u))"

definition delete_snapshot :: "hosted_world \<Rightarrow> hosted_outcome" where
  "delete_snapshot w = (case hw_snapshot w of
       Inl e \<Rightarrow> ([], Inl e)
     | Inr None \<Rightarrow> ([], Inr 0)
     | Inr (Some _) \<Rightarrow> ([Delete_Snapshot], case hw_delete w of None \<Rightarrow> Inr 0 | Some e \<Rightarrow> Inl e))"

definition patch_unit :: "hosted_world \<Rightarrow> zone_unit \<Rightarrow> zone_unit \<Rightarrow> hosted_action list \<Rightarrow> duration \<Rightarrow> hosted_outcome" where
  "patch_unit w base u acts requeue =
     (let status = (unit_rstatus u)\<lparr>ust_observed := om_generation (unit_meta u)\<rparr> in
      if status = unit_rstatus base then (acts, Inr requeue)
      else (acts @ [Patch_Unit_Status status], case hw_patch w of None \<Rightarrow> Inr requeue | Some e \<Rightarrow> Inl e))"

text \<open>The unit as it is rendered: the receipt is the digest of the content actually in the snapshot.\<close>

definition render_unit :: "('c, 'a) hosted_env_scheme \<Rightarrow> zone_unit \<Rightarrow> hosted_zone option \<Rightarrow> zone_unit" where
  "render_unit env u snapshot = (case snapshot of
       None \<Rightarrow> u
     | Some s \<Rightarrow> put_status (\<lambda>st. st\<lparr>ust_zone := Some \<lparr>uzs_name_servers = [],
         uzs_provider = Some (provider_data (ho_digest_json env (content_digest (ho_render env) (hz_spec s)))), uzs_conditions = []\<rparr>\<rparr>) u)"

definition previous_serial :: "('c, 'a) hosted_env_scheme \<Rightarrow> zone_unit \<Rightarrow> hosted_zone option \<Rightarrow> uint32" where
  "previous_serial env u snapshot = (case snapshot of
       Some s \<Rightarrow> hs_serial (hz_spec s)
     | None \<Rightarrow> (case uzs_provider (unit_zone u) of None \<Rightarrow> 0
         | Some p \<Rightarrow> (case ho_read_zone env (ps_data p) of (ok, data) \<Rightarrow> if ok then zd_serial data else 0)))"

definition needs_apply :: "('c, 'a) hosted_env_scheme \<Rightarrow> hosted_zone option \<Rightarrow> hosted_spec \<Rightarrow> bool" where
  "needs_apply env snapshot desired = (case snapshot of None \<Rightarrow> True
     | Some s \<Rightarrow> hs_digest (hz_spec s) \<noteq> hs_digest desired \<or> content_digest (ho_render env) (hz_spec s) \<noteq> hs_digest desired)"

text \<open>After DNS input or output the binding is observed again, on the live objects.\<close>

definition still_bound :: "('c, 'a) hosted_env_scheme \<Rightarrow> hosted_world \<Rightarrow> zone_unit \<Rightarrow> binding_env \<Rightarrow> go_error + bool" where
  "still_bound env w u be =
     (case hw_live_unit w of
        Inl e \<Rightarrow> Inl e
      | Inr fresh \<Rightarrow>
        (case observe_binding env (hw_live w) fresh of
           Inl e \<Rightarrow> Inl e
         | Inr (Bound current) \<Rightarrow> Inr (om_uid (unit_meta fresh) = om_uid (unit_meta u)
             \<and> om_generation (unit_meta fresh) = om_generation (unit_meta u) \<and> unit_rspec fresh = unit_rspec u
             \<and> om_deletion (unit_meta fresh) = om_deletion (unit_meta u) \<and> be_fingerprint current = be_fingerprint be)
         | Inr _ \<Rightarrow> Inr False))"

text \<open>The end of a pass, once the snapshot is settled.\<close>

definition publish_results :: "('c, 'a) hosted_env_scheme \<Rightarrow> hosted_world \<Rightarrow> zone_unit \<Rightarrow> zone_unit \<Rightarrow> binding_env \<Rightarrow> scheduler
    \<Rightarrow> hosted_spec \<Rightarrow> server_status list \<Rightarrow> gotime \<Rightarrow> hosted_action list \<Rightarrow> hosted_outcome" where
  "publish_results env w base u be st spec servers now acts =
     (let served = (\<not> deleting (unit_meta u) \<and> snapshot_served spec servers);
          u1 = set_results env u spec servers served now;
          (u2, st2, next_delegation) = observe_delegation env u1 be st now;
          (u3, st3, next_claim) = reconcile_unit_withdrawals env u2 be spec servers st2 now;
          next = min_duration (min_duration (next_server_expiry servers now) next_delegation) next_claim;
          saved = put_status (\<lambda>s. s\<lparr>ust_provider := save_state env (ust_provider s) st3\<rparr>) u3 in
      if sd_probed st3 then
        (case still_bound env w u be of
           Inl e \<Rightarrow> (acts, Inl e)
         | Inr False \<Rightarrow> (acts, Inr second)
         | Inr True \<Rightarrow> patch_unit w base saved acts next)
      else patch_unit w base saved acts next)"

text \<open>A bound unit with its own snapshot (none when it is being deleted).\<close>

definition reconcile_bound :: "('c, 'a) hosted_env_scheme \<Rightarrow> hosted_world \<Rightarrow> zone_unit \<Rightarrow> zone_unit \<Rightarrow> binding_env
    \<Rightarrow> hosted_zone option \<Rightarrow> gotime \<Rightarrow> hosted_action list \<Rightarrow> hosted_outcome" where
  "reconcile_bound env w base u be snapshot now acts =
     (let st0 = load_state env (ust_provider (unit_rstatus u));
          servers = (case snapshot of None \<Rightarrow> [] | Some s \<Rightarrow> fresh_servers (hz_servers s) now);
          st = (case snapshot of None \<Rightarrow> st0
            | Some s \<Rightarrow> st0\<lparr>sd_publications := retain_publication (sd_publications st0) (hz_spec s) servers now\<rparr>) in
      case render_snapshot (ho_render env) (Some (render_unit env u snapshot)) (be_params be) (previous_serial env u snapshot) now of
        Inl e \<Rightarrow> patch_unit w base (snapshot_rejected env u e now) acts (30 * second)
      | Inr desired \<Rightarrow>
        if deleting (unit_meta u) then publish_results env w base u be st (desired\<lparr>hs_records := []\<rparr>) [] now acts
        else if needs_apply env snapshot desired then
          (case hw_apply w of
             Some e \<Rightarrow> patch_unit w base (snapshot_rejected env u e now) (acts @ [Apply_Snapshot desired]) (30 * second)
           | None \<Rightarrow> publish_results env w base u be st desired servers now (acts @ [Apply_Snapshot desired]))
        else publish_results env w base u be st (case snapshot of None \<Rightarrow> desired | Some s \<Rightarrow> hz_spec s) servers now acts)"

definition reconcile_observed :: "('c, 'a) hosted_env_scheme \<Rightarrow> hosted_world \<Rightarrow> zone_unit \<Rightarrow> zone_unit
    \<Rightarrow> hosted_zone option \<Rightarrow> gotime \<Rightarrow> hosted_action list \<Rightarrow> hosted_outcome" where
  "reconcile_observed env w base u snapshot now acts =
     (case observe_binding env (hw_cache w) u of
        Inl e \<Rightarrow> (acts, Inl e)
      | Inr Not_Ours \<Rightarrow> (acts, Inr 0)
      | Inr (Refused r) \<Rightarrow> patch_unit w base (reject_unit env u r now) acts (30 * second)
      | Inr (Bound be) \<Rightarrow> reconcile_bound env w base u be snapshot now acts)"

definition reconcile_unit :: "('c, 'a) hosted_env_scheme \<Rightarrow> hosted_world \<Rightarrow> hosted_outcome" where
  "reconcile_unit env w =
     (case hw_unit w of
        Inl e \<Rightarrow> ([], Inl e)
      | Inr None \<Rightarrow> delete_snapshot w
      | Inr (Some base) \<Rightarrow>
        if pr_name (un_provider (unit_rspec base)) \<noteq> ho_provider env then delete_snapshot w
        else
          (case hw_snapshot w of
             Inl e \<Rightarrow> ([], Inl e)
           | Inr found \<Rightarrow>
             let now = ho_clock env 0; u = put_status (\<lambda>st. st\<lparr>ust_zone := Some (unit_zone base)\<rparr>) base in
             (case found of
                None \<Rightarrow> reconcile_observed env w base u None now []
              | Some s \<Rightarrow>
                if \<not> owned_by_unit s u then
                  (case hw_delete w of
                     Some e \<Rightarrow> ([Delete_Snapshot], Inl e)
                   | None \<Rightarrow> patch_unit w base (snapshot_rejected env u
                       ''HostedZone owner reference does not match ZoneUnit; the shadowing snapshot was deleted.'' now) [Delete_Snapshot] second)
                else if deleting (unit_meta u) then
                  (case hw_delete w of
                     Some e \<Rightarrow> ([Delete_Snapshot], Inl e)
                   | None \<Rightarrow> reconcile_observed env w base u None now [Delete_Snapshot])
                else reconcile_observed env w base u (Some s) now [])))"

section \<open>Facts about a pass\<close>

fun is_status_patch :: "hosted_action \<Rightarrow> bool" where
  "is_status_patch (Patch_Unit_Status _) = True"
| "is_status_patch _ = False"

lemma patch_unit_status:
  assumes "Patch_Unit_Status st \<in> set (fst (patch_unit w base u acts d))" and "\<not> list_ex is_status_patch acts"
  shows "st = (unit_rstatus u)\<lparr>ust_observed := om_generation (unit_meta u)\<rparr>"
  using assms by (auto simp: patch_unit_def Let_def list_ex_iff split: if_splits)

lemma put_status_simps [simp]:
  "unit_rspec (put_status f u) = unit_rspec u" "unit_meta (put_status f u) = unit_meta u"
  "unit_rstatus (put_status f u) = f (unit_rstatus u)"
  by (simp_all add: put_status_def)

lemma reject_withdrawals_sets [simp]:
  "ust_record_sets (unit_rstatus (reject_withdrawals env now u)) = ust_record_sets (unit_rstatus u)"
  by (simp add: reject_withdrawals_def Let_def)

lemma observe_delegation_sets:
  "observe_delegation env u be st now = (u', st', d) \<Longrightarrow> ust_record_sets (unit_rstatus u') = ust_record_sets (unit_rstatus u)
     \<and> unit_rspec u' = unit_rspec u \<and> unit_meta u' = unit_meta u \<and> ust_withdrawals (unit_rstatus u') = ust_withdrawals (unit_rstatus u)"
  by (auto simp: observe_delegation_def Let_def split: if_splits)

lemma reconcile_withdrawals_sets:
  "reconcile_unit_withdrawals env u be spec servers st now = (u', st', d) \<Longrightarrow> ust_record_sets (unit_rstatus u') = ust_record_sets (unit_rstatus u)"
  by (auto simp: reconcile_unit_withdrawals_def Let_def split: if_splits prod.splits)

text \<open>The success a record set can report: it is programmed, or its deletion is completed.\<close>

definition set_succeeds :: "('c, 'a) hosted_env_scheme \<Rightarrow> unit_record_set_status \<Rightarrow> bool" where
  "set_succeeds env s \<longleftrightarrow> status_at env (us_conditions s) ''Programmed'' = Some ConditionTrue \<or> us_deletion_completed s"

lemma set_item_result_success:
  assumes "condition_laws env" and "set_succeeds env (set_item_result env spec servers now item result)"
  shows "item_served spec servers (item_receipt env spec item result)"
    and "us_deletion_completed (set_item_result env spec servers now item result) \<longrightarrow> ur_deletion item \<and> ur_uid item \<noteq> []"
    and "is_allowed item \<or> ur_deletion item"
  using assms by (auto simp: set_succeeds_def set_item_result_def Let_def status_at_put split: if_splits)

lemma item_receipt_fingerprint: "rc_fingerprint (item_receipt env spec item result) = ho_item_digest env item"
  by (simp add: item_receipt_def Let_def)

lemma set_item_result_identity:
  "us_namespace (set_item_result env spec servers now item result) = us_namespace result"
  "us_name (set_item_result env spec servers now item result) = us_name result"
  "us_uid (set_item_result env spec servers now item result) = us_uid result"
  "us_observed (set_item_result env spec servers now item result) = us_observed result"
  by (simp_all add: set_item_result_def Let_def)

lemma prepared_identity:
  "us_namespace (prepared_receipt old item) = ur_namespace item" "us_name (prepared_receipt old item) = ur_name item"
  "us_uid (prepared_receipt old item) = ur_uid item" "us_observed (prepared_receipt old item) = ur_observed item"
  by (simp_all add: prepared_receipt_def Let_def)

definition of_item :: "unit_record_set_status \<Rightarrow> unit_record_set \<Rightarrow> bool" where
  "of_item s item \<longleftrightarrow> us_namespace s = ur_namespace item \<and> us_name s = ur_name item \<and> us_uid s = ur_uid item
     \<and> us_observed s = ur_observed item"

lemma rejected_fails:
  "condition_laws env \<Longrightarrow> \<not> set_succeeds env (rejected_set env now s)"
  "condition_laws env \<Longrightarrow> \<not> set_succeeds env (refused_set env m now s)"
  by (simp_all add: set_succeeds_def rejected_set_def refused_set_def status_at_put)

lemma set_results_member:
  assumes "s \<in> set (ust_record_sets (unit_rstatus (set_results env u spec servers served now)))"
  obtains item where "item \<in> set (un_record_sets (unit_rspec u))"
    "s = set_item_result env spec (sort_key ss_endpoint servers) now item (prepared_receipt (ust_record_sets (unit_rstatus u)) item)"
proof -
  from assms obtain i where i: "i < length (un_record_sets (unit_rspec u))"
    and s: "s = set_item_result env spec (sort_key ss_endpoint servers) now (un_record_sets (unit_rspec u) ! i)
      (prepared_receipt (ust_record_sets (unit_rstatus u)) (un_record_sets (unit_rspec u) ! i))"
    by (auto simp: set_results_def Let_def prepare_record_receipts_def in_set_conv_nth)
  from that [OF nth_mem [OF i] s] show thesis .
qed

text \<open>The evidence for the success of a record set, in the snapshot \<open>spec\<close> with its acknowledgements.\<close>

definition set_evidence :: "('c, 'a) hosted_env_scheme \<Rightarrow> zone_unit \<Rightarrow> hosted_spec \<Rightarrow> server_status list \<Rightarrow> unit_record_set_status \<Rightarrow> bool" where
  "set_evidence env u spec servers s \<longleftrightarrow> (\<exists>item \<in> set (un_record_sets (unit_rspec u)). \<exists>receipt.
     of_item s item \<and> rc_fingerprint receipt = ho_item_digest env item \<and> item_served spec servers receipt
     \<and> (is_allowed item \<or> ur_deletion item)
     \<and> (us_deletion_completed s \<longrightarrow> ur_deletion item \<and> ur_uid item \<noteq> []))"

lemma revision_served_order: "revision_served first d spec (sort_key f servers) = revision_served first d spec servers"
proof -
  have "sort_key f servers = [] \<longleftrightarrow> servers = []" by (metis set_empty set_sort)
  then show ?thesis by (simp add: revision_served_def list_all_iff)
qed

lemma publish_results_success:
  assumes laws: "condition_laws env" and acts: "\<not> list_ex is_status_patch acts"
    and patch: "Patch_Unit_Status st \<in> set (fst (publish_results env w base u be sched spec servers now acts))"
    and s: "s \<in> set (ust_record_sets st)" and ok: "set_succeeds env s"
  shows "set_evidence env u spec servers s"
proof -
  let ?served = "\<not> deleting (unit_meta u) \<and> snapshot_served spec servers"
  let ?u1 = "set_results env u spec servers ?served now"
  obtain u2 st2 d2 where del: "observe_delegation env ?u1 be sched now = (u2, st2, d2)" by (metis prod_cases3)
  obtain u3 st3 d3 where wd: "reconcile_unit_withdrawals env u2 be spec servers st2 now = (u3, st3, d3)" by (metis prod_cases3)
  have "ust_record_sets st = ust_record_sets (unit_rstatus u3)"
  proof -
    from patch acts obtain d where "Patch_Unit_Status st \<in> set (fst (patch_unit w base
        (put_status (\<lambda>s. s\<lparr>ust_provider := save_state env (ust_provider s) st3\<rparr>) u3) acts d))"
      by (auto simp: publish_results_def Let_def del wd list_ex_iff split: if_splits sum.splits bool.splits)
    from patch_unit_status [OF this acts] show ?thesis by simp
  qed
  then have "s \<in> set (ust_record_sets (unit_rstatus ?u1))"
    using s observe_delegation_sets [OF del] reconcile_withdrawals_sets [OF wd] by simp
  then obtain item where item: "item \<in> set (un_record_sets (unit_rspec u))"
    and eq: "s = set_item_result env spec (sort_key ss_endpoint servers) now item (prepared_receipt (ust_record_sets (unit_rstatus u)) item)"
    by (rule set_results_member)
  note f = set_item_result_success [OF laws, of spec "sort_key ss_endpoint servers" now item
      "prepared_receipt (ust_record_sets (unit_rstatus u)) item", folded eq, OF ok]
  have "of_item s item" unfolding eq of_item_def by (simp add: set_item_result_identity prepared_identity)
  moreover have "item_served spec servers (item_receipt env spec item (prepared_receipt (ust_record_sets (unit_rstatus u)) item))"
    using f(1) by (simp add: item_served_def revision_served_order)
  ultimately show ?thesis
    unfolding set_evidence_def using item item_receipt_fingerprint f(2,3) by blast
qed

lemma set_evidence_servers: "set_evidence env u spec servers s \<Longrightarrow> servers \<noteq> []"
  by (auto simp: set_evidence_def item_served_def revision_served_def)

lemma snapshot_rejected_fails:
  "condition_laws env \<Longrightarrow> s \<in> set (ust_record_sets (unit_rstatus (snapshot_rejected env u m now))) \<Longrightarrow> \<not> set_succeeds env s"
  by (auto simp: snapshot_rejected_def Let_def rejected_fails)

lemma reject_unit_fails:
  "condition_laws env \<Longrightarrow> s \<in> set (ust_record_sets (unit_rstatus (reject_unit env u r now))) \<Longrightarrow> \<not> set_succeeds env s"
  by (auto simp: reject_unit_def Let_def rejected_fails)

text \<open>What a bound pass reports, and on which snapshot.\<close>

definition served_evidence :: "('c, 'a) hosted_env_scheme \<Rightarrow> zone_unit \<Rightarrow> hosted_zone \<Rightarrow> hosted_action list \<Rightarrow> gotime
    \<Rightarrow> unit_record_set_status \<Rightarrow> bool" where
  "served_evidence env u x acts now s \<longleftrightarrow> \<not> deleting (unit_meta u)
     \<and> (\<exists>spec. (spec = hz_spec x \<or> Apply_Snapshot spec \<in> set acts) \<and> set_evidence env u spec (fresh_servers (hz_servers x) now) s)"

lemma publish_results_acts: "set acts \<subseteq> set (fst (publish_results env w base u be sched spec servers now acts))"
  by (auto simp: publish_results_def patch_unit_def Let_def split: prod.splits sum.splits bool.splits)

section \<open>Withdrawals across a pass\<close>

lemma evidence_kept_cong:
  "ust_withdrawals (unit_rstatus u') = ust_withdrawals (unit_rstatus u) \<Longrightarrow> sd_withdrawals st' = sd_withdrawals st
    \<Longrightarrow> evidence_kept env u' st' = evidence_kept env u st"
  by (simp add: evidence_kept_def schedule_of_def)

text \<open>The private state survives its encoding.\<close>

definition state_roundtrip :: "('c, 'a) hosted_env_scheme \<Rightarrow> bool" where
  "state_roundtrip env \<longleftrightarrow> (\<forall>st. \<not> sd_probed st \<longrightarrow> ho_read_state env (ho_state_json env st) = st)"

lemma load_save: "state_roundtrip env \<Longrightarrow> load_state env (save_state env p st) = st\<lparr>sd_probed := False\<rparr>"
  by (auto simp: save_state_def load_state_def state_roundtrip_def Let_def split: option.splits)

text \<open>The evidence in the status of a unit, as the next pass will load it.\<close>

definition status_evidence :: "('c, 'a) hosted_env_scheme \<Rightarrow> unit_status \<Rightarrow> bool" where
  "status_evidence env st \<longleftrightarrow> (\<forall>s \<in> set (ust_withdrawals st). withdrawn env s \<longrightarrow>
     (\<exists>p d w. sc_policy (schedule_of (load_state env (ust_provider st)) (withdrawal_result_key s)) = ho_policy_digest env p d True w))"

lemma status_evidence_kept: "status_evidence env (unit_rstatus u) \<longleftrightarrow> evidence_kept env u (load_state env (ust_provider (unit_rstatus u)))"
  by (simp add: status_evidence_def evidence_kept_def)

lemma reject_claim_fails: "hosted_laws env \<Longrightarrow> \<not> withdrawn env (reject_claim env u now item)"
  by (simp add: reject_claim_def Let_def withdrawn_decision unknown_decision_def)

lemma reject_withdrawals_fail:
  "hosted_laws env \<Longrightarrow> s \<in> set (ust_withdrawals (unit_rstatus (reject_withdrawals env now u))) \<Longrightarrow> \<not> withdrawn env s"
  by (auto simp: reject_withdrawals_def Let_def reject_claim_fails split: if_splits)

lemma set_results_frame:
  "unit_rspec (set_results env u spec servers served now) = unit_rspec u"
  "unit_meta (set_results env u spec servers served now) = unit_meta u"
  "ust_withdrawals (unit_rstatus (set_results env u spec servers served now)) = ust_withdrawals (unit_rstatus u)"
  "ust_provider (unit_rstatus (set_results env u spec servers served now)) = ust_provider (unit_rstatus u)"
  by (simp_all add: set_results_def Let_def)

lemma observe_delegation_frame:
  "observe_delegation env u be st now = (u', st', d) \<Longrightarrow> sd_withdrawals st' = sd_withdrawals st"
  by (auto simp: observe_delegation_def Let_def split: if_splits)

lemma withdrawal_backed_cong:
  "unit_rspec u' = unit_rspec u \<Longrightarrow> withdrawal_backed env u' be spec servers st item = withdrawal_backed env u be spec servers st item"
  by (simp add: withdrawal_backed_def claim_bound_def valid_unit_withdrawal_def)

text \<open>What a pass reports of a withdrawn claim: the binding it observed, the snapshot and the servers' acknowledgements.\<close>

definition withdrawn_evidence :: "('c, 'a) hosted_env_scheme \<Rightarrow> zone_unit \<Rightarrow> binding_env \<Rightarrow> hosted_spec \<Rightarrow> server_status list
    \<Rightarrow> unit_withdrawal_status \<Rightarrow> bool" where
  "withdrawn_evidence env u be spec servers s \<longleftrightarrow> (\<exists>item \<in> set (un_withdrawals (unit_rspec u)). \<exists>st.
     withdrawal_result_key s = unit_withdrawal_key item \<and> withdrawal_backed env u be spec servers st item)"

lemma publish_results_withdrawn:
  assumes laws: "hosted_laws env" and ev: "\<forall>n. withdrawal_evaluator (ho_evaluate env n)" and dig: "digest_laws env" and trip: "state_roundtrip env"
    and keys: "distinct (map unit_withdrawal_key (un_withdrawals (unit_rspec u)))" and kept: "evidence_kept env u sched"
    and acts: "\<not> list_ex is_status_patch acts"
    and patch: "Patch_Unit_Status st \<in> set (fst (publish_results env w base u be sched spec servers now acts))"
  shows "status_evidence env st \<and> (\<forall>s \<in> set (ust_withdrawals st). withdrawn env s \<longrightarrow> withdrawn_evidence env u be spec servers s)"
proof -
  let ?served = "\<not> deleting (unit_meta u) \<and> snapshot_served spec servers"
  let ?u1 = "set_results env u spec servers ?served now"
  obtain u2 st2 d2 where del: "observe_delegation env ?u1 be sched now = (u2, st2, d2)" by (metis prod_cases3)
  obtain u3 st3 d3 where wd: "reconcile_unit_withdrawals env u2 be spec servers st2 now = (u3, st3, d3)" by (metis prod_cases3)
  let ?saved = "put_status (\<lambda>s. s\<lparr>ust_provider := save_state env (ust_provider s) st3\<rparr>) u3"
  from patch acts obtain d where "Patch_Unit_Status st \<in> set (fst (patch_unit w base ?saved acts d))"
    by (auto simp: publish_results_def Let_def del wd list_ex_iff split: if_splits sum.splits bool.splits)
  from patch_unit_status [OF this acts] have st: "ust_withdrawals st = ust_withdrawals (unit_rstatus u3)"
    "ust_provider st = save_state env (ust_provider (unit_rstatus u3)) st3" by simp_all
  note fr = observe_delegation_sets [OF del]
  have spec: "unit_rspec u2 = unit_rspec u" using fr by (simp add: set_results_frame)
  have "evidence_kept env u2 st2"
    using kept evidence_kept_cong [of u2 u st2 sched env] fr observe_delegation_frame [OF del] by (simp add: set_results_frame)
  from withdrawn_while_served [OF laws ev dig _ this wd] keys spec
  have w: "evidence_kept env u3 st3" "\<forall>s \<in> set (ust_withdrawals st). withdrawn env s \<longrightarrow>
      (\<exists>item \<in> set (un_withdrawals (unit_rspec u)). withdrawal_result_key s = unit_withdrawal_key item
        \<and> withdrawal_backed env u be spec servers st3 item)"
    by (simp_all add: st withdrawal_backed_cong [OF spec])
  have "status_evidence env st"
    using w(1) by (simp add: status_evidence_def evidence_kept_def st load_save [OF trip] schedule_of_def)
  with w(2) show ?thesis unfolding withdrawn_evidence_def by blast
qed

lemma rejection_fails:
  assumes "hosted_laws env"
  shows "s \<in> set (ust_withdrawals (unit_rstatus (snapshot_rejected env u m now))) \<Longrightarrow> \<not> withdrawn env s"
    and "s \<in> set (ust_withdrawals (unit_rstatus (reject_unit env u r now))) \<Longrightarrow> \<not> withdrawn env s"
  using reject_withdrawals_fail [OF assms] by (auto simp: snapshot_rejected_def reject_unit_def Let_def)

section \<open>What a pass can write\<close>

text \<open>
  A status written by a pass is that of a rejection, or it was published for a bound unit. In the
  second case there are acknowledgements only for a live unit with its own snapshot.
\<close>

definition zoned :: "zone_unit \<Rightarrow> zone_unit" where
  "zoned base = put_status (\<lambda>st. st\<lparr>ust_zone := Some (unit_zone base)\<rparr>) base"

definition observed_status :: "zone_unit \<Rightarrow> unit_status" where
  "observed_status u = (unit_rstatus u)\<lparr>ust_observed := om_generation (unit_meta u)\<rparr>"

definition source :: "hosted_world \<Rightarrow> hosted_action list \<Rightarrow> gotime \<Rightarrow> zone_unit \<Rightarrow> hosted_zone option \<Rightarrow> hosted_spec \<Rightarrow> server_status list \<Rightarrow> bool" where
  "source w acts now u snapshot spec servers \<longleftrightarrow> servers = []
     \<or> (\<exists>x. snapshot = Some x \<and> \<not> deleting (unit_meta u) \<and> servers = fresh_servers (hz_servers x) now
          \<and> (spec = hz_spec x \<or> Apply_Snapshot spec \<in> set acts))"

definition published :: "('c, 'a) hosted_env_scheme \<Rightarrow> hosted_world \<Rightarrow> hosted_action list \<Rightarrow> zone_unit \<Rightarrow> binding_env
    \<Rightarrow> hosted_zone option \<Rightarrow> hosted_spec \<Rightarrow> server_status list \<Rightarrow> unit_status \<Rightarrow> bool" where
  "published env w acts base be snapshot spec servers st \<longleftrightarrow>
     observe_binding env (hw_cache w) (zoned base) = Inr (Bound be)
   \<and> source w acts (ho_clock env 0) base snapshot spec servers
   \<and> (\<exists>sched pre. \<not> list_ex is_status_patch pre
        \<and> sd_withdrawals sched = sd_withdrawals (load_state env (ust_provider (unit_rstatus base)))
        \<and> Patch_Unit_Status st \<in> set (fst (publish_results env w base (zoned base) be sched spec servers (ho_clock env 0) pre)))"

lemma zoned_simps [simp]:
  "unit_rspec (zoned base) = unit_rspec base" "unit_meta (zoned base) = unit_meta base"
  "ust_provider (unit_rstatus (zoned base)) = ust_provider (unit_rstatus base)"
  "ust_withdrawals (unit_rstatus (zoned base)) = ust_withdrawals (unit_rstatus base)"
  "owned_by_unit x (zoned base) = owned_by_unit x base"
  by (simp_all add: zoned_def owned_by_unit_def split: option.splits)

lemma bound_cases:
  assumes obs: "observe_binding env (hw_cache w) (zoned base) = Inr (Bound be)" and acts: "\<not> list_ex is_status_patch pre"
    and run: "reconcile_bound env w base (zoned base) be snapshot (ho_clock env 0) pre = (acts, out)"
    and patch: "Patch_Unit_Status st \<in> set acts"
  shows "(\<exists>m. st = observed_status (snapshot_rejected env (zoned base) m (ho_clock env 0)))
    \<or> (\<exists>spec servers. published env w acts base be snapshot spec servers st)"
proof -
  let ?now = "ho_clock env 0" and ?u = "zoned base"
  let ?servers = "case snapshot of None \<Rightarrow> [] | Some x \<Rightarrow> fresh_servers (hz_servers x) ?now"
  let ?st0 = "load_state env (ust_provider (unit_rstatus base))"
  let ?st = "case snapshot of None \<Rightarrow> ?st0
            | Some x \<Rightarrow> ?st0\<lparr>sd_publications := retain_publication (sd_publications ?st0) (hz_spec x) ?servers ?now\<rparr>"
  have same: "sd_withdrawals ?st = sd_withdrawals ?st0" by (simp split: option.splits)
  have rejected: "\<exists>m. st = observed_status (snapshot_rejected env ?u m ?now)"
    if "(acts, out) = patch_unit w base (snapshot_rejected env ?u m ?now) pre' (30 * second)" "\<not> list_ex is_status_patch pre'" for m pre'
    using patch_unit_status [of st w base "snapshot_rejected env ?u m ?now" pre' "30 * second"] that patch
    unfolding observed_status_def by (metis fst_conv)
  have publishes: "published env w acts base be snapshot spec servers st"
    if "(acts, out) = publish_results env w base ?u be ?st spec servers ?now pre'" "\<not> list_ex is_status_patch pre'"
      "source w acts ?now base snapshot spec servers" for spec servers pre'
  proof -
    have "Patch_Unit_Status st \<in> set (fst (publish_results env w base ?u be ?st spec servers ?now pre'))"
      using patch by (simp only: that(1) [symmetric] fst_conv)
    then show ?thesis
      unfolding published_def by (intro conjI exI [of _ ?st] exI [of _ pre'] obs that(2,3))
        (simp_all split: option.splits)
  qed
  show ?thesis
  proof (cases "render_snapshot (ho_render env) (Some (render_unit env ?u snapshot)) (be_params be) (previous_serial env ?u snapshot) ?now")
    case (Inl e)
    with run have "(acts, out) = patch_unit w base (snapshot_rejected env ?u e ?now) pre (30 * second)"
      by (simp add: reconcile_bound_def Let_def)
    from rejected [OF this acts] show ?thesis by blast
  next
    case (Inr desired)
    consider "deleting (unit_meta base)" | "\<not> deleting (unit_meta base)" "needs_apply env snapshot desired"
      | "\<not> deleting (unit_meta base)" "\<not> needs_apply env snapshot desired" by blast
    then show ?thesis
    proof cases
      case 1
      with run Inr have "(acts, out) = publish_results env w base ?u be ?st (desired\<lparr>hs_records := []\<rparr>) [] ?now pre"
        by (simp add: reconcile_bound_def Let_def)
      from publishes [OF this acts] show ?thesis by (auto simp: source_def)
    next
      case 2
      let ?pre = "pre @ [Apply_Snapshot desired]"
      have pre: "\<not> list_ex is_status_patch ?pre" using acts by simp
      show ?thesis
      proof (cases "hw_apply w")
        case (Some e)
        with 2 run Inr have "(acts, out) = patch_unit w base (snapshot_rejected env ?u e ?now) ?pre (30 * second)"
          by (simp add: reconcile_bound_def Let_def)
        from rejected [OF this pre] show ?thesis by blast
      next
        case None
        with 2 run Inr have p: "(acts, out) = publish_results env w base ?u be ?st desired ?servers ?now ?pre"
          by (simp add: reconcile_bound_def Let_def)
        have "Apply_Snapshot desired \<in> set acts"
          using publish_results_acts [of ?pre env w base ?u be ?st desired ?servers ?now] p by (metis fst_conv in_set_conv_decomp subsetD)
        then have "source w acts ?now base snapshot desired ?servers" using 2 by (simp add: source_def split: option.splits)
        from publishes [OF p pre this] show ?thesis by blast
      qed
    next
      case 3
      then obtain x where x: "snapshot = Some x" by (cases snapshot) (simp_all add: needs_apply_def)
      with 3 run Inr have p: "(acts, out) = publish_results env w base ?u be ?st (hz_spec x) ?servers ?now pre"
        by (simp add: reconcile_bound_def Let_def)
      have "source w acts ?now base snapshot (hz_spec x) ?servers" using 3 x by (simp add: source_def)
      from publishes [OF p acts this] show ?thesis by blast
    qed
  qed
qed

lemma pass_cases:
  assumes run: "reconcile_unit env w = (acts, out)" and patch: "Patch_Unit_Status st \<in> set acts"
  shows "\<exists>base. hw_unit w = Inr (Some base) \<and>
     ((\<exists>m. st = observed_status (snapshot_rejected env (zoned base) m (ho_clock env 0)))
      \<or> (\<exists>r. st = observed_status (reject_unit env (zoned base) r (ho_clock env 0)))
      \<or> (\<exists>be snapshot spec servers. published env w acts base be snapshot spec servers st
            \<and> (\<forall>x. snapshot = Some x \<longrightarrow> hw_snapshot w = Inr (Some x) \<and> owned_by_unit x base)))"
proof -
  let ?now = "ho_clock env 0"
  have no_delete: "Patch_Unit_Status st \<notin> set (fst (delete_snapshot w))"
    by (simp add: delete_snapshot_def split: sum.splits option.splits)
  obtain base where base: "hw_unit w = Inr (Some base)" and ours: "pr_name (un_provider (unit_rspec base)) = ho_provider env"
    using run patch no_delete by (auto simp: reconcile_unit_def split: sum.splits option.splits if_splits)
  obtain found where found: "hw_snapshot w = Inr found"
    using run patch base ours by (cases "hw_snapshot w") (auto simp: reconcile_unit_def)
  have observed: "(\<exists>m. st = observed_status (snapshot_rejected env (zoned base) m ?now))
      \<or> (\<exists>r. st = observed_status (reject_unit env (zoned base) r ?now))
      \<or> (\<exists>be spec servers. published env w acts base be snapshot spec servers st)"
    if r: "reconcile_observed env w base (zoned base) snapshot ?now pre = (acts, out)" and pre: "\<not> list_ex is_status_patch pre" for snapshot pre
  proof (cases "observe_binding env (hw_cache w) (zoned base)")
    case (Inl e)
    with r patch pre show ?thesis by (auto simp: reconcile_observed_def list_ex_iff)
  next
    case (Inr obs)
    show ?thesis
    proof (cases obs)
      case Not_Ours
      with Inr r patch pre show ?thesis by (auto simp: reconcile_observed_def list_ex_iff)
    next
      case (Refused ref)
      with Inr r have "patch_unit w base (reject_unit env (zoned base) ref ?now) pre (30 * second) = (acts, out)"
        by (simp add: reconcile_observed_def)
      with patch have "Patch_Unit_Status st \<in> set (fst (patch_unit w base (reject_unit env (zoned base) ref ?now) pre (30 * second)))" by simp
      from patch_unit_status [OF this pre] show ?thesis unfolding observed_status_def by blast
    next
      case (Bound be)
      with Inr r have "reconcile_bound env w base (zoned base) be snapshot ?now pre = (acts, out)"
        by (simp add: reconcile_observed_def)
      from bound_cases [OF _ pre this patch] Inr Bound show ?thesis by blast
    qed
  qed
  have step: "reconcile_unit env w = (case found of
        None \<Rightarrow> reconcile_observed env w base (zoned base) None ?now []
      | Some s \<Rightarrow>
        if \<not> owned_by_unit s base then
          (case hw_delete w of
             Some e \<Rightarrow> ([Delete_Snapshot], Inl e)
           | None \<Rightarrow> patch_unit w base (snapshot_rejected env (zoned base)
               ''HostedZone owner reference does not match ZoneUnit; the shadowing snapshot was deleted.'' ?now) [Delete_Snapshot] second)
        else if deleting (unit_meta base) then
          (case hw_delete w of
             Some e \<Rightarrow> ([Delete_Snapshot], Inl e)
           | None \<Rightarrow> reconcile_observed env w base (zoned base) None ?now [Delete_Snapshot])
        else reconcile_observed env w base (zoned base) (Some s) ?now [])"
    using base ours found by (cases found) (simp_all add: reconcile_unit_def Let_def zoned_def [symmetric])
  have finish: ?thesis if "(\<exists>m. st = observed_status (snapshot_rejected env (zoned base) m ?now))
      \<or> (\<exists>r. st = observed_status (reject_unit env (zoned base) r ?now))
      \<or> (\<exists>be spec servers. published env w acts base be snapshot spec servers st)"
    "\<forall>x. snapshot = Some x \<longrightarrow> hw_snapshot w = Inr (Some x) \<and> owned_by_unit x base" for snapshot
    using base that by blast
  show ?thesis
  proof (cases found)
    case None
    with run step have "reconcile_observed env w base (zoned base) None ?now [] = (acts, out)" by simp
    from finish [OF observed [OF this]] show ?thesis by simp
  next
    case (Some x)
    consider "\<not> owned_by_unit x base" | "owned_by_unit x base" "deleting (unit_meta base)" | "owned_by_unit x base" "\<not> deleting (unit_meta base)"
      by blast
    then show ?thesis
    proof cases
      case 1
      with Some run step patch have p: "Patch_Unit_Status st \<in> set (fst (patch_unit w base (snapshot_rejected env (zoned base)
          ''HostedZone owner reference does not match ZoneUnit; the shadowing snapshot was deleted.'' ?now) [Delete_Snapshot] second))"
        by (auto split: option.splits)
      have "\<not> list_ex is_status_patch [Delete_Snapshot]" by simp
      from patch_unit_status [OF p this] base show ?thesis unfolding observed_status_def by blast
    next
      case 2
      with Some run step patch have "reconcile_observed env w base (zoned base) None ?now [Delete_Snapshot] = (acts, out)"
        by (auto split: option.splits)
      from finish [OF observed [OF this]] show ?thesis by simp
    next
      case 3
      with Some run step have "reconcile_observed env w base (zoned base) (Some x) ?now [] = (acts, out)" by simp
      from finish [OF observed [OF this]] found Some 3 show ?thesis by simp
    qed
  qed
qed

section \<open>Properties\<close>



end
