(* ===== verification/Hosted_Instance.thy ===== *)
theory Hosted_Instance
  imports Hosted_Controller "HOL-Library.Countable"
begin

text \<open>
  A concrete environment of the hosted controller: condition lists by their type, digests that tell
  what they must, an encoding of the private state that reads back, and the hosted evaluator. The
  laws the controller relies on hold there, and its properties are applied to concrete passes.
\<close>

section \<open>The environment\<close>

definition demo_hosted_env :: "(scheduler \<Rightarrow> raw) \<Rightarrow> (raw \<Rightarrow> scheduler) \<Rightarrow> unit hosted_env" where
  "demo_hosted_env enc back = \<lparr>co_decl = demo_decl_env, co_contract = demo_contract_env, co_zone_context = (\<lambda>_. ()),
     co_set_context = (\<lambda>_ _. ()), co_cel = (\<lambda>_ _ _ _ _ _. Some True),
     co_find_condition = (\<lambda>cs t. find (\<lambda>c. c_type c = t) cs),
     co_set_condition = (\<lambda>cs c. if \<exists>x \<in> set cs. c_type x = c_type c
        then map (\<lambda>x. if c_type x = c_type c then c else x) cs else cs @ [c]),
     ho_render = demo_render_env\<lparr>re_previous_digest := \<lambda>r. r\<rparr>, ho_wd = demo_wd_env, ho_controller = ''p/controller'',
     ho_provider = ''p'', ho_version = ''v1'', ho_default_views = [''10.0.0.1:53''], ho_class_context = (\<lambda>_. ()),
     ho_parameters = (\<lambda>_. Inr demo_params), ho_effective = (\<lambda>p. (p, None)), ho_fingerprint = (\<lambda>_ _ _ _ _ _ _. ''f''),
     ho_item_digest = (\<lambda>_. ''i''), ho_claim_digest = (\<lambda>_ _ _ _ n a. n @ a),
     ho_policy_digest = (\<lambda>_ _ b _. if b then ''1'' else ''0''), ho_result_digest = (\<lambda>_ _ _. []),
     ho_zone_json = (\<lambda>_. []), ho_read_zone = (\<lambda>_. (False, empty_zone_data)), ho_digest_json = (\<lambda>d. d),
     ho_receipt_json = (\<lambda>_. []), ho_read_receipt = (\<lambda>_. empty_receipt), ho_record_json = (\<lambda>_ _. []),
     ho_state_json = enc, ho_read_state = back, ho_views_json = (\<lambda>_. []), ho_clock = (\<lambda>n. 1000 * second + int n),
     ho_jitter = (\<lambda>_ d. d), ho_remove_condition = (\<lambda>cs t. filter (\<lambda>c. c_type c \<noteq> t) cs), ho_lookup = (\<lambda>_. None),
     ho_probe = (\<lambda>_. Inl (GoError False False ''no answer'')), ho_evaluate = (\<lambda>n i. Inr (evaluate demo_wd_env i))\<rparr>"

lemma demo_hosted_laws: "hosted_laws (demo_hosted_env enc back)"
proof -
  have "condition_laws (demo_hosted_env enc back)"
    using demo_condition_laws unfolding condition_laws_def demo_hosted_env_def demo_core_env_def core_env.select_convs .
  moreover have remove: "find (\<lambda>c. c_type c = k) (filter (\<lambda>c. c_type c \<noteq> t) cs) = (if k = t then None else find (\<lambda>c. c_type c = k) cs)" for cs t k
    by (induction cs) auto
  have "co_find_condition (demo_hosted_env enc back) (ho_remove_condition (demo_hosted_env enc back) cs t) k
      = (if k = t then None else co_find_condition (demo_hosted_env enc back) cs k)" for cs t k
    unfolding demo_hosted_env_def hosted_env.select_convs core_env.select_convs by (rule remove)
  ultimately show ?thesis by (simp add: hosted_laws_def)
qed

lemma demo_digest_laws: "digest_laws (demo_hosted_env enc back)"
  by (simp add: digest_laws_def demo_hosted_env_def)

lemma demo_hosted_evaluator: "\<forall>n. withdrawal_evaluator (ho_evaluate (demo_hosted_env enc back) n)"
  by (simp add: demo_hosted_env_def hosted.withdrawal_evaluator_axioms)

section \<open>An encoding of the private state\<close>

text \<open>The fields of the state, as a tuple of a countable type.\<close>

type_synonym evidence_fields = "(string \<times> string \<times> string list \<times> int \<times> string list) \<times> ((string \<times> gotime) list \<times> (string \<times> int) list
  \<times> gotime \<times> gotime option \<times> gotime option) \<times> gotime option \<times> gotime \<times> gotime \<times> int \<times> bool"

definition evidence_fields :: "wstate \<Rightarrow> evidence_fields" where
  "evidence_fields s = ((st_identity s, st_policy s, st_views s, uint (st_soa_minimum s), st_checked_names s),
     (st_positive s, map (map_prod id uint) (st_negative s), st_window_start s, st_absent_since s, st_not_before s),
     st_verified_at s, st_last_probe s, st_next_probe s, st_failures s, st_missing_history s)"

fun evidence_of :: "evidence_fields \<Rightarrow> wstate" where
  "evidence_of ((a, b, c, d, e), (f, g, h, i, j), k, l, m, n, p) =
     \<lparr>st_identity = a, st_policy = b, st_views = c, st_soa_minimum = word_of_int d, st_checked_names = e, st_positive = f,
      st_negative = map (map_prod id word_of_int) g, st_window_start = h, st_absent_since = i, st_not_before = j, st_verified_at = k,
      st_last_probe = l, st_next_probe = m, st_failures = n, st_missing_history = p\<rparr>"

lemma evidence_of_fields [simp]: "evidence_of (evidence_fields s) = s"
proof -
  have "map (map_prod id word_of_int \<circ> map_prod id uint) xs = xs" for xs :: "(string \<times> uint32) list"
    by (rule map_idI) auto
  then show ?thesis by (cases s) (simp add: evidence_fields_def)
qed

type_synonym schedule_fields = "string \<times> string \<times> string \<times> int \<times> string \<times> gotime \<times> evidence_fields option"

definition schedule_fields :: "wschedule \<Rightarrow> schedule_fields" where
  "schedule_fields s = (sc_identity s, sc_policy s, sc_binding s, uint (sc_omission_serial s), sc_omission_digest s, sc_next s,
     map_option evidence_fields (sc_state s))"

fun schedule_of_fields :: "schedule_fields \<Rightarrow> wschedule" where
  "schedule_of_fields (a, b, c, d, e, f, g) = \<lparr>sc_identity = a, sc_policy = b, sc_binding = c, sc_omission_serial = word_of_int d,
     sc_omission_digest = e, sc_next = f, sc_state = map_option evidence_of g\<rparr>"

lemma schedule_of_fields [simp]: "schedule_of_fields (schedule_fields s) = s"
proof -
  have "evidence_of \<circ> evidence_fields = id" by (simp add: fun_eq_iff)
  then show ?thesis by (cases s) (simp add: schedule_fields_def option.map_comp option.map_id)
qed

type_synonym state_fields = "(string \<times> schedule_fields) list \<times> (string \<times> gotime) list \<times> string \<times> string \<times> gotime"

definition state_fields :: "scheduler \<Rightarrow> state_fields" where
  "state_fields s = (map (map_prod id schedule_fields) (sd_withdrawals s), sd_publications s, sd_cursor s, sd_delegation_policy s,
     sd_delegation_next s)"

fun state_of_fields :: "state_fields \<Rightarrow> scheduler" where
  "state_of_fields (a, b, c, d, e) = \<lparr>sd_withdrawals = map (map_prod id schedule_of_fields) a, sd_publications = b, sd_cursor = c,
     sd_delegation_policy = d, sd_delegation_next = e, sd_probed = False\<rparr>"

lemma state_of_fields: "\<not> sd_probed s \<Longrightarrow> state_of_fields (state_fields s) = s"
proof -
  have "map (map_prod id schedule_of_fields \<circ> map_prod id schedule_fields) xs = xs" for xs :: "(string \<times> wschedule) list"
    by (rule map_idI) auto
  then show "\<not> sd_probed s \<Longrightarrow> state_of_fields (state_fields s) = s" by (cases s) (simp add: state_fields_def)
qed

text \<open>Any code of the tuples as bytes will do; here a unary number.\<close>

definition encode_state :: "scheduler \<Rightarrow> raw" where
  "encode_state s = replicate (to_nat (state_fields s)) CHR ''x''"

definition decode_state :: "raw \<Rightarrow> scheduler" where
  "decode_state r = state_of_fields (from_nat (length r))"

lemma demo_state_roundtrip: "state_roundtrip (demo_hosted_env encode_state decode_state)"
  by (simp add: state_roundtrip_def demo_hosted_env_def encode_state_def decode_state_def state_of_fields)

section \<open>A pass over a served snapshot\<close>

definition demo_item :: unit_record_set where
  "demo_item = (unit_item demo_record_set empty_payload)"

definition demo_bound_class :: zone_class where
  "demo_bound_class = demo_class\<lparr>zc_conditions := [demo_condition ''Accepted'']\<rparr>"

definition demo_reader :: reader where
  "demo_reader = \<lparr>rd_class = (\<lambda>_. Inr (Some demo_bound_class)), rd_provider = (\<lambda>_. Inr (Some demo_provider)), rd_decl = demo_decl_env\<rparr>"

definition demo_live_unit :: "unit_withdrawal list \<Rightarrow> unit_status \<Rightarrow> zone_unit" where
  "demo_live_unit claims status = demo_render_unit\<lparr>unit_rspec := (unit_rspec demo_render_unit)\<lparr>un_record_sets := [demo_item],
     un_zone := (un_zone (unit_rspec demo_render_unit))\<lparr>uz_class_uid := ''uid-class''\<rparr>, un_withdrawals := claims\<rparr>, unit_rstatus := status\<rparr>"

definition demo_owned_snapshot :: hosted_zone where
  "demo_owned_snapshot = \<lparr>hz_meta = (demo_meta ''dns'' ''z'')\<lparr>om_owners := [\<lparr>or_api_version = ''dns.appthrust.io/v1alpha1'', or_kind = ''ZoneUnit'',
       or_name = ''z'', or_uid = ''u'', or_controller = Some True\<rparr>]\<rparr>,
     hz_spec = \<lparr>hs_domain = ''example.com'', hs_serial = 7, hs_soa = \<lparr>soa_mname = [], soa_rname = [], soa_refresh = 0, soa_retry = 0,
       soa_expire = 0, soa_minimum = 0\<rparr>, hs_name_servers = [], hs_records = [], hs_digest = ''sha256:00''\<rparr>,
     hz_servers = [\<lparr>ss_endpoint = ''s'', ss_serial = 7, ss_digest = ''sha256:00'', ss_observed = 990 * second\<rparr>]\<rparr>"

definition demo_hosted_world :: "reader \<Rightarrow> zone_unit \<Rightarrow> hosted_world" where
  "demo_hosted_world r u = \<lparr>hw_unit = Inr (Some u), hw_snapshot = Inr (Some demo_owned_snapshot), hw_cache = r, hw_live = r,
     hw_live_unit = Inr u, hw_delete = None, hw_apply = None, hw_patch = None\<rparr>"

definition empty_unit_status :: unit_status where
  "empty_unit_status = \<lparr>ust_observed = 0, ust_conditions = [], ust_provider = None, ust_zone = None, ust_record_sets = [], ust_withdrawals = []\<rparr>"

definition blank_state :: scheduler where
  "blank_state = \<lparr>sd_withdrawals = [], sd_publications = [], sd_cursor = [], sd_delegation_policy = [], sd_delegation_next = 0, sd_probed = False\<rparr>"

abbreviation "demo_env \<equiv> demo_hosted_env (\<lambda>_. []) (\<lambda>_. blank_state)"
abbreviation "demo_pass_world \<equiv> demo_hosted_world demo_reader (demo_live_unit [] empty_unit_status)"

text \<open>Rendering the unit: the collected records are evaluated, the digest of any content is the same.\<close>

abbreviation "demo_live \<equiv> demo_live_unit [] empty_unit_status"

lemma demo_any_digest:
  assumes "\<forall>s \<in> set (hs_name_servers spec). \<forall>a \<in> set (nsv_addresses s). parse_addr a \<noteq> None"
  shows "content_digest (ho_render demo_env) spec = ''sha256:00''"
proof -
  have target: "canonical_target (e\<lparr>re_previous_digest := f\<rparr>) r = canonical_target e r" for e f r by (cases r) simp_all
  then have targets: "canonical_target (e\<lparr>re_previous_digest := f\<rparr>) = canonical_target e" for e f by (intro ext)
  have same: "digest_server (e\<lparr>re_previous_digest := f\<rparr>) = digest_server e" "digest_record (e\<lparr>re_previous_digest := f\<rparr>) = digest_record e"
    "digest_soa (e\<lparr>re_previous_digest := f\<rparr>) = digest_soa e" for e f
    by (intro ext; simp add: digest_server_def digest_record_def digest_soa_def Let_def targets split: option.split)+
  have "content_digest (e\<lparr>re_previous_digest := f\<rparr>) spec = content_digest e spec" for e f
    by (simp add: content_digest_def digest_rrs_def same split: option.split)
  then have "content_digest (ho_render demo_env) spec = content_digest demo_render_env spec"
    by (simp add: demo_hosted_env_def)
  moreover have "content_digest demo_render_env spec \<in> {[], ''sha256:00''}"
    by (simp add: content_digest_def demo_render_env_def split: option.split)
  ultimately show ?thesis using demo_digest [OF assms] by simp
qed

lemma demo_collects:
  "case render_items (ho_render demo_env) 60 [demo_item] [] of Inl _ \<Rightarrow> False | Inr recs \<Rightarrow>
     (case render_servers (ho_render demo_env) ''example.com'' 60 (cp_name_servers demo_params) recs of Inl _ \<Rightarrow> False | Inr (servers, recs1) \<Rightarrow>
       (case add_record \<lparr>hr_name = ''@'', hr_type = TypeNS, hr_ttl = 60, hr_values = map (\<lambda>s. re_fqdn (ho_render demo_env) (nsv_name s)) servers\<rparr> recs1 of
          Inl _ \<Rightarrow> False | Inr recs2 \<Rightarrow> length recs2 \<le> 5 \<and> list_all (\<lambda>s. list_all (\<lambda>a. parse_addr a \<noteq> None) (nsv_addresses s)) servers))"
  by code_simp

lemma demo_renders:
  "\<exists>spec. render_snapshot (ho_render demo_env) (Some (render_unit demo_env (zoned demo_live) (Some demo_owned_snapshot))) demo_params 7 t = Inr spec
     \<and> hs_digest spec = ''sha256:00''"
proof -
  let ?u = "render_unit demo_env (zoned demo_live) (Some demo_owned_snapshot)"
  have u: "snapshot_name (uz_domain (un_zone (unit_rspec ?u))) = ''example.com''" "un_record_sets (unit_rspec ?u) = [demo_item]"
    "default_number (cp_default_ttl demo_params) default_ttl = 60" "cp_name_servers demo_params \<noteq> []"
  proof -
    have "snapshot_name ''example.com'' = ''example.com''" by code_simp
    then show "snapshot_name (uz_domain (un_zone (unit_rspec ?u))) = ''example.com''"
      by (simp add: render_unit_def put_status_def zoned_def demo_live_unit_def demo_render_unit_def)
  qed (simp_all add: render_unit_def put_status_def zoned_def demo_live_unit_def demo_params_def default_number_def default_ttl_def)
  have z: "ust_zone (unit_rstatus ?u) = Some \<lparr>uzs_name_servers = [], uzs_provider = Some (provider_data ''sha256:00''), uzs_conditions = []\<rparr>"
    using demo_any_digest [of "hz_spec demo_owned_snapshot"]
    by (simp add: render_unit_def put_status_def demo_owned_snapshot_def demo_hosted_env_def)
  have p: "re_previous_digest (ho_render demo_env) (ps_data (provider_data d)) = d" for d
    by (simp add: demo_hosted_env_def provider_data_def)
  have serial: "render_serial 7 ''sha256:00'' ''sha256:00'' t = Some 7" by (simp add: render_serial_def)
  obtain recs servers recs1 recs2 where steps: "render_items (ho_render demo_env) 60 [demo_item] [] = Inr recs"
      "render_servers (ho_render demo_env) ''example.com'' 60 (cp_name_servers demo_params) recs = Inr (servers, recs1)"
      "add_record \<lparr>hr_name = ''@'', hr_type = TypeNS, hr_ttl = 60, hr_values = map (\<lambda>s. re_fqdn (ho_render demo_env) (nsv_name s)) servers\<rparr> recs1
         = Inr recs2" "length recs2 \<le> 5" "\<forall>s \<in> set servers. \<forall>a \<in> set (nsv_addresses s). parse_addr a \<noteq> None"
  proof (cases "render_items (ho_render demo_env) 60 [demo_item] []")
    case (Inr recs)
    note 1 = demo_collects [unfolded this sum.case]
    then obtain servers recs1 where 2: "render_servers (ho_render demo_env) ''example.com'' 60 (cp_name_servers demo_params) recs
        = Inr (servers, recs1)" by (auto split: sum.split_asm)
    note 3 = 1 [unfolded 2 sum.case prod.case]
    then obtain recs2 where 4: "add_record \<lparr>hr_name = ''@'', hr_type = TypeNS, hr_ttl = 60,
        hr_values = map (\<lambda>s. re_fqdn (ho_render demo_env) (nsv_name s)) servers\<rparr> recs1 = Inr recs2" by (auto split: sum.split_asm)
    show thesis using 3 [unfolded 4 sum.case list_all_iff] by (intro that [OF Inr 2 4]) simp_all
  qed (use demo_collects in simp)
  have "\<not> max_rrsets < length recs2" using steps(4) by (simp add: max_rrsets_def)
  moreover have "content_digest (ho_render demo_env) \<lparr>hs_domain = d, hs_serial = n, hs_soa = so, hs_name_servers = sort_key k servers,
      hs_records = rs, hs_digest = g\<rparr> = ''sha256:00''" for d n so rs g and k :: "name_server \<Rightarrow> string"
    by (rule demo_any_digest) (use steps(5) in simp)
  ultimately show ?thesis
    using u(4) by (simp add: render_snapshot_def Let_def u z p steps serial del: render_items.simps render_servers.simps)
qed

text \<open>The pass reports the record set as programmed.\<close>

fun reports_success :: "unit hosted_env \<Rightarrow> hosted_action list \<Rightarrow> bool" where
  "reports_success env [Patch_Unit_Status st] = (length (ust_record_sets st) = 1 \<and> set_succeeds env (hd (ust_record_sets st)))"
| "reports_success env _ = False"

lemma reports_successD:
  "reports_success env acts \<Longrightarrow> \<exists>st s. acts = [Patch_Unit_Status st] \<and> ust_record_sets st = [s] \<and> set_succeeds env s"
  by (erule reports_success.elims) (auto simp: length_Suc_conv)

lemma demo_publishes:
  "reports_success demo_env (fst (publish_results demo_env demo_pass_world demo_live (zoned demo_live)
       (bind_environment demo_env (zoned demo_live) demo_bound_class demo_provider demo_params) blank_state (hz_spec demo_owned_snapshot)
       (hz_servers demo_owned_snapshot) (1000 * second) []))"
  by code_simp

lemma demo_pass_reports:
  "\<exists>st s. fst (reconcile_unit demo_env demo_pass_world) = [Patch_Unit_Status st] \<and> ust_record_sets st = [s] \<and> set_succeeds demo_env s"
proof -
  let ?be = "bind_environment demo_env (zoned demo_live) demo_bound_class demo_provider demo_params"
  have bound: "observe_binding demo_env demo_reader (zoned demo_live) = Inr (Bound ?be)" by code_simp
  have own: "owned_by_unit demo_owned_snapshot (zoned demo_live)" "\<not> deleting (unit_meta demo_live)"
    "pr_name (un_provider (unit_rspec demo_live)) = ho_provider demo_env" "ho_clock demo_env 0 = 1000 * second"
    "fresh_servers (hz_servers demo_owned_snapshot) (1000 * second) = hz_servers demo_owned_snapshot"
    "load_state demo_env (ust_provider (unit_rstatus demo_live)) = blank_state" "be_params ?be = demo_params"
    "blank_state\<lparr>sd_publications := retain_publication [] (hz_spec demo_owned_snapshot) (hz_servers demo_owned_snapshot) (1000 * second)\<rparr> = blank_state"
    "sd_publications blank_state = []" "hs_serial (hz_spec demo_owned_snapshot) = 7" "hs_digest (hz_spec demo_owned_snapshot) = ''sha256:00''"
    by code_simp+
  obtain spec where spec: "render_snapshot (ho_render demo_env) (Some (render_unit demo_env (zoned demo_live) (Some demo_owned_snapshot)))
      demo_params 7 (1000 * second) = Inr spec" "hs_digest spec = ''sha256:00''" using demo_renders by blast
  have "\<not> needs_apply demo_env (Some demo_owned_snapshot) spec"
    using demo_any_digest [of "hz_spec demo_owned_snapshot"] spec(2) own(11)
    by (simp add: needs_apply_def) (simp add: demo_owned_snapshot_def)
  then have "reconcile_unit demo_env demo_pass_world
      = publish_results demo_env demo_pass_world demo_live (zoned demo_live) ?be blank_state (hz_spec demo_owned_snapshot)
          (hz_servers demo_owned_snapshot) (1000 * second) []"
    using bound own spec
    by (simp add: reconcile_unit_def demo_hosted_world_def reconcile_observed_def reconcile_bound_def previous_serial_def Let_def
        zoned_def [symmetric])
  with reports_successD [OF demo_publishes] show ?thesis by (simp only:)
qed


section \<open>A withdrawal claim in turn\<close>

definition demo_binding :: binding_env where
  "demo_binding = bind_environment demo_env (demo_live_unit [demo_claim] empty_unit_status) demo_bound_class demo_provider demo_params"

abbreviation "demo_turn \<equiv> reconcile_unit_withdrawals demo_env (demo_live_unit [demo_claim] empty_unit_status) demo_binding
  (hz_spec demo_owned_snapshot) (hz_servers demo_owned_snapshot) blank_state (1000 * second)"

theorem due_claim_progress_witness: "one_names (fst (snd demo_turn))"
proof -
  have claims: "un_withdrawals (unit_rspec (demo_live_unit [demo_claim] empty_unit_status)) = [demo_claim]"
    by (simp add: demo_live_unit_def)
  have due: "claim_due demo_env (demo_live_unit [demo_claim] empty_unit_status) demo_binding (hz_spec demo_owned_snapshot)
      (hz_servers demo_owned_snapshot) (1000 * second) blank_state demo_claim" by code_simp
  have "one_names blank_state" by (simp add: one_names_def blank_state_def)
  with due_claim_progress [OF demo_hosted_evaluator, of "demo_live_unit [demo_claim] empty_unit_status" blank_state 0 "\<lambda>_. []" "\<lambda>_. blank_state"
      demo_binding "hz_spec demo_owned_snapshot" "hz_servers demo_owned_snapshot" "1000 * second" "fst demo_turn" "fst (snd demo_turn)"
      "snd (snd demo_turn)"] due
  show ?thesis by (simp add: claims)
qed

section \<open>A withdrawn claim whose class is gone\<close>

definition demo_state_kept :: scheduler where
  "demo_state_kept = blank_state\<lparr>sd_withdrawals := [(''ns/c'', empty_schedule\<lparr>sc_policy := ''1''\<rparr>)]\<rparr>"

definition demo_withdrawn_status :: unit_status where
  "demo_withdrawn_status = empty_unit_status\<lparr>ust_provider := Some \<lparr>ps_data = [], ps_state = encode_state demo_state_kept\<rparr>,
     ust_withdrawals := [(claim_status demo_claim empty_withdrawal_result)\<lparr>uws_conditions := [demo_condition ''Withdrawn'']\<rparr>]\<rparr>"

abbreviation "demo_kept_env \<equiv> demo_hosted_env encode_state decode_state"
abbreviation "demo_kept_unit \<equiv> demo_live_unit [demo_claim] demo_withdrawn_status"
abbreviation "demo_lost_world \<equiv> demo_hosted_world (demo_reader\<lparr>rd_class := \<lambda>_. Inr None\<rparr>) demo_kept_unit"

lemma demo_kept_evidence: "status_evidence demo_kept_env (unit_rstatus demo_kept_unit)"
proof -
  have "load_state demo_kept_env (ust_provider demo_withdrawn_status) = demo_state_kept"
    by (simp add: load_state_def demo_withdrawn_status_def demo_hosted_env_def encode_state_def decode_state_def state_of_fields
        demo_state_kept_def blank_state_def)
  then show ?thesis
    by (simp add: status_evidence_def demo_live_unit_def demo_withdrawn_status_def claim_status_def withdrawal_result_key_def
        demo_claim_def schedule_of_def demo_state_kept_def demo_hosted_env_def)
qed

lemma demo_lost_pass:
  "fst (reconcile_unit demo_kept_env demo_lost_world)
     = [Patch_Unit_Status (observed_status (reject_unit demo_kept_env (zoned demo_kept_unit)
         \<lparr>ac_status = ConditionFalse, ac_reason = ''InvalidZoneClassRef'', ac_message = ''referenced ZoneClass was not found''\<rparr> (1000 * second)))]"
proof -
  have "owned_by_unit demo_owned_snapshot (zoned demo_kept_unit)" "\<not> deleting (unit_meta demo_kept_unit)"
    "pr_name (un_provider (unit_rspec demo_kept_unit)) = ''p''"
    by (simp_all add: owned_by_unit_def demo_owned_snapshot_def demo_live_unit_def demo_render_unit_def deleting_def)
  moreover have "observed_status (reject_unit demo_kept_env (zoned demo_kept_unit) r t) \<noteq> unit_rstatus demo_kept_unit" for r t
  proof
    assume "observed_status (reject_unit demo_kept_env (zoned demo_kept_unit) r t) = unit_rstatus demo_kept_unit"
    from arg_cong [OF this, of ust_observed] show False
      by (simp add: observed_status_def reject_unit_def reject_withdrawals_def put_status_def Let_def demo_live_unit_def
          demo_withdrawn_status_def empty_unit_status_def demo_render_unit_def zoned_def split: if_splits)
  qed
  ultimately show ?thesis
    by (simp add: reconcile_unit_def demo_hosted_world_def reconcile_observed_def observe_binding_def refuse_def demo_reader_def
        patch_unit_def Let_def zoned_def [symmetric] observed_status_def [symmetric] demo_hosted_env_def [THEN arg_cong, of ho_provider]
        demo_hosted_env_def [THEN arg_cong, of "\<lambda>e. ho_clock e 0"])
qed


end
