(* ===== verification/External_Unit.thy ===== *)
theory External_Unit
  imports External_Verification Hosted_Controller
begin

text \<open>
  \<open>internal/go/providers/external\<close>: the configuration of the external provider (\<open>config.go\<close>), the
  names it checks with their schedule (\<open>model.go\<close>), the evidence it keeps of withdrawal claims
  (\<open>withdrawal_model.go\<close>) and the results it reports (\<open>status.go\<close>). The provider publishes
  nothing: it only verifies that foreign servers answer what a unit declares.
\<close>

section \<open>Configuration (config.go)\<close>

record external_params =
  xp_mode :: string
  xp_servers :: "string list"
  xp_expected :: "string list"

fun distinct_names :: "string list \<Rightarrow> string list \<Rightarrow> bool" where
  "distinct_names seen [] = True"
| "distinct_names seen (n # ns) = (valid_name n \<and> n \<notin> set seen \<and> distinct_names (seen @ [n]) ns)"

definition check_params :: "external_params \<Rightarrow> string + external_params" where
  "check_params p0 =
     (let p = (if xp_mode p0 = [] then p0\<lparr>xp_mode := mode_cluster\<rparr> else p0) in
      if xp_mode p \<noteq> mode_cluster \<and> xp_mode p \<noteq> mode_recursive then Inl ''resolver.mode must be Cluster or Recursive''
      else if xp_mode p = mode_cluster \<and> xp_servers p \<noteq> [] then Inl ''resolver.servers must be empty for Cluster''
      else if xp_mode p = mode_recursive \<and> \<not> validate_servers (xp_servers p) then Inl (if xp_servers p = [] \<or> 3 < length (xp_servers p) then ''resolver.servers must contain 1 through 3 endpoints''
             else ''resolver.servers must contain distinct canonical IP addresses and ports from 1 through 65535'')
      else if 16 < length (xp_expected p) then Inl ''expectedNameservers must contain at most 16 names''
      else if \<not> distinct_names [] (xp_expected p) then Inl ''expectedNameservers must contain distinct canonical DNS names''
      else Inr (p\<lparr>xp_servers := sort (xp_servers p), xp_expected := sort (xp_expected p)\<rparr>))"

definition decode_params :: "(raw \<Rightarrow> string + external_params) \<Rightarrow> raw \<Rightarrow> string + external_params" where
  "decode_params unmarshal r =
     (if r = [] then check_params \<lparr>xp_mode = [], xp_servers = [], xp_expected = []\<rparr>
      else (case unmarshal r of Inl e \<Rightarrow> Inl (''invalid external parameters: '' @ e) | Inr p \<Rightarrow> check_params p))"

definition external_probe_policy :: "external_params \<Rightarrow> policy" where
  "external_probe_policy p = \<lparr>p_mode = xp_mode p, p_servers = xp_servers p, p_expected_ns = xp_expected p\<rparr>"

section \<open>The private state (model.go, withdrawal_model.go)\<close>

record name_schedule =
  ns_fingerprint :: string
  ns_next :: gotime
  ns_failures :: int

record claim_evidence =
  xw_identity :: string
  xw_policy :: string
  xw_floor :: policy
  xw_views :: "string list"
  xw_names :: "string list"
  xw_positive :: "(string \<times> gotime) list"
  xw_negative :: "(string \<times> uint32) list"
  xw_window_start :: gotime
  xw_schedule :: name_schedule
  xw_missing_history :: bool

record publication =
  pb_witnesses :: "(string \<times> string) list"
  pb_positive :: "(string \<times> (string \<times> gotime) list) list"

record external_state =
  xs_policy :: string
  xs_cursor :: string
  xs_zone :: name_schedule
  xs_names :: "(string \<times> name_schedule) list"
  xs_withdrawals :: "(string \<times> claim_evidence) list"
  xs_withdrawal_cursor :: string
  xs_publications :: "(string \<times> publication) list"

record name_group =
  ng_name :: string
  ng_checked :: string
  ng_sampled :: bool
  ng_items :: "nat list"
  ng_expected :: rrsets
  ng_fingerprint :: string

definition empty_name_schedule :: name_schedule where
  "empty_name_schedule = \<lparr>ns_fingerprint = [], ns_next = 0, ns_failures = 0\<rparr>"

definition empty_publication :: publication where
  "empty_publication = \<lparr>pb_witnesses = [], pb_positive = []\<rparr>"

definition empty_evidence :: claim_evidence where
  "empty_evidence = \<lparr>xw_identity = [], xw_policy = [], xw_floor = \<lparr>p_mode = [], p_servers = [], p_expected_ns = []\<rparr>, xw_views = [],
     xw_names = [], xw_positive = [], xw_negative = [], xw_window_start = 0, xw_schedule = empty_name_schedule, xw_missing_history = False\<rparr>"

text \<open>
  What the controller calls outside the repository: digests, JSON, the resolver, the clock. Clock, jitter and
  resolver are given the number of clock readings made before in the pass.
\<close>

record ('ctx) external_env = "'ctx core_env" +
  xo_controller :: string
  xo_binding :: provider_reference
  xo_class_context :: "zone_class \<Rightarrow> 'ctx"
  xo_unmarshal :: "raw \<Rightarrow> string + external_params"
  xo_empty_object :: "raw \<Rightarrow> bool"
  xo_effective :: "policy \<Rightarrow> policy \<times> go_error option"
  xo_fingerprint :: "uid \<Rightarrow> class_spec \<Rightarrow> uid \<Rightarrow> provider_version list \<Rightarrow> uid \<Rightarrow> unit_zone_spec \<Rightarrow> policy
    \<Rightarrow> (string \<times> label_map) list \<Rightarrow> string"
  xo_group_digest :: "string \<Rightarrow> unit_record_set list \<Rightarrow> string"
  xo_item_digest :: "uid \<Rightarrow> int \<Rightarrow> string"
  xo_wildcard_digest :: "uid \<Rightarrow> object_reference \<Rightarrow> string list \<Rightarrow> string"
  xo_claim_digest :: "uid \<Rightarrow> object_reference \<Rightarrow> withdrawal_ref \<Rightarrow> int \<Rightarrow> string \<Rightarrow> string \<Rightarrow> string"
  xo_retire_digest :: "uid \<Rightarrow> object_reference \<Rightarrow> uid \<Rightarrow> string"
  xo_views_digest :: "string \<Rightarrow> string list \<Rightarrow> string"
  xo_policy_digest :: "policy \<Rightarrow> string"
  xo_result_digest :: "string \<Rightarrow> provider_reference \<Rightarrow> unit_zone_spec \<Rightarrow> unit_withdrawal_status \<Rightarrow> string"
  xo_state_json :: "external_state \<Rightarrow> raw"
  xo_read_state :: "raw \<Rightarrow> external_state"
  xo_public_json :: "policy \<Rightarrow> string \<Rightarrow> bool \<Rightarrow> decision \<Rightarrow> gotime option \<Rightarrow> gotime \<Rightarrow> gotime \<Rightarrow> raw"
  xo_views_json :: "values_preview \<Rightarrow> raw"
  xo_format :: "gotime \<Rightarrow> string"
  xo_clock :: "nat \<Rightarrow> gotime"
  xo_jitter :: "nat \<Rightarrow> duration \<Rightarrow> duration"
  xo_remove_condition :: "condition list \<Rightarrow> string \<Rightarrow> condition list"
  xo_probe :: "nat \<Rightarrow> probe_request \<Rightarrow> probe_result \<times> (bool \<times> string) option"

section \<open>Groups of names (model.go)\<close>

definition external_item_key :: "unit_record_set \<Rightarrow> string" where
  "external_item_key i = ur_namespace i @ ''/'' @ ur_name i"

definition checked_item :: "zone_unit \<Rightarrow> unit_record_set \<Rightarrow> bool" where
  "checked_item u i \<longleftrightarrow> \<not> deleting (unit_meta u) \<and> is_allowed i \<and> \<not> ur_deletion i \<and> ur_uid i \<noteq> []"

definition items_named :: "zone_unit \<Rightarrow> string \<Rightarrow> nat list" where
  "items_named u name = (let items = un_record_sets (unit_rspec u) in
     sort_key (\<lambda>i. external_item_key (items ! i))
       (filter (\<lambda>i. checked_item u (items ! i) \<and> ur_owner (items ! i) = name) [0..<length items]))"

definition list_of :: "'a list option \<Rightarrow> 'a list" where
  "list_of x = (case x of None \<Rightarrow> [] | Some xs \<Rightarrow> xs)"

definition expected_of :: "unit_record_set list \<Rightarrow> rrsets" where
  "expected_of items = \<lparr>rr_a = addresses (concat (map (\<lambda>i. list_of (rp_a (ur_payload i))) items)),
     rr_aaaa = addresses (concat (map (\<lambda>i. list_of (rp_aaaa (ur_payload i))) items)),
     rr_cname = fold (\<lambda>i c. case rp_cname (ur_payload i) of None \<Rightarrow> c | Some t \<Rightarrow> canonical_name t) items []\<rparr>"

definition is_wildcard :: "string \<Rightarrow> bool" where
  "is_wildcard name \<longleftrightarrow> name = ''*'' \<or> has_prefix name ''*.''"

definition qualified_name :: "zone_unit \<Rightarrow> string \<Rightarrow> string" where
  "qualified_name u name = (let domain = uz_domain (un_zone (unit_rspec u)) in if name = ''@'' then domain else name @ ''.'' @ domain)"

text \<open>A wildcard is checked at a name that only depends on the zone and its claims.\<close>

definition witness_name :: "('c, 'a) external_env_scheme \<Rightarrow> zone_unit \<Rightarrow> string \<Rightarrow> unit_record_set list \<Rightarrow> string" where
  "witness_name env u name items =
     (let witness = xo_wildcard_digest env (om_uid (unit_meta u)) (uz_ref (un_zone (unit_rspec u)))
            (sort (map (\<lambda>i. xo_item_digest env (ur_uid i) (ur_observed i)) items))
      in ''dns-verify-'' @ take 24 witness @ trim_prefix (qualified_name u name) ''*'')"

definition name_group :: "('c, 'a) external_env_scheme \<Rightarrow> zone_unit \<Rightarrow> string \<Rightarrow> string \<Rightarrow> name_group" where
  "name_group env u policy name =
     (let idx = items_named u name; items = map (\<lambda>i. un_record_sets (unit_rspec u) ! i) idx in
      \<lparr>ng_name = name, ng_checked = (if is_wildcard name then witness_name env u name items else qualified_name u name),
       ng_sampled = is_wildcard name, ng_items = idx, ng_expected = expected_of items,
       ng_fingerprint = xo_group_digest env policy items\<rparr>)"

definition group_names :: "('c, 'a) external_env_scheme \<Rightarrow> zone_unit \<Rightarrow> string \<Rightarrow> name_group list" where
  "group_names env u policy =
     map (name_group env u policy) (sort_compact (map ur_owner (filter (checked_item u) (un_record_sets (unit_rspec u)))))"

section \<open>The schedule (model.go)\<close>

definition load_external :: "('c, 'a) external_env_scheme \<Rightarrow> provider_status option \<Rightarrow> string \<Rightarrow> external_state" where
  "load_external env p policy =
     (let st = (case p of None \<Rightarrow> \<lparr>xs_policy = [], xs_cursor = [], xs_zone = empty_name_schedule, xs_names = [], xs_withdrawals = [],
                  xs_withdrawal_cursor = [], xs_publications = []\<rparr> | Some s \<Rightarrow> xo_read_state env (ps_state s)) in
      if xs_policy st \<noteq> policy then st\<lparr>xs_policy := policy, xs_zone := empty_name_schedule, xs_names := []\<rparr> else st)"

definition external_steps :: "duration list" where
  "external_steps = [30 * second, 60 * second, 120 * second, 300 * second]"

definition base_interval :: "decision \<Rightarrow> int \<Rightarrow> duration" where
  "base_interval d failures =
     (if d_status d = ConditionUnknown then external_steps ! min (nat (max (failures - 1) 0)) 3
      else if d_status d = ConditionTrue \<and> d_ttl d \<noteq> None then seconds (the (d_ttl d))
      else if (d_reason d = ''DNSNameNotFound'' \<or> d_reason d = ''DNSNoData'') \<and> d_negative d \<noteq> None then seconds (the (d_negative d))
      else 30 * second)"

definition next_interval :: "('c, 'a) external_env_scheme \<Rightarrow> nat \<Rightarrow> decision \<Rightarrow> int \<Rightarrow> duration" where
  "next_interval env k d failures = clamp_delay (xo_jitter env k (clamp_delay (base_interval d failures)))"

definition advance_schedule :: "('c, 'a) external_env_scheme \<Rightarrow> nat \<Rightarrow> name_schedule \<Rightarrow> string \<Rightarrow> decision \<Rightarrow> gotime \<Rightarrow> name_schedule" where
  "advance_schedule env k previous fingerprint d now =
     (let failures = (if d_status d = ConditionUnknown
            then (if ns_fingerprint previous = fingerprint then ns_failures previous else 0) + 1 else 0)
      in \<lparr>ns_fingerprint = fingerprint, ns_next = now + next_interval env k d failures, ns_failures = failures\<rparr>)"

definition name_due :: "external_state \<Rightarrow> gotime \<Rightarrow> name_group \<Rightarrow> bool" where
  "name_due st now g \<longleftrightarrow>
     (let s = (case map_of (xs_names st) (ng_name g) of None \<Rightarrow> empty_name_schedule | Some x \<Rightarrow> x)
      in ns_fingerprint s \<noteq> ng_fingerprint g \<or> \<not> now < ns_next s)"

text \<open>The groups after the cursor first, the due ones of them, at most 32.\<close>

definition select_due :: "name_group list \<Rightarrow> external_state \<Rightarrow> gotime \<Rightarrow> name_group list" where
  "select_due groups st now =
     (let passed = (\<lambda>g. ng_name g \<le> xs_cursor st)
      in take max_names_per_pass (filter (name_due st now) (dropWhile passed groups @ takeWhile passed groups)))"

definition next_requeue :: "name_group list \<Rightarrow> external_state \<Rightarrow> gotime \<Rightarrow> duration" where
  "next_requeue groups st now =
     (let next0 = (if ns_next (xs_zone st) = 0 then 300 * second else min (300 * second) (time_sub (ns_next (xs_zone st)) now)) in
      if \<exists>g \<in> set groups. name_due st now g then second
      else max second (fold (\<lambda>g next. min next (time_sub (case map_of (xs_names st) (ng_name g) of None \<Rightarrow> 0 | Some s \<Rightarrow> ns_next s) now))
             groups next0))"

section \<open>Evidence of withdrawal claims (withdrawal_model.go)\<close>

definition external_identity :: "('c, 'a) external_env_scheme \<Rightarrow> zone_unit \<Rightarrow> unit_withdrawal \<Rightarrow> string" where
  "external_identity env u item = xo_claim_digest env (om_uid (unit_meta u)) (uz_ref (un_zone (unit_rspec u))) (uw_claim item)
     (uw_observed item) (uw_name item) (uw_address item)"

definition withdrawal_names :: "('c, 'a) external_env_scheme \<Rightarrow> zone_unit \<Rightarrow> unit_withdrawal \<Rightarrow> publication \<Rightarrow> string list" where
  "withdrawal_names env u item pub =
     (let name = qualified_name u (uw_name item) in
      if \<not> is_wildcard (uw_name item) then [name]
      else
        let witness = xo_retire_digest env (wr_uid (uw_claim item)) (uz_ref (un_zone (unit_rspec u))) (om_uid (unit_meta u));
            known = (case map_of (pb_witnesses pub) (uw_address item) of None \<Rightarrow> [] | Some w \<Rightarrow> if w = [] then [] else [w])
        in sort_compact ((''dns-retire-'' @ take 24 witness @ trim_prefix name ''*'') # known))"

definition valid_external_withdrawal :: "zone_unit \<Rightarrow> unit_withdrawal \<Rightarrow> bool" where
  "valid_external_withdrawal u item \<longleftrightarrow>
     (case parse_addr (uw_address item) of None \<Rightarrow> False
      | Some ip \<Rightarrow> addr_zone ip = [] \<and> addr_string (unmap ip) = uw_address item)
   \<and> wr_uid (uw_claim item) \<noteq> [] \<and> uw_claim_namespace item \<noteq> [] \<and> uw_claim_name item \<noteq> []
   \<and> wr_namespace (uw_claim item) = uw_claim_namespace item \<and> wr_name (uw_claim item) = uw_claim_name item \<and> 1 \<le> uw_observed item
   \<and> valid_name (let domain = uz_domain (un_zone (unit_rspec u)) in
        if uw_name item = ''@'' \<or> uw_name item = ''*'' then domain else trim_prefix (uw_name item) ''*.'' @ ''.'' @ domain)"

text \<open>\<open>retainPositive\<close> is \<open>retain_item\<close> over the cache of the decision; the keys are those of the hosted evaluator.\<close>

definition retain_claim :: "string \<Rightarrow> withdrawal_decision \<Rightarrow> gotime \<Rightarrow> (string \<times> gotime) list \<Rightarrow> (string \<times> gotime) list" where
  "retain_claim checked d now pos = fold (retain_item checked now) (wd_cache d) pos"

definition drop_expired :: "gotime \<Rightarrow> publication \<Rightarrow> publication" where
  "drop_expired now p =
     (let live = map (\<lambda>(a, hs). (a, filter (\<lambda>h. now < snd h) hs)) (pb_positive p);
          gone = map fst (filter (\<lambda>q. snd q = []) live)
      in \<lparr>pb_witnesses = filter (\<lambda>q. fst q \<notin> set gone) (pb_witnesses p), pb_positive = filter (\<lambda>q. snd q \<noteq> []) live\<rparr>)"

definition retain_address :: "('c, 'a) external_env_scheme \<Rightarrow> string \<Rightarrow> probe_request \<Rightarrow> probe_result \<Rightarrow> gotime \<Rightarrow> string
    \<Rightarrow> publication \<Rightarrow> publication" where
  "retain_address env checked req res now address p =
     (let d = evaluate_withdrawal (xo_policy_digest env) (req\<lparr>q_withdrawal := address\<rparr>) res;
          kept = (case map_of (pb_positive p) address of None \<Rightarrow> [] | Some hs \<Rightarrow> hs);
          pos = retain_claim checked d now kept
      in \<lparr>pb_witnesses = (if \<exists>c \<in> set (wd_cache d). ce_positive c \<noteq> None then map_put (pb_witnesses p) address checked else pb_witnesses p),
          pb_positive = (if pos \<noteq> [] then map_put (pb_positive p) address pos else pb_positive p)\<rparr>)"

definition retain_group :: "('c, 'a) external_env_scheme \<Rightarrow> name_group \<Rightarrow> probe_request \<Rightarrow> probe_result \<Rightarrow> gotime
    \<Rightarrow> external_state \<Rightarrow> external_state" where
  "retain_group env g req res now st =
     (let old = drop_expired now (case map_of (xs_publications st) (ng_name g) of None \<Rightarrow> empty_publication | Some p \<Rightarrow> p);
          as = sort_compact (rr_a (ng_expected g) @ rr_aaaa (ng_expected g) @ map fst (pb_positive old))
      in st\<lparr>xs_publications := map_put (xs_publications st) (ng_name g) (fold (retain_address env (ng_checked g) req res now) as old)\<rparr>)"

definition publication_live :: "publication \<Rightarrow> gotime \<Rightarrow> bool" where
  "publication_live p now \<longleftrightarrow> (\<exists>q \<in> set (pb_positive p). \<exists>h \<in> set (snd q). now < snd h)"

definition required_external_views :: "policy \<Rightarrow> zone_evidence option \<Rightarrow> string list" where
  "required_external_views policy evidence =
     sort_compact (map recursive_id (p_servers policy)
       @ (case evidence of None \<Rightarrow> [] | Some ev \<Rightarrow>
            if p_expected_ns policy = [] then []
            else concat (map (\<lambda>auth. map (via_id auth) (p_servers policy)) (ze_authorities ev))))"

definition contains_all :: "string list \<Rightarrow> string list \<Rightarrow> bool" where
  "contains_all values floor \<longleftrightarrow> list_all (\<lambda>v. v \<in> set values) floor"

definition policy_weakened :: "claim_evidence \<Rightarrow> policy \<Rightarrow> string list \<Rightarrow> bool" where
  "policy_weakened s policy views \<longleftrightarrow> xw_missing_history s \<or> \<not> contains_all (p_servers policy) (p_servers (xw_floor s))
     \<or> \<not> contains_all (p_expected_ns policy) (p_expected_ns (xw_floor s)) \<or> \<not> contains_all views (xw_views s)"

definition add_floor :: "policy \<Rightarrow> string list \<Rightarrow> claim_evidence \<Rightarrow> claim_evidence" where
  "add_floor policy views s = s\<lparr>xw_floor := (xw_floor s)\<lparr>p_servers := sort_compact (p_servers (xw_floor s) @ p_servers policy),
       p_expected_ns := sort_compact (p_expected_ns (xw_floor s) @ p_expected_ns policy)\<rparr>,
     xw_views := sort_compact (xw_views s @ views)\<rparr>"

definition forget :: "claim_evidence \<Rightarrow> claim_evidence" where
  "forget s = s\<lparr>xw_negative := [], xw_window_start := 0\<rparr>"

definition note_negative :: "cache_evidence \<Rightarrow> (string \<times> uint32) list \<Rightarrow> (string \<times> uint32) list" where
  "note_negative item m = (case ce_negative item of None \<Rightarrow> m
     | Some t \<Rightarrow> let key = ce_view item @ ''/'' @ ce_qtype item in map_put m key (max (map_get m key) t))"

definition claim_horizon :: "gotime \<Rightarrow> gotime option \<Rightarrow> (string \<times> gotime) list \<Rightarrow> (string \<times> uint32) list \<Rightarrow> gotime" where
  "claim_horizon start earlier positive negative =
     fold (\<lambda>p t. max t (start + seconds (snd p))) negative
       (fold (\<lambda>p t. max t (snd p)) positive (case earlier of None \<Rightarrow> start | Some t \<Rightarrow> max start t))"

definition withdrawal_window :: "unit_withdrawal_status \<Rightarrow> claim_evidence \<Rightarrow> withdrawal_decision \<Rightarrow> gotime
    \<Rightarrow> unit_withdrawal_status \<times> claim_evidence \<times> decision" where
  "withdrawal_window s0 e0 d now =
     (if wd_status d \<noteq> ConditionTrue then (invalidate_status s0, forget e0, wd_decision d)
      else
        let (s1, e1) = (if uws_absent_since s0 \<noteq> None \<and> xw_window_start e0 = 0 then (invalidate_status s0, forget e0) else (s0, e0));
            confirming = (uws_absent_since s1 \<noteq> None \<and> (case uws_last_probe s1 of None \<Rightarrow> False | Some t \<Rightarrow> t < now));
            (s2, e2) = (if uws_absent_since s1 = None then (s1\<lparr>uws_absent_since := Some now\<rparr>, e1\<lparr>xw_window_start := now\<rparr>) else (s1, e1));
            e3 = e2\<lparr>xw_negative := fold note_negative (wd_cache d) (xw_negative e2)\<rparr>;
            nb = round_up (claim_horizon (xw_window_start e3) (uws_not_before s2) (xw_positive e3) (xw_negative e3));
            s3 = s2\<lparr>uws_not_before := Some nb\<rparr>
        in if \<not> confirming \<or> now < nb
           then (s3\<lparr>uws_verified_at := None\<rparr>, e3, new_decision ConditionFalse ''NegativeTTLNotElapsed'' [])
           else (s3\<lparr>uws_verified_at := Some now\<rparr>, e3, new_decision ConditionTrue ''WithdrawalVerified'' []))"

end
