(* ===== verification/External_Claims.thy ===== *)
theory External_Claims
  imports External_Unit
begin

text \<open>
  \<open>internal/go/providers/external/controllers/zoneunit/withdrawal.go\<close>: preparing, selecting and
  probing the withdrawal claims of a unit of the external provider.
\<close>

section \<open>Bindings and conditions\<close>

record external_binding =
  xb_class :: zone_class
  xb_provider :: provider
  xb_policy :: policy
  xb_fingerprint :: string
  xb_policy_error :: "go_error option"

definition set_external :: "('c, 'a) external_env_scheme \<Rightarrow> condition list \<Rightarrow> string \<Rightarrow> condition_status \<Rightarrow> string \<Rightarrow> string
    \<Rightarrow> int \<Rightarrow> gotime \<Rightarrow> condition list" where
  "set_external env cs kind st reason message gen now = co_set_condition env cs
     \<lparr>c_type = kind, c_status = st, c_reason = reason, c_message = message, c_observed = gen, c_transition = now\<rparr>"

definition external_policy_changed :: "string \<Rightarrow> decision" where
  "external_policy_changed name = new_decision ConditionUnknown ''PolicyChanged''
     (''External DNS withdrawal policy changed for '' @ name @ ''; the prior required view policy remains a floor.'')"

definition set_claim_conditions :: "('c, 'a) external_env_scheme \<Rightarrow> decision \<Rightarrow> gotime \<Rightarrow> unit_withdrawal_status
    \<Rightarrow> unit_withdrawal_status" where
  "set_claim_conditions env d now s =
     (let message = (if has_prefix (d_message d) ''DNS withdrawal '' then ''External '' @ d_message d else d_message d);
          ready = (if d_status d = ConditionTrue then ConditionTrue else ConditionFalse)
      in s\<lparr>uws_conditions := set_external env
             (set_external env (uws_conditions s) ''Withdrawn'' (d_status d) (d_reason d) message (uws_observed s) now)
             ''Ready'' ready (d_reason d) message (uws_observed s) now\<rparr>)"

definition bind_external_waiver :: "('c, 'a) external_env_scheme \<Rightarrow> unit_withdrawal \<Rightarrow> gotime \<Rightarrow> unit_withdrawal_status
    \<Rightarrow> unit_withdrawal_status" where
  "bind_external_waiver env item now s =
     (let unbound = s\<lparr>uws_waiver := None, uws_conditions := xo_remove_condition env (uws_conditions s) ''OverrideAccepted''\<rparr> in
      case uw_waiver item of None \<Rightarrow> unbound
      | Some w \<Rightarrow>
        if wvr_name w = [] \<or> wvr_uid w = [] \<or> wvr_digest w = [] \<or> wr_uid (wvr_reservation_ref w) = [] then unbound
        else s\<lparr>uws_waiver := Some w, uws_conditions := set_external env (uws_conditions s) ''OverrideAccepted'' ConditionTrue
               ''OperatorAuthorizedRelease'' ''Core-validated withdrawal waiver is bound to its exact UID and immutable scope.''
               (uw_observed item) now\<rparr>)"

definition external_result_digest :: "('c, 'a) external_env_scheme \<Rightarrow> zone_unit \<Rightarrow> unit_withdrawal \<Rightarrow> unit_withdrawal_status
    \<Rightarrow> string" where
  "external_result_digest env u item s =
     ''sha256:'' @ xo_result_digest env (external_identity env u item) (un_provider (unit_rspec u)) (un_zone (unit_rspec u))
       (s\<lparr>uws_digest := [], uws_provider := None,
          uws_conditions := sort_key c_type (map (\<lambda>c. c\<lparr>c_transition := 0\<rparr>) (uws_conditions s))\<rparr>)"

section \<open>Preparing the claims\<close>

definition stored_evidence :: "external_state \<Rightarrow> string \<Rightarrow> claim_evidence" where
  "stored_evidence st key = (case map_of (xs_withdrawals st) key of None \<Rightarrow> empty_evidence | Some e \<Rightarrow> e)"

text \<open>The evidence of a claim: that of the same identity, or a new one with the horizons its name was published with.\<close>

definition claim_start :: "('c, 'a) external_env_scheme \<Rightarrow> zone_unit \<Rightarrow> external_state \<Rightarrow> unit_withdrawal
    \<Rightarrow> unit_withdrawal_status \<Rightarrow> claim_evidence \<times> unit_withdrawal_status \<times> bool" where
  "claim_start env u st item s =
     (let key = unit_withdrawal_key item; ident = external_identity env u item in
      if map_of (xs_withdrawals st) key \<noteq> None \<and> xw_identity (stored_evidence st key) = ident then (stored_evidence st key, s, False)
      else
        let pub = (case map_of (xs_publications st) (uw_name item) of None \<Rightarrow> empty_publication | Some p \<Rightarrow> p);
            e = empty_evidence\<lparr>xw_identity := ident, xw_names := withdrawal_names env u item pub,
                  xw_missing_history := (uws_last_probe s \<noteq> None),
                  xw_positive := (case map_of (pb_positive pub) (uw_address item) of None \<Rightarrow> [] | Some hs \<Rightarrow> hs)\<rparr>
        in (forget e, invalidate_status s, True))"

text \<open>The clock went back, or the confirming probe is overdue.\<close>

definition stale_probe :: "unit_withdrawal_status \<Rightarrow> gotime \<Rightarrow> bool" where
  "stale_probe s now \<longleftrightarrow> (case uws_last_probe s of None \<Rightarrow> False
     | Some l \<Rightarrow> now < l \<or> (case uws_next_probe s of None \<Rightarrow> True | Some n \<Rightarrow> n + 300 * second < now))"

definition unreadable :: "string \<Rightarrow> decision" where
  "unreadable name = wd_decision (withdrawal_failed name ''required-views'' ''invalid-response'')"

definition prepare_claim :: "('c, 'a) external_env_scheme \<Rightarrow> zone_unit \<Rightarrow> string option \<Rightarrow> gotime \<Rightarrow> external_state
    \<Rightarrow> unit_withdrawal \<Rightarrow> claim_evidence \<times> unit_withdrawal_status \<times> bool" where
  "prepare_claim env u fp now st item =
     (let (e0, s0, fresh) = claim_start env u st item (claim_status item (old_result u item));
          s1 = s0\<lparr>uws_checked_names := xw_names e0, uws_sampled := is_wildcard (uw_name item)\<rparr>;
          d = unreadable (uw_name item) in
      if \<not> uw_allowed item \<or> \<not> valid_external_withdrawal u item then
        (let s2 = invalidate_status s1;
             s3 = s2\<lparr>uws_conditions := set_external env (uws_conditions s2) ''Accepted'' ConditionFalse
                    (if uw_allowed item then ''InvalidWithdrawal'' else ''NotAllowed'')
                    ''External DNS withdrawal intent is not accepted.'' (uw_observed item) now\<rparr>;
             s4 = set_claim_conditions env d now s3
         in (forget e0, s4\<lparr>uws_waiver := None, uws_conditions := xo_remove_condition env (uws_conditions s4) ''OverrideAccepted''\<rparr>, fresh))
      else
        let s2 = (if fp = None then s1 else s1\<lparr>uws_conditions := set_external env (uws_conditions s1) ''Accepted'' ConditionTrue ''Accepted''
                    ''External DNS withdrawal intent is accepted.'' (uw_observed item) now\<rparr>);
            s3 = (if co_find_condition env (uws_conditions s2) ''Withdrawn'' = None then set_claim_conditions env d now s2 else s2);
            moved = (fp \<noteq> None \<and> xw_policy e0 \<noteq> [] \<and> fp \<noteq> Some (xw_policy e0));
            (e1, s4) = (if moved then (forget e0, set_claim_conditions env (external_policy_changed (uw_name item)) now (invalidate_status s3)) else (e0, s3));
            late = stale_probe s4 now;
            (e2, s5) = (if late then ((forget e1)\<lparr>xw_schedule := (xw_schedule e1)\<lparr>ns_next := 0\<rparr>\<rparr>,
                           set_claim_conditions env d now (invalidate_status s4)) else (e1, s4));
            s6 = bind_external_waiver env item now s5;
            s7 = (if uws_digest s6 \<noteq> [] then s6\<lparr>uws_digest := external_result_digest env u item s6\<rparr> else s6)
        in (e2, s7, fresh \<or> moved \<or> late))"

fun prepare_claims :: "('c, 'a) external_env_scheme \<Rightarrow> zone_unit \<Rightarrow> string option \<Rightarrow> gotime \<Rightarrow> external_state \<Rightarrow> unit_withdrawal list
    \<Rightarrow> external_state \<times> unit_withdrawal_status list \<times> bool" where
  "prepare_claims env u fp now st [] = (st, [], False)"
| "prepare_claims env u fp now st (item # items) =
     (let (e, s, changed) = prepare_claim env u fp now st item;
          (st', ss, rest) = prepare_claims env u fp now
             (st\<lparr>xs_withdrawals := map_put (xs_withdrawals st) (unit_withdrawal_key item) e\<rparr>) items
      in (st', s # ss, changed \<or> rest))"

definition prepare_withdrawals :: "('c, 'a) external_env_scheme \<Rightarrow> zone_unit \<Rightarrow> string option \<Rightarrow> gotime \<Rightarrow> external_state
    \<Rightarrow> zone_unit \<times> external_state \<times> bool" where
  "prepare_withdrawals env u fp now st =
     (let items = un_withdrawals (unit_rspec u); keys = map unit_withdrawal_key items;
          (st1, ss, changed) = prepare_claims env u fp now st items
      in (put_status (\<lambda>s. s\<lparr>ust_withdrawals := ss\<rparr>) u,
          st1\<lparr>xs_withdrawals := filter (\<lambda>p. fst p \<in> set keys) (xs_withdrawals st1)\<rparr>,
          changed \<or> (\<exists>p \<in> set (xs_withdrawals st1). fst p \<notin> set keys)))"

section \<open>Selecting the due claims\<close>

definition claim_pending :: "external_state \<Rightarrow> string \<Rightarrow> gotime \<Rightarrow> string \<Rightarrow> bool" where
  "claim_pending st policy now key \<longleftrightarrow> \<not> (xw_policy (stored_evidence st key) = policy \<and> now < ns_next (xw_schedule (stored_evidence st key)))"

fun take_claims :: "(nat \<Rightarrow> bool) \<Rightarrow> (nat \<Rightarrow> nat) \<Rightarrow> nat \<Rightarrow> nat list \<Rightarrow> nat list" where
  "take_claims pending cost budget [] = []"
| "take_claims pending cost budget (i # is) =
     (if \<not> pending i then take_claims pending cost budget is
      else if budget < cost i then []
      else i # take_claims pending cost (budget - cost i) is)"

definition claim_cost :: "zone_unit \<Rightarrow> external_state \<Rightarrow> nat \<Rightarrow> nat" where
  "claim_cost u st i = length (xw_names (stored_evidence st (unit_withdrawal_key (un_withdrawals (unit_rspec u) ! i))))"

definition open_claims :: "zone_unit \<Rightarrow> nat list" where
  "open_claims u = (let items = un_withdrawals (unit_rspec u) in
     filter (\<lambda>i. uw_allowed (items ! i) \<and> valid_external_withdrawal u (items ! i)) [0..<length items])"

definition select_claims :: "zone_unit \<Rightarrow> external_state \<Rightarrow> string \<Rightarrow> gotime \<Rightarrow> nat \<Rightarrow> nat list" where
  "select_claims u st policy now budget =
     (let items = un_withdrawals (unit_rspec u) in
      take_claims (\<lambda>i. claim_pending st policy now (unit_withdrawal_key (items ! i))) (claim_cost u st) budget
        (due_order items (xs_withdrawal_cursor st) (open_claims u)))"

definition probe_total :: "zone_unit \<Rightarrow> external_state \<Rightarrow> nat list \<Rightarrow> nat" where
  "probe_total u st idx = sum_list (map (claim_cost u st) idx)"

section \<open>Probing\<close>

definition external_failure_code :: "bool \<times> string \<Rightarrow> string" where
  "external_failure_code e = (if fst e then ''timeout''
     else if snd e \<in> {''resolver-config'', ''invalid-response'', ''probe-limit'', ''chain-limit''} then snd e else ''transport'')"

definition claim_request :: "zone_unit \<Rightarrow> external_binding \<Rightarrow> zone_evidence option \<Rightarrow> unit_withdrawal \<Rightarrow> gotime \<Rightarrow> string \<Rightarrow> probe_request" where
  "claim_request u be evidence item due name =
     \<lparr>q_name = name, q_zone = uz_domain (un_zone (unit_rspec u)), q_expected = \<lparr>rr_a = [], rr_aaaa = [], rr_cname = []\<rparr>,
      q_policy = xb_policy be, q_due = due, q_zone_only = False, q_evidence = evidence, q_withdrawal = uw_address item\<rparr>"

text \<open>One checked name after the other; the tick counts the readings of the clock.\<close>

fun probe_names :: "('c, 'a) external_env_scheme \<Rightarrow> zone_unit \<Rightarrow> external_binding \<Rightarrow> zone_evidence option \<Rightarrow> unit_withdrawal \<Rightarrow> gotime
    \<Rightarrow> string list \<Rightarrow> nat \<Rightarrow> (string \<times> gotime) list \<Rightarrow> withdrawal_decision \<Rightarrow> nat \<times> (string \<times> gotime) list \<times> withdrawal_decision" where
  "probe_names env u be evidence item due [] k pos w = (k, pos, w)"
| "probe_names env u be evidence item due (name # ns) k pos w =
     (let request = claim_request u be evidence item due name;
          (observed, err) = xo_probe env k request;
          seen = evaluate_withdrawal (xo_policy_digest env) request observed;
          pos' = retain_claim name seen (xo_clock env k) pos;
          one = (case err of None \<Rightarrow> seen | Some e \<Rightarrow> withdrawal_failed name ''required-views'' (external_failure_code e));
          w' = w\<lparr>wd_cache := wd_cache w @ wd_cache one,
                 wd_decision := (if wd_status one = ConditionUnknown \<or> (wd_status one = ConditionFalse \<and> wd_status w = ConditionTrue)
                                 then wd_decision one else wd_decision w)\<rparr>
      in probe_names env u be evidence item due ns (Suc k) pos' w')"

definition observe_claim :: "('c, 'a) external_env_scheme \<Rightarrow> zone_unit \<Rightarrow> external_binding \<Rightarrow> zone_evidence option \<Rightarrow> decision
    \<Rightarrow> unit_withdrawal \<Rightarrow> claim_evidence \<Rightarrow> nat \<Rightarrow> nat \<times> (string \<times> gotime) list \<times> withdrawal_decision" where
  "observe_claim env u be evidence zone item e k =
     (if d_status zone \<noteq> ConditionTrue then
        (k, xw_positive e, if xb_policy_error be = None then withdrawal_failed (uw_name item) ''required-authorities'' ''invalid-response''
           else withdrawal_failed (uw_name item) ''configured-resolvers'' ''resolver-config'')
      else probe_names env u be evidence item (ns_next (xw_schedule e)) (xw_names e) k (xw_positive e)
             \<lparr>wd_decision = new_decision ConditionTrue ''WithdrawalVerified'' [], wd_cache = []\<rparr>)"

text \<open>What the observation says of the claim, given the policy it was made under.\<close>

definition claim_verdict :: "('c, 'a) external_env_scheme \<Rightarrow> external_binding \<Rightarrow> string list \<Rightarrow> decision \<Rightarrow> unit_withdrawal \<Rightarrow> gotime \<Rightarrow> gotime
    \<Rightarrow> withdrawal_decision \<Rightarrow> claim_evidence \<times> unit_withdrawal_status \<Rightarrow> claim_evidence \<times> unit_withdrawal_status \<times> decision" where
  "claim_verdict env be views zone item started now w0 es =
     (let (e0, s0) = es;
          w1 = (if now < started \<or> 300 * second < time_sub now started
                then w0\<lparr>wd_decision := wd_decision (withdrawal_failed (uw_name item) ''required-views'' ''timeout'')\<rparr> else w0);
          (e1, s1) = (if stale_probe s0 now then (forget e0, invalidate_status s0) else (e0, s0));
          changed = (xw_policy e1 \<noteq> [] \<and> (xw_policy e1 \<noteq> xb_fingerprint be \<or> uws_required_views s1 \<noteq> views));
          weakened = policy_weakened e1 (xb_policy be) views;
          (e2, s2, w2) = (if changed \<or> weakened
             then (forget e1, invalidate_status s1, w1\<lparr>wd_decision := external_policy_changed (uw_name item)\<rparr>) else (e1, s1, w1));
          e3 = (if d_status zone = ConditionTrue \<and> \<not> weakened then add_floor (xb_policy be) views e2 else e2);
          e4 = e3\<lparr>xw_policy := xb_fingerprint be\<rparr>;
          s3 = s2\<lparr>uws_policy := xo_views_digest env (xb_fingerprint be) views, uws_required_views := views\<rparr>;
          (s4, e5, r0) = withdrawal_window s3 e4 w2 now;
          r = (if d_reason r0 = ''NegativeTTLNotElapsed'' then r0\<lparr>d_message := ''Retired address '' @ uw_address item
                  @ '' is absent in every required view; waiting until ''
                  @ xo_format env (case uws_not_before s4 of None \<Rightarrow> 0 | Some t \<Rightarrow> t) @ '' for cache safety and a confirming probe.''\<rparr>
               else if d_reason r0 = ''WithdrawalVerified'' then r0\<lparr>d_message := ''Retired address '' @ uw_address item
                  @ '' was verified absent from '' @ uw_name item @ '' in every required view at '' @ xo_format env now @ ''.''\<rparr>
               else r0)
      in (e5, s4, r))"

definition probe_external_claim :: "('c, 'a) external_env_scheme \<Rightarrow> zone_unit \<Rightarrow> external_binding \<Rightarrow> zone_evidence option \<Rightarrow> decision
    \<Rightarrow> unit_withdrawal \<Rightarrow> nat \<Rightarrow> claim_evidence \<times> unit_withdrawal_status \<Rightarrow> claim_evidence \<times> unit_withdrawal_status \<times> nat" where
  "probe_external_claim env u be evidence zone item k es =
     (let started = xo_clock env k; views = required_external_views (xb_policy be) evidence;
          (k1, pos, w) = observe_claim env u be evidence zone item (fst es) (Suc k);
          now = xo_clock env k1;
          (e, s0, r) = claim_verdict env be views zone item started now w ((fst es)\<lparr>xw_positive := pos\<rparr>, snd es);
          sched = advance_schedule env k1 (xw_schedule e) (xw_identity e @ xo_views_digest env (xb_fingerprint be) views) r now;
          s1 = set_claim_conditions env r now (s0\<lparr>uws_last_probe := Some now, uws_next_probe := Some (ns_next sched)\<rparr>);
          s2 = bind_external_waiver env item now (s1\<lparr>uws_provider := Some (provider_data (xo_views_json env (preview views)))\<rparr>)
      in (e\<lparr>xw_schedule := sched\<rparr>, s2\<lparr>uws_digest := external_result_digest env u item s2\<rparr>, Suc k1))"

fun probe_due_claims :: "('c, 'a) external_env_scheme \<Rightarrow> external_binding \<Rightarrow> zone_evidence option \<Rightarrow> decision \<Rightarrow> nat list
    \<Rightarrow> zone_unit \<times> external_state \<times> nat \<Rightarrow> zone_unit \<times> external_state \<times> nat" where
  "probe_due_claims env be evidence zone [] acc = acc"
| "probe_due_claims env be evidence zone (i # is) (u, st, k) =
     (let item = un_withdrawals (unit_rspec u) ! i; key = unit_withdrawal_key item; ss = ust_withdrawals (unit_rstatus u);
          (e, s, k') = probe_external_claim env u be evidence zone item k (stored_evidence st key, ss ! i)
      in probe_due_claims env be evidence zone is
           (put_status (\<lambda>x. x\<lparr>ust_withdrawals := ss[i := s]\<rparr>) u,
            st\<lparr>xs_withdrawals := map_put (xs_withdrawals st) key e, xs_withdrawal_cursor := key\<rparr>, k'))"

definition next_claim_requeue :: "zone_unit \<Rightarrow> external_state \<Rightarrow> string \<Rightarrow> gotime \<Rightarrow> duration" where
  "next_claim_requeue u st policy now =
     (let keys = map (\<lambda>i. unit_withdrawal_key (un_withdrawals (unit_rspec u) ! i)) (open_claims u) in
      if \<exists>key \<in> set keys. claim_pending st policy now key then second
      else max second (fold (\<lambda>key next. min next (time_sub (ns_next (xw_schedule (stored_evidence st key))) now)) keys (300 * second)))"

section \<open>Losing the zone, and rejection\<close>

fun lose_claims :: "('c, 'a) external_env_scheme \<Rightarrow> gotime \<Rightarrow> unit_withdrawal list \<Rightarrow> unit_withdrawal_status list \<Rightarrow> external_state
    \<Rightarrow> unit_withdrawal_status list \<times> external_state" where
  "lose_claims env now (item # items) (s # ss) st =
     (if \<not> uw_allowed item then (let (ss', st') = lose_claims env now items ss st in (s # ss', st'))
      else
        let key = unit_withdrawal_key item; s1 = invalidate_status s;
            keep = (case co_find_condition env (uws_conditions s1) ''Withdrawn'' of None \<Rightarrow> False | Some c \<Rightarrow> c_reason c = ''PolicyChanged'');
            s2 = (if keep then s1 else set_claim_conditions env
                   (wd_decision (withdrawal_failed (uw_name item) ''required-authorities'' ''invalid-response'')) now s1);
            (ss', st') = lose_claims env now items ss
              (st\<lparr>xs_withdrawals := map_put (xs_withdrawals st) key (forget (stored_evidence st key))\<rparr>)
        in (s2 # ss', st'))"
| "lose_claims env now _ ss st = (ss, st)"

definition invalidate_zone_claims :: "('c, 'a) external_env_scheme \<Rightarrow> gotime \<Rightarrow> zone_unit \<times> external_state \<Rightarrow> zone_unit \<times> external_state" where
  "invalidate_zone_claims env now us =
     (let (ss, st) = lose_claims env now (un_withdrawals (unit_rspec (fst us))) (ust_withdrawals (unit_rstatus (fst us))) (snd us)
      in (put_status (\<lambda>x. x\<lparr>ust_withdrawals := ss\<rparr>) (fst us), st))"

definition reject_external_claim :: "('c, 'a) external_env_scheme \<Rightarrow> gotime \<Rightarrow> unit_withdrawal \<Rightarrow> unit_withdrawal_status \<Rightarrow> unit_withdrawal_status" where
  "reject_external_claim env now item s =
     (let s1 = set_claim_conditions env (wd_decision (withdrawal_failed (uw_name item) ''binding'' ''invalid-response'')) now (invalidate_status s);
          cs = set_external env (uws_conditions s1) ''Accepted'' ConditionFalse ''InvalidWithdrawal''
                 ''External DNS withdrawal binding is not accepted.'' (uw_observed item) now
      in s1\<lparr>uws_waiver := None, uws_conditions := xo_remove_condition env cs ''OverrideAccepted''\<rparr>)"

definition reject_evidence :: "unit_withdrawal \<Rightarrow> external_state \<Rightarrow> external_state" where
  "reject_evidence item st = (let key = unit_withdrawal_key item; e = forget (stored_evidence st key)
     in st\<lparr>xs_withdrawals := map_put (xs_withdrawals st) key (e\<lparr>xw_schedule := (xw_schedule e)\<lparr>ns_next := 0\<rparr>\<rparr>)\<rparr>)"

definition prior_state :: "('c, 'a) external_env_scheme \<Rightarrow> zone_unit \<Rightarrow> external_state" where
  "prior_state env u = (let p = ust_provider (unit_rstatus u) in
     load_external env p (case p of None \<Rightarrow> [] | Some s \<Rightarrow> xs_policy (xo_read_state env (ps_state s))))"

definition reject_external_withdrawals :: "('c, 'a) external_env_scheme \<Rightarrow> gotime \<Rightarrow> zone_unit \<Rightarrow> zone_unit" where
  "reject_external_withdrawals env now u =
     (let prior = prior_state env u; items = un_withdrawals (unit_rspec u);
          (u1, st1, changed) = prepare_withdrawals env u None now (prior\<lparr>xs_zone := empty_name_schedule, xs_names := []\<rparr>);
          st2 = fold reject_evidence items st1;
          u2 = put_status (\<lambda>x. x\<lparr>ust_withdrawals := map2 (reject_external_claim env now) items (ust_withdrawals x)\<rparr>) u1 in
      if (ust_provider (unit_rstatus u) \<noteq> None \<or> items \<noteq> []) \<and> prior \<noteq> st2
      then put_status (\<lambda>x. x\<lparr>ust_provider := Some \<lparr>ps_data = [], ps_state = xo_state_json env st2\<rparr>\<rparr>) u2 else u2)"

end
