(* ===== verification/External_Controller.thy ===== *)
theory External_Controller
  imports External_Claims
begin

text \<open>
  \<open>internal/go/providers/external/controllers/zoneunit\<close>: the results of record sets
  (\<open>status.go\<close>) and one pass of the external controller (\<open>controller.go\<close>). A pass is given what its
  reads return and yields the status it writes, with the time to the next pass or the error that ended it.
  The publications are pruned with one clock reading, where the code reads the clock for each of them. A
  private state read back is one the controller wrote, so its map of names is present, and encoding it as JSON succeeds.
\<close>

section \<open>The binding of a unit (observe)\<close>

datatype external_observation = Foreign | Unbound acceptance | Attached external_binding

definition unbound :: "condition_status \<Rightarrow> string \<Rightarrow> string \<Rightarrow> go_error + external_observation" where
  "unbound st reason message = Inr (Unbound \<lparr>ac_status = st, ac_reason = reason, ac_message = message\<rparr>)"

definition empty_object :: "('c, 'a) external_env_scheme \<Rightarrow> raw \<Rightarrow> bool" where
  "empty_object env r \<longleftrightarrow> r = [] \<or> xo_empty_object env r"

definition external_parameters :: "('c, 'a) external_env_scheme \<Rightarrow> provider \<Rightarrow> provider_version \<Rightarrow> zone_class \<Rightarrow> string + external_params" where
  "external_parameters env prov version zc =
     (case convert_zone_class_parameters (co_contract env) (Some prov) (Some version) (zc_parameters zc) (xo_class_context env zc) of
        Inl e \<Rightarrow> Inl (pe_message e) | Inr r \<Rightarrow> decode_params (xo_unmarshal env) r)"

definition external_class_accepted :: "('c, 'a) external_env_scheme \<Rightarrow> zone_class \<Rightarrow> bool" where
  "external_class_accepted env zc \<longleftrightarrow> \<not> deleting (zc_meta zc)
     \<and> (case co_find_condition env (zc_conditions zc) ''Accepted'' of None \<Rightarrow> False
        | Some c \<Rightarrow> c_status c = ConditionTrue \<and> c_observed c = om_generation (zc_meta zc))"

text \<open>The namespaces of the unit and its claims, with their labels; a missing namespace has none.\<close>

definition unit_namespaces :: "zone_unit \<Rightarrow> string list" where
  "unit_namespaces u = sort_compact (obr_namespace (uz_ref (un_zone (unit_rspec u)))
     # map ur_namespace (un_record_sets (unit_rspec u)) @ map uw_claim_namespace (un_withdrawals (unit_rspec u)))"

fun namespace_policies :: "decl_env \<Rightarrow> string list \<Rightarrow> go_error + (string \<times> label_map) list" where
  "namespace_policies d [] = Inr []"
| "namespace_policies d (n # ns) =
     (case de_namespace d n of Inl e \<Rightarrow> Inl e
      | Inr found \<Rightarrow> (case namespace_policies d ns of Inl e \<Rightarrow> Inl e
          | Inr m \<Rightarrow> Inr ((n, case found of None \<Rightarrow> [] | Some l \<Rightarrow> l) # m)))"

definition attach :: "('c, 'a) external_env_scheme \<Rightarrow> reader \<Rightarrow> zone_unit \<Rightarrow> zone_class \<Rightarrow> provider \<Rightarrow> external_params
    \<Rightarrow> go_error + external_observation" where
  "attach env rd u zc prov params =
     (let (policy, err) = xo_effective env (external_probe_policy params) in
      case namespace_policies (rd_decl rd) (unit_namespaces u) of
        Inl e \<Rightarrow> Inl e
      | Inr labels \<Rightarrow> Inr (Attached \<lparr>xb_class = zc, xb_provider = prov, xb_policy = policy,
          xb_fingerprint = xo_fingerprint env (om_uid (zc_meta zc)) (class_spec zc) (prov_uid prov) (prov_versions prov)
            (om_uid (unit_meta u)) (un_zone (unit_rspec u)) policy labels, xb_policy_error = err\<rparr>))"

definition observe_external_provider :: "('c, 'a) external_env_scheme \<Rightarrow> reader \<Rightarrow> zone_unit \<Rightarrow> zone_class \<Rightarrow> provider
    \<Rightarrow> go_error + external_observation" where
  "observe_external_provider env rd u zc prov =
     (case storage_version (Some prov) of
        None \<Rightarrow> unbound ConditionUnknown ''ProviderStorageVersionNotResolved'' ''provider storage version is not resolved''
      | Some storage \<Rightarrow>
        (case served_version prov (pr_version (zc_provider zc)) of
           None \<Rightarrow> unbound ConditionFalse ''InvalidProvider'' ''external provider requires its configured credentialless storage version''
         | Some version \<Rightarrow>
           if pvn_name storage \<noteq> pr_version (xo_binding env) \<or> pvn_identity version \<noteq> None \<or> pvn_identity storage \<noteq> None
           then unbound ConditionFalse ''InvalidProvider'' ''external provider requires its configured credentialless storage version''
           else if zc_identity zc \<noteq> None
           then unbound ConditionFalse ''InvalidIdentityRef'' ''spec.identityRef must be omitted for external DNS''
           else if \<not> external_class_accepted env zc
           then unbound ConditionFalse ''ZoneClassNotAccepted'' ''referenced ZoneClass is not accepted''
           else
             (case external_parameters env prov version zc of
                Inl e \<Rightarrow> unbound ConditionFalse ''InvalidProviderPayload'' ''external resolver parameters are invalid''
              | Inr params \<Rightarrow>
                (case zone_allowed_by_class (rd_decl rd) zc (obr_namespace (uz_ref (un_zone (unit_rspec u)))) of
                   Inl e \<Rightarrow> Inl e
                 | Inr False \<Rightarrow> unbound ConditionFalse ''NotAllowedByZoneClass'' ''Zone namespace is not allowed by ZoneClass''
                 | Inr True \<Rightarrow>
                   if \<not> empty_object env (uz_adoption (un_zone (unit_rspec u)))
                   then unbound ConditionFalse ''InvalidProviderPayload'' ''external DNS does not support adoption''
                   else attach env rd u zc prov params))))"

definition observe_external :: "('c, 'a) external_env_scheme \<Rightarrow> reader \<Rightarrow> zone_unit \<Rightarrow> go_error + external_observation" where
  "observe_external env rd u =
     (let ref = uz_class_ref (un_zone (unit_rspec u)) in
      case rd_class rd (obr_namespace ref, obr_name ref) of
        Inl e \<Rightarrow> Inl e
      | Inr None \<Rightarrow> unbound ConditionFalse ''InvalidZoneClassRef'' ''referenced ZoneClass was not found''
      | Inr (Some zc) \<Rightarrow>
        if zc_controller zc \<noteq> xo_controller env then Inr Foreign
        else if un_provider (unit_rspec u) \<noteq> xo_binding env \<or> pr_name (zc_provider zc) \<noteq> pr_name (xo_binding env)
        then unbound ConditionFalse ''InvalidProvider'' ''ZoneUnit provider is not handled by external controller''
        else
          (case rd_provider rd (pr_name (xo_binding env)) of
             Inl e \<Rightarrow> Inl e
           | Inr None \<Rightarrow> unbound ConditionFalse ''InvalidProvider'' ''referenced Provider was not found''
           | Inr (Some prov) \<Rightarrow> observe_external_provider env rd u zc prov))"

section \<open>Results (status.go)\<close>

definition prepared_result :: "unit_record_set_status list \<Rightarrow> unit_record_set \<Rightarrow> unit_record_set_status" where
  "prepared_result old item =
     (let found = (case by_key (\<lambda>s. us_namespace s @ ''/'' @ us_name s) old (external_item_key item) of None \<Rightarrow> empty_set_status | Some s \<Rightarrow> s);
          s = (if us_uid found \<noteq> ur_uid item \<or> us_observed found \<noteq> ur_observed item then empty_set_status else found);
          s1 = s\<lparr>us_namespace := ur_namespace item, us_name := ur_name item, us_uid := ur_uid item, us_observed := ur_observed item,
                 us_deletion_completed := (ur_deletion item \<and> ur_uid item \<noteq> [])\<rparr>
      in if ur_deletion item \<or> \<not> is_allowed item \<or> ur_uid item = [] then s1\<lparr>us_provider := None, us_conditions := []\<rparr> else s1)"

definition prepare_results :: "zone_unit \<Rightarrow> zone_unit" where
  "prepare_results u = put_status (\<lambda>s. s\<lparr>ust_record_sets := map (prepared_result (ust_record_sets s)) (un_record_sets (unit_rspec u)),
     ust_zone := Some (unit_zone u)\<rparr>) u"

definition reset_programmed :: "('c, 'a) external_env_scheme \<Rightarrow> gotime \<Rightarrow> unit_record_set_status \<Rightarrow> unit_record_set_status" where
  "reset_programmed env now s = s\<lparr>us_provider := None, us_conditions := set_external env (us_conditions s) ''Programmed'' ConditionUnknown
     ''Reconciling'' ''DNS verification is pending current inputs.'' (us_observed s) now\<rparr>"

definition current_decision :: "('c, 'a) core_env_scheme \<Rightarrow> condition list \<Rightarrow> decision" where
  "current_decision env cs = (case co_find_condition env cs ''Programmed'' of
       None \<Rightarrow> new_decision ConditionUnknown ''Reconciling'' ''DNS verification is pending.''
     | Some c \<Rightarrow> new_decision (c_status c) (c_reason c) (c_message c))"

definition public_data :: "('c, 'a) external_env_scheme \<Rightarrow> policy \<Rightarrow> string \<Rightarrow> bool \<Rightarrow> decision \<Rightarrow> gotime \<Rightarrow> gotime \<Rightarrow> provider_status" where
  "public_data env policy name sampled d now next =
     provider_data (xo_public_json env policy name sampled d (map_option (\<lambda>t. now + seconds t) (d_negative d)) now next)"

definition set_zone_outcome :: "('c, 'a) external_env_scheme \<Rightarrow> policy \<Rightarrow> decision \<Rightarrow> gotime \<Rightarrow> gotime \<Rightarrow> zone_unit \<Rightarrow> zone_unit" where
  "set_zone_outcome env policy d now next u =
     (let z = unit_zone u; gen = uz_observed (un_zone (unit_rspec u)) in
      put_status (\<lambda>s. s\<lparr>ust_zone := Some \<lparr>uzs_name_servers = d_nameservers d,
        uzs_provider = Some (public_data env policy (uz_domain (un_zone (unit_rspec u))) False d now next),
        uzs_conditions = set_external env
          (set_external env (uzs_conditions z) ''Accepted'' ConditionTrue ''Accepted'' ''External DNS Zone binding is accepted.'' gen now)
          ''Programmed'' (d_status d) (d_reason d) (d_message d) gen now\<rparr>\<rparr>) u)"

definition update_sets :: "(nat \<Rightarrow> unit_record_set_status \<Rightarrow> unit_record_set_status) \<Rightarrow> nat list \<Rightarrow> zone_unit \<Rightarrow> zone_unit" where
  "update_sets f idx u = put_status (\<lambda>s. s\<lparr>ust_record_sets := fold (\<lambda>i ss. ss[i := f i (ss ! i)]) idx (ust_record_sets s)\<rparr>) u"

definition set_outcome :: "('c, 'a) external_env_scheme \<Rightarrow> provider_status \<Rightarrow> decision \<Rightarrow> gotime \<Rightarrow> unit_record_set_status
    \<Rightarrow> unit_record_set_status" where
  "set_outcome env data d now s = s\<lparr>us_provider := Some data, us_conditions := set_external env
     (set_external env (us_conditions s) ''Accepted'' ConditionTrue ''Accepted'' ''External DNS record intent is accepted.'' (us_observed s) now)
     ''Programmed'' (d_status d) (d_reason d) (d_message d) (us_observed s) now\<rparr>"

definition set_group_outcome :: "('c, 'a) external_env_scheme \<Rightarrow> name_group \<Rightarrow> policy \<Rightarrow> decision \<Rightarrow> gotime \<Rightarrow> gotime \<Rightarrow> zone_unit \<Rightarrow> zone_unit" where
  "set_group_outcome env g policy d now next =
     update_sets (\<lambda>_. set_outcome env (public_data env policy (ng_checked g) (ng_sampled g) d now next) d now) (ng_items g)"

definition unit_reason :: "decision \<Rightarrow> condition_status \<times> string" where
  "unit_reason d =
     (if d_status d = ConditionTrue then (ConditionTrue, ''Programmed'')
      else if d_reason d = ''DNSProbeFailed'' then (ConditionUnknown, ''ProviderUnavailable'')
      else if d_status d = ConditionUnknown then (ConditionUnknown, ''Reconciling'')
      else if d_reason d = ''DNSNameNotFound'' then (ConditionFalse, ''ExternalResourceNotFound'')
      else (ConditionFalse, ''ExternalResourceMismatch''))"

definition worse :: "('c, 'a) external_env_scheme \<Rightarrow> unit_record_set \<times> unit_record_set_status \<Rightarrow> decision \<Rightarrow> decision" where
  "worse env p d =
     (if \<not> is_allowed (fst p) \<or> ur_deletion (fst p) then d
      else let c = current_decision env (us_conditions (snd p)) in
        if d_status d \<noteq> ConditionFalse \<and> (d_status c = ConditionFalse \<or> (d_status c = ConditionUnknown \<and> d_status d = ConditionTrue))
        then c else d)"

definition aggregate_decision :: "('c, 'a) external_env_scheme \<Rightarrow> zone_unit \<Rightarrow> decision" where
  "aggregate_decision env u = fold (worse env) (zip (un_record_sets (unit_rspec u)) (ust_record_sets (unit_rstatus u)))
     (current_decision env (uzs_conditions (unit_zone u)))"

definition set_aggregate :: "('c, 'a) external_env_scheme \<Rightarrow> gotime \<Rightarrow> zone_unit \<Rightarrow> zone_unit" where
  "set_aggregate env now u = (let d = aggregate_decision env u; (st, reason) = unit_reason d in
     put_status (\<lambda>s. s\<lparr>ust_conditions := set_external env (ust_conditions s) ''Programmed'' st reason (d_message d)
       (om_generation (unit_meta u)) now\<rparr>) u)"

definition unaccepted_set :: "('c, 'a) external_env_scheme \<Rightarrow> string \<Rightarrow> gotime \<Rightarrow> unit_record_set \<Rightarrow> unit_record_set_status
    \<Rightarrow> unit_record_set_status" where
  "unaccepted_set env message now item s =
     (if ur_deletion item then s
      else reset_programmed env now (s\<lparr>us_conditions := set_external env (us_conditions s) ''Accepted'' ConditionFalse ''ZoneNotAccepted''
        message (us_observed s) now\<rparr>))"

definition reject_external :: "('c, 'a) external_env_scheme \<Rightarrow> acceptance \<Rightarrow> gotime \<Rightarrow> zone_unit \<Rightarrow> zone_unit" where
  "reject_external env r now u =
     (let z = unit_zone u; gen = uz_observed (un_zone (unit_rspec u)); message = ac_message r;
          z' = \<lparr>uzs_name_servers = [], uzs_provider = None, uzs_conditions = set_external env
                  (set_external env (uzs_conditions z) ''Accepted'' (ac_status r) (ac_reason r) message gen now)
                  ''Programmed'' ConditionUnknown ''Reconciling'' message gen now\<rparr>
      in set_aggregate env now (reject_external_withdrawals env now (put_status (\<lambda>s. s\<lparr>ust_zone := Some z',
           ust_record_sets := map2 (unaccepted_set env message now) (un_record_sets (unit_rspec u)) (ust_record_sets s)\<rparr>) u)))"

section \<open>The steps of a pass\<close>

record external_pass =
  ep_unit :: zone_unit
  ep_state :: external_state
  ep_tick :: nat

definition schedule_of_name :: "external_state \<Rightarrow> string \<Rightarrow> name_schedule" where
  "schedule_of_name st name = (case map_of (xs_names st) name of None \<Rightarrow> empty_name_schedule | Some s \<Rightarrow> s)"

definition current_receipt :: "('c, 'a) external_env_scheme \<Rightarrow> unit_record_set_status \<Rightarrow> bool" where
  "current_receipt env s = (case co_find_condition env (us_conditions s) ''Programmed'' of None \<Rightarrow> False
     | Some c \<Rightarrow> c_observed c = us_observed s)"

definition accept_missing :: "('c, 'a) external_env_scheme \<Rightarrow> gotime \<Rightarrow> unit_record_set_status \<Rightarrow> unit_record_set_status" where
  "accept_missing env now s = (if co_find_condition env (us_conditions s) ''Accepted'' = None
     then s\<lparr>us_conditions := set_external env (us_conditions s) ''Accepted'' ConditionTrue ''Accepted''
       ''External DNS record intent is accepted.'' (us_observed s) now\<rparr> else s)"

text \<open>A group whose receipts or schedule are not of the current inputs starts over.\<close>

definition prepare_group :: "('c, 'a) external_env_scheme \<Rightarrow> gotime \<Rightarrow> name_group \<Rightarrow> zone_unit \<times> external_state \<Rightarrow> zone_unit \<times> external_state" where
  "prepare_group env now g us =
     (let (u, st) = us; ss = ust_record_sets (unit_rstatus u);
          current = list_all (\<lambda>i. current_receipt env (ss ! i)) (ng_items g);
          u1 = update_sets (\<lambda>_. accept_missing env now) (ng_items g) u in
      if \<not> current \<or> ns_fingerprint (schedule_of_name st (ng_name g)) \<noteq> ng_fingerprint g
      then (update_sets (\<lambda>_. reset_programmed env now) (ng_items g) u1, st\<lparr>xs_names := map_del (xs_names st) (ng_name g)\<rparr>)
      else (u1, st))"

definition split_budget :: "zone_unit \<Rightarrow> external_state \<Rightarrow> string \<Rightarrow> gotime \<Rightarrow> name_group list \<Rightarrow> name_group list \<times> nat list" where
  "split_budget u st policy now groups =
     (let due = select_due groups st now; claims = select_claims u st policy now max_names_per_pass in
      if due = [] \<or> claims = [] then (due, claims)
      else let half = select_claims u st policy now (max_names_per_pass div 2)
           in (take (max_names_per_pass - probe_total u st half) due, half))"

definition zone_request :: "zone_unit \<Rightarrow> external_binding \<Rightarrow> probe_request" where
  "zone_request u be = \<lparr>q_name = uz_domain (un_zone (unit_rspec u)), q_zone = uz_domain (un_zone (unit_rspec u)),
     q_expected = \<lparr>rr_a = [], rr_aaaa = [], rr_cname = []\<rparr>, q_policy = xb_policy be, q_due = 0, q_zone_only = True, q_evidence = None,
     q_withdrawal = []\<rparr>"

definition probe_zone :: "('c, 'a) external_env_scheme \<Rightarrow> nat \<Rightarrow> zone_unit \<Rightarrow> external_binding \<Rightarrow> decision \<times> zone_evidence option" where
  "probe_zone env k u be =
     (let req = zone_request u be in
      if xb_policy_error be \<noteq> None then (failed (q_zone req) ''configured-resolvers'' ''resolver-config'', None)
      else if p_expected_ns (xb_policy be) = [] then (evaluate_zone req None, None)
      else (case xo_probe env k req of (observed, err) \<Rightarrow>
        (case err of None \<Rightarrow> evaluate_zone req (r_zone observed)
         | Some e \<Rightarrow> failed (q_zone req) ''required-views'' (external_failure_code e), r_zone observed)))"

definition zone_is_due :: "('c, 'a) external_env_scheme \<Rightarrow> zone_unit \<Rightarrow> external_binding \<Rightarrow> external_state \<Rightarrow> gotime \<Rightarrow> bool" where
  "zone_is_due env u be st now \<longleftrightarrow> ns_fingerprint (xs_zone st) \<noteq> xb_fingerprint be \<or> \<not> now < ns_next (xs_zone st)
     \<or> (case co_find_condition env (uzs_conditions (unit_zone u)) ''Programmed'' of None \<Rightarrow> True
        | Some c \<Rightarrow> c_observed c \<noteq> uz_observed (un_zone (unit_rspec u)))"

text \<open>The zone is probed first when anything is probed under it.\<close>

definition settle_zone :: "('c, 'a) external_env_scheme \<Rightarrow> external_binding \<Rightarrow> bool \<Rightarrow> external_pass
    \<Rightarrow> external_pass \<times> decision \<times> zone_evidence option" where
  "settle_zone env be probed p =
     (let u = ep_unit p; k = ep_tick p in
      if \<not> probed then (p, current_decision env (uzs_conditions (unit_zone u)), None)
      else
        let (d, evidence) = probe_zone env k u be; now = xo_clock env k;
            z = advance_schedule env k (xs_zone (ep_state p)) (xb_fingerprint be) d now
        in (\<lparr>ep_unit = set_zone_outcome env (xb_policy be) d now (ns_next z) u, ep_state = (ep_state p)\<lparr>xs_zone := z\<rparr>, ep_tick = Suc k\<rparr>,
            d, evidence))"

definition valid_body :: "unit_record_set \<Rightarrow> bool" where
  "valid_body i = (let p = ur_payload i in
     (if ur_type i = TypeA then list_of (rp_a p) \<noteq> [] \<and> rp_aaaa p = None \<and> rp_cname p = None
      else if ur_type i = TypeAAAA then list_of (rp_aaaa p) \<noteq> [] \<and> rp_a p = None \<and> rp_cname p = None
      else if ur_type i = TypeCNAME then rp_cname p \<noteq> None \<and> rp_cname p \<noteq> Some [] \<and> ur_owner i \<noteq> ''@'' \<and> rp_a p = None \<and> rp_aaaa p = None
      else False)
     \<and> rp_txt p = None \<and> rp_mx p = None \<and> rp_caa p = None \<and> rp_ns p = None)"

definition invalid_item :: "('c, 'a) external_env_scheme \<Rightarrow> unit_record_set \<Rightarrow> (string \<times> string) option" where
  "invalid_item env i =
     (if \<not> is_allowed i \<or> ur_deletion i \<or> ur_uid i = [] \<or> ur_observed i \<le> 0
      then Some (''DeniedByPolicy'', ''record claim is not allowed or not bound to a current incarnation'')
      else if \<not> empty_object env (ur_options i) \<or> \<not> empty_object env (ur_adoption i) \<or> (case ur_ttl i of None \<Rightarrow> True | Some t \<Rightarrow> t < 1)
      then Some (''InvalidProviderPayload'', ''external DNS requires a standard TTL and no options or adoption'')
      else if \<not> valid_body i
      then Some (''InvalidProviderPayload'', ''external DNS supports only standard A, AAAA and CNAME bodies'')
      else None)"

definition validate_group :: "('c, 'a) external_env_scheme \<Rightarrow> zone_unit \<Rightarrow> name_group \<Rightarrow> (string \<times> string) option" where
  "validate_group env u g =
     (if rr_cname (ng_expected g) \<noteq> [] \<and> (rr_a (ng_expected g) \<noteq> [] \<or> rr_aaaa (ng_expected g) \<noteq> [])
      then Some (''InvalidProviderPayload'', ''CNAME must not coexist with address records'')
      else (case List.map_filter (\<lambda>i. invalid_item env (un_record_sets (unit_rspec u) ! i)) (ng_items g) of [] \<Rightarrow> None | e # _ \<Rightarrow> Some e))"

definition group_request :: "zone_unit \<Rightarrow> external_binding \<Rightarrow> zone_evidence option \<Rightarrow> name_group \<Rightarrow> gotime \<Rightarrow> probe_request" where
  "group_request u be evidence g due = \<lparr>q_name = ng_checked g, q_zone = uz_domain (un_zone (unit_rspec u)), q_expected = ng_expected g,
     q_policy = xb_policy be, q_due = due, q_zone_only = False, q_evidence = evidence, q_withdrawal = []\<rparr>"

text \<open>The decision of one group, with the horizons it observed and the tick after it.\<close>

definition decide_group :: "('c, 'a) external_env_scheme \<Rightarrow> external_binding \<Rightarrow> decision \<Rightarrow> zone_evidence option \<Rightarrow> gotime \<Rightarrow> name_group
    \<Rightarrow> zone_unit \<Rightarrow> external_state \<Rightarrow> nat \<Rightarrow> decision \<times> external_state \<times> nat" where
  "decide_group env be zone evidence now g u st k =
     (case validate_group env u g of
        Some (reason, message) \<Rightarrow> (new_decision ConditionUnknown ''Reconciling'' message, st, k)
      | None \<Rightarrow>
        if d_status zone \<noteq> ConditionTrue then (zone, st, k)
        else
          let old = schedule_of_name st (ng_name g);
              req = group_request u be evidence g (if ns_next old = 0 then now else ns_next old);
              (observed, err) = xo_probe env k req
          in (case err of None \<Rightarrow> external_evaluate req observed | Some e \<Rightarrow> failed (ng_checked g) ''required-views'' (external_failure_code e),
              retain_group env g req observed (xo_clock env k) st, Suc k))"

definition refuse_item :: "('c, 'a) external_env_scheme \<Rightarrow> gotime \<Rightarrow> string \<Rightarrow> string \<Rightarrow> int \<Rightarrow> unit_record_set_status \<Rightarrow> unit_record_set_status" where
  "refuse_item env now reason message gen s = reset_programmed env now
     (s\<lparr>us_conditions := set_external env (us_conditions s) ''Accepted'' ConditionFalse reason message gen now\<rparr>)"

definition settle_group :: "('c, 'a) external_env_scheme \<Rightarrow> external_binding \<Rightarrow> decision \<Rightarrow> zone_evidence option \<Rightarrow> gotime \<Rightarrow> name_group
    \<Rightarrow> external_pass \<Rightarrow> external_pass" where
  "settle_group env be zone evidence now g p =
     (let u = ep_unit p; old = schedule_of_name (ep_state p) (ng_name g);
          (d, st, k) = decide_group env be zone evidence now g u (ep_state p) (ep_tick p);
          completed = xo_clock env k; sched = advance_schedule env k old (ng_fingerprint g) d completed;
          u' = (case validate_group env u g of
             Some (reason, message) \<Rightarrow> update_sets (\<lambda>i. refuse_item env now reason message (ur_observed (un_record_sets (unit_rspec u) ! i)))
               (ng_items g) u
           | None \<Rightarrow> set_group_outcome env g (xb_policy be) d completed (ns_next sched) u)
      in \<lparr>ep_unit = u', ep_state = st\<lparr>xs_names := map_put (xs_names st) (ng_name g) sched, xs_cursor := ng_name g\<rparr>, ep_tick = Suc k\<rparr>)"

text \<open>A zone that lost its verification takes every earlier success with it; two clock readings an item.\<close>

definition lose_item :: "('c, 'a) external_env_scheme \<Rightarrow> policy \<Rightarrow> decision \<Rightarrow> name_group \<Rightarrow> nat \<Rightarrow> external_pass \<Rightarrow> external_pass" where
  "lose_item env policy zone g i p =
     (let k = ep_tick p; next = ns_next (xs_zone (ep_state p)) in
      p\<lparr>ep_unit := update_sets (\<lambda>_ s. s\<lparr>us_provider := Some (public_data env policy (ng_checked g) (ng_sampled g) zone (xo_clock env k) next),
            us_conditions := set_external env (us_conditions s) ''Programmed'' (d_status zone) (d_reason zone) (d_message zone) (us_observed s)
              (xo_clock env (Suc k))\<rparr>) [i] (ep_unit p),
        ep_tick := k + 2\<rparr>)"

definition lose_group :: "('c, 'a) external_env_scheme \<Rightarrow> policy \<Rightarrow> decision \<Rightarrow> name_group \<Rightarrow> external_pass \<Rightarrow> external_pass" where
  "lose_group env policy zone g p = fold (lose_item env policy zone g) (ng_items g) p"

section \<open>One pass (Reconcile)\<close>

record external_world =
  ew_unit :: "go_error + zone_unit option"
  ew_cache :: reader
  ew_live :: reader
  ew_live_unit :: "go_error + zone_unit option"
  ew_patch :: "go_error option"

type_synonym external_outcome = "unit_status option \<times> (go_error + duration)"

definition patch_external :: "external_world \<Rightarrow> zone_unit \<Rightarrow> zone_unit \<Rightarrow> duration \<Rightarrow> external_outcome" where
  "patch_external w base u requeue =
     (let status = (unit_rstatus u)\<lparr>ust_observed := om_generation (unit_meta u)\<rparr> in
      if status = unit_rstatus base then (None, Inr requeue)
      else (Some status, case ew_patch w of None \<Rightarrow> Inr requeue | Some e \<Rightarrow> Inl e))"

definition still_attached :: "('c, 'a) external_env_scheme \<Rightarrow> external_world \<Rightarrow> zone_unit \<Rightarrow> external_binding \<Rightarrow> zone_unit \<Rightarrow> go_error + bool" where
  "still_attached env w u be fresh =
     (if om_uid (unit_meta fresh) \<noteq> om_uid (unit_meta u) \<or> om_generation (unit_meta fresh) \<noteq> om_generation (unit_meta u)
         \<or> unit_rspec fresh \<noteq> unit_rspec u \<or> om_deletion (unit_meta fresh) \<noteq> om_deletion (unit_meta u) then Inr False
      else (case observe_external env (ew_live w) fresh of
          Inl e \<Rightarrow> Inl e
        | Inr (Attached current) \<Rightarrow> Inr (xb_fingerprint current = xb_fingerprint be
            \<and> (xb_policy_error current \<noteq> None) = (xb_policy_error be \<noteq> None))
        | Inr _ \<Rightarrow> Inr False))"

text \<open>The state after the probes: the pass, whether the zone was probed, and whether the state must be written.\<close>

definition external_probes :: "('c, 'a) external_env_scheme \<Rightarrow> external_binding \<Rightarrow> zone_unit \<Rightarrow> external_pass \<times> bool" where
  "external_probes env be u0 =
     (let now = xo_clock env 0; fp = xb_fingerprint be;
          st0 = load_external env (ust_provider (unit_rstatus u0)) fp;
          groups = group_names env u0 fp; active = map ng_name groups;
          (u1, st1, changed) = prepare_withdrawals env u0 (Some fp) now st0;
          (u2, st2) = fold (prepare_group env now) groups (u1, st1);
          pruned = (\<exists>q \<in> set (xs_names st2). fst q \<notin> set active);
          st3 = st2\<lparr>xs_names := filter (\<lambda>q. fst q \<in> set active) (xs_names st2)\<rparr>;
          (due, claims) = split_budget u2 st3 fp now groups;
          probed = (zone_is_due env u2 be st3 now \<or> ((due \<noteq> [] \<or> claims \<noteq> [])
             \<and> d_status (current_decision env (uzs_conditions (unit_zone u2))) = ConditionTrue));
          (p4, zone, evidence) = settle_zone env be probed \<lparr>ep_unit = u2, ep_state = st3, ep_tick = 1\<rparr>;
          p5 = fold (settle_group env be zone evidence now) due p4;
          lost = (probed \<and> d_status zone \<noteq> ConditionTrue);
          refused = map ng_name (filter (\<lambda>g. validate_group env u2 g \<noteq> None) due);
          p6 = (if lost then fold (lose_group env (xb_policy be) zone) (filter (\<lambda>g. ng_name g \<notin> set refused) groups) p5 else p5);
          (u7, st7, k7) = probe_due_claims env be evidence zone claims (ep_unit p6, ep_state p6, ep_tick p6);
          (u8, st8) = (if lost then invalidate_zone_claims env (xo_clock env k7) (u7, st7) else (u7, st7));
          k8 = (if lost then Suc k7 else k7);
          dead = (\<lambda>q. fst q \<notin> set active \<and> \<not> publication_live (snd q) (xo_clock env k8));
          st9 = st8\<lparr>xs_publications := filter (\<lambda>q. \<not> dead q) (xs_publications st8)\<rparr>
      in (\<lparr>ep_unit = u8, ep_state = st9, ep_tick = Suc k8\<rparr>,
          probed \<or> due \<noteq> [] \<or> claims \<noteq> [] \<or> pruned \<or> list_ex dead (xs_publications st8) \<or> changed \<or> lost))"

definition finish_external :: "('c, 'a) external_env_scheme \<Rightarrow> external_world \<Rightarrow> external_binding \<Rightarrow> zone_unit \<Rightarrow> zone_unit \<Rightarrow> external_outcome" where
  "finish_external env w be base u0 =
     (let (p, save) = external_probes env be u0; u = ep_unit p; k = ep_tick p; fp = xb_fingerprint be in
      case ew_live_unit w of
        Inl e \<Rightarrow> (None, Inl e)
      | Inr None \<Rightarrow> (None, Inr 0)
      | Inr (Some fresh) \<Rightarrow>
        (case still_attached env w u be fresh of
           Inl e \<Rightarrow> (None, Inl e)
         | Inr False \<Rightarrow> (None, Inr second)
         | Inr True \<Rightarrow>
           let u1 = (if save then put_status (\<lambda>s. s\<lparr>ust_provider := Some \<lparr>ps_data = [], ps_state = xo_state_json env (ep_state p)\<rparr>\<rparr>) u else u);
               u2 = set_aggregate env (xo_clock env k) u1;
               next = min (next_requeue (group_names env u0 fp) (ep_state p) (xo_clock env (k + 1)))
                          (next_claim_requeue u (ep_state p) fp (xo_clock env (k + 2)))
           in patch_external w base u2 next))"

definition complete_deletions :: "zone_unit \<Rightarrow> zone_unit" where
  "complete_deletions u = put_status (\<lambda>s. s\<lparr>ust_record_sets := map2 (\<lambda>i x. x\<lparr>us_deletion_completed := (ur_uid i \<noteq> [])\<rparr>)
     (un_record_sets (unit_rspec u)) (ust_record_sets s)\<rparr>) u"

definition reconcile_external :: "('c, 'a) external_env_scheme \<Rightarrow> external_world \<Rightarrow> external_outcome" where
  "reconcile_external env w =
     (case ew_unit w of
        Inl e \<Rightarrow> (None, Inl e)
      | Inr None \<Rightarrow> (None, Inr 0)
      | Inr (Some base) \<Rightarrow>
        if pr_name (un_provider (unit_rspec base)) \<noteq> pr_name (xo_binding env) then (None, Inr 0)
        else
          (case observe_external env (ew_cache w) base of
             Inl e \<Rightarrow> (None, Inl e)
           | Inr Foreign \<Rightarrow> (None, Inr 0)
           | Inr found \<Rightarrow>
             let u0 = prepare_results base; u = (if deleting (unit_meta base) then complete_deletions u0 else u0) in
             if deleting (unit_meta base) \<and> un_withdrawals (unit_rspec base) = [] then patch_external w base u 0
             else (case found of
                 Unbound r \<Rightarrow> patch_external w base (reject_external env r (xo_clock env 0) u) (30 * second)
               | Attached be \<Rightarrow> finish_external env w be base u
               | Foreign \<Rightarrow> (None, Inr 0))))"

end
