(* ===== verification/External_Window.thy ===== *)
theory External_Window
  imports External_Claims
begin

text \<open>
  What the external provider needs to report a retired address as withdrawn: every checked name was
  observed free of it in this pass, under a policy no weaker than any before, after an absence that outlasts
  every horizon a cache may hold.
\<close>

section \<open>The window\<close>

lemma forget_simps [simp]:
  "xw_negative (forget e) = []" "xw_window_start (forget e) = 0" "xw_positive (forget e) = xw_positive e" "xw_floor (forget e) = xw_floor e"
  "xw_views (forget e) = xw_views e" "xw_missing_history (forget e) = xw_missing_history e" "xw_policy (forget e) = xw_policy e"
  "xw_names (forget e) = xw_names e" "xw_identity (forget e) = xw_identity e" "xw_schedule (forget e) = xw_schedule e"
  by (simp_all add: forget_def)

lemma invalidate_status_simps [simp]:
  "uws_absent_since (invalidate_status s) = None" "uws_not_before (invalidate_status s) = None"
  "uws_last_probe (invalidate_status s) = uws_last_probe s" "uws_next_probe (invalidate_status s) = uws_next_probe s"
  "uws_required_views (invalidate_status s) = uws_required_views s" "uws_conditions (invalidate_status s) = uws_conditions s"
  by (simp_all add: invalidate_status_def)

lemma note_negative_ge: "map_get m k \<le> map_get (note_negative c m) k"
  by (auto simp: note_negative_def Let_def split: option.splits)

lemma fold_note_negative_ge: "map_get m k \<le> map_get (fold note_negative cs m) k"
  by (induction cs arbitrary: m) (auto intro: order_trans [OF note_negative_ge])

lemma fold_note_negative_item:
  assumes "c \<in> set cs" and "ce_negative c = Some t"
  shows "t \<le> map_get (fold note_negative cs m) (ce_view c @ ''/'' @ ce_qtype c)"
  using assms(1)
proof (induction cs arbitrary: m)
  case (Cons x cs)
  have "t \<le> map_get (note_negative c m) (ce_view c @ ''/'' @ ce_qtype c)" by (simp add: note_negative_def assms(2) Let_def)
  with Cons fold_note_negative_ge [of "note_negative c m" _ cs] show ?case by (auto intro: order_trans)
qed simp

lemma fold_max_ge_on: "b \<le> fold (\<lambda>p t. max t (f p)) ps (b :: int)"
  by (induction ps arbitrary: b) (auto intro: order_trans [OF max.cobounded1])

lemma fold_max_pos_on: "p \<in> set ps \<Longrightarrow> f p \<le> fold (\<lambda>p t. max t (f p)) ps (b :: int)"
  by (induction ps arbitrary: b) (auto intro: order_trans [OF _ fold_max_ge_on])

lemma claim_horizon_bounds:
  "start \<le> claim_horizon start nb pos neg" "nb = Some t \<Longrightarrow> t \<le> claim_horizon start nb pos neg"
  "(k, e) \<in> set pos \<Longrightarrow> e \<le> claim_horizon start nb pos neg"
  "(k, n) \<in> set neg \<Longrightarrow> start + seconds n \<le> claim_horizon start nb pos neg"
proof -
  let ?b = "case nb of None \<Rightarrow> start | Some t \<Rightarrow> max start t"
  let ?p = "fold (\<lambda>p t. max t (snd p)) pos ?b"
  have up: "?b \<le> ?p" "?p \<le> claim_horizon start nb pos neg" by (simp_all add: claim_horizon_def fold_max_ge_on)
  have "start \<le> ?b" by (simp split: option.split)
  with up show "start \<le> claim_horizon start nb pos neg" by linarith
  show "nb = Some t \<Longrightarrow> t \<le> claim_horizon start nb pos neg" using up by (simp add: max_def split: if_splits)
  show "(k, e) \<in> set pos \<Longrightarrow> e \<le> claim_horizon start nb pos neg"
    using fold_max_pos_on [of "(k, e)" pos snd ?b] up(2) by simp
  show "(k, n) \<in> set neg \<Longrightarrow> start + seconds n \<le> claim_horizon start nb pos neg"
    using fold_max_pos_on [of "(k, n)" neg "\<lambda>p. start + seconds (snd p)" ?p] by (simp add: claim_horizon_def)
qed

text \<open>A claim with a live window: an absence recorded by an earlier probe, with its precise start.\<close>

definition absent_before :: "unit_withdrawal_status \<Rightarrow> claim_evidence \<Rightarrow> gotime \<Rightarrow> bool" where
  "absent_before s e now \<longleftrightarrow> uws_absent_since s \<noteq> None \<and> xw_window_start e \<noteq> 0 \<and> (\<exists>t. uws_last_probe s = Some t \<and> t < now)"

text \<open>Every horizon has passed: those of the positive answers, and of the negative ones since the start of the window.\<close>

definition caches_expired :: "unit_withdrawal_status \<Rightarrow> claim_evidence \<Rightarrow> withdrawal_decision \<Rightarrow> gotime \<Rightarrow> bool" where
  "caches_expired s e w now \<longleftrightarrow> (\<forall>k t. (k, t) \<in> set (xw_positive e) \<longrightarrow> t \<le> now)
     \<and> (\<forall>t. uws_not_before s = Some t \<longrightarrow> t \<le> now)
     \<and> (\<forall>c \<in> set (wd_cache w). \<forall>t. ce_negative c = Some t \<longrightarrow> xw_window_start e + seconds t \<le> now)
     \<and> (\<forall>k. map_of (xw_negative e) k \<noteq> None \<longrightarrow> xw_window_start e + seconds (map_get (xw_negative e) k) \<le> now)"

lemma window_positive:
  assumes "withdrawal_window s e w now = (s', e', d)" and "d_status d = ConditionTrue"
  shows "wd_status w = ConditionTrue" and "absent_before s e now" and "caches_expired s e w now"
    and "uws_verified_at s' = Some now"
proof -
  show w: "wd_status w = ConditionTrue" using assms by (auto simp: withdrawal_window_def split: if_splits)
  have live: "uws_absent_since s \<noteq> None \<and> xw_window_start e \<noteq> 0"
    using assms w by (auto simp: withdrawal_window_def Let_def split: if_splits)
  let ?neg = "fold note_negative (wd_cache w) (xw_negative e)"
  let ?h = "claim_horizon (xw_window_start e) (uws_not_before s) (xw_positive e) ?neg"
  have res: "(\<exists>t. uws_last_probe s = Some t \<and> t < now) \<and> round_up ?h \<le> now \<and> uws_verified_at s' = Some now"
    using assms w live
    by (auto simp: withdrawal_window_def Let_def split: if_splits option.splits)
  then show "uws_verified_at s' = Some now" by simp
  show "absent_before s e now" using live res by (simp add: absent_before_def)
  have h: "?h \<le> now" using res round_up_ge [of ?h] by linarith
  have neg: "xw_window_start e + seconds n \<le> now" if "map_of ?neg k = Some n" for k n
    using claim_horizon_bounds(4) [OF map_of_SomeD [OF that], of "xw_window_start e" "uws_not_before s" "xw_positive e"] h by linarith
  have covered: "xw_window_start e + seconds t \<le> now" if "0 < t" "t \<le> map_get ?neg k" for k t
  proof -
    have "map_of ?neg k \<noteq> None" using that by (cases "map_of ?neg k") (simp_all add: map_get_def)
    then obtain n where n: "map_of ?neg k = Some n" by blast
    with that(2) have "seconds t \<le> seconds n" by (simp add: map_get_def)
    with neg [OF n] show ?thesis by linarith
  qed
  have start: "xw_window_start e \<le> now" using claim_horizon_bounds(1) [of "xw_window_start e"] h by (meson order_trans)
  have all: "xw_window_start e + seconds t \<le> now" if "t \<le> map_get ?neg k" for k t
  proof (cases "t = 0")
    case True
    then show ?thesis using start by (simp add: seconds_def)
  next
    case False
    then have "0 < t" by (simp add: word_gt_0)
    from covered [OF this that] show ?thesis .
  qed
  have pos: "t \<le> now" if "(k, t) \<in> set (xw_positive e)" for k t
    using claim_horizon_bounds(3) [OF that] h by (meson order_trans)
  have nb: "t \<le> now" if "uws_not_before s = Some t" for t
    using claim_horizon_bounds(2) [OF that] h by (meson order_trans)
  have cache: "xw_window_start e + seconds t \<le> now" if "c \<in> set (wd_cache w)" "ce_negative c = Some t" for c t
    using all [OF fold_note_negative_item [OF that]] .
  show "caches_expired s e w now"
    unfolding caches_expired_def using pos nb cache all [OF fold_note_negative_ge] by blast
qed

section \<open>The observation\<close>

text \<open>A name that a probe of this pass found free of the address, without an error.\<close>

definition found_free :: "('c, 'a) external_env_scheme \<Rightarrow> zone_unit \<Rightarrow> external_binding \<Rightarrow> zone_evidence option \<Rightarrow> unit_withdrawal \<Rightarrow> gotime
    \<Rightarrow> string \<Rightarrow> withdrawal_decision \<Rightarrow> bool" where
  "found_free env u be evidence item due name d \<longleftrightarrow>
     (\<exists>k observed. xo_probe env k (claim_request u be evidence item due name) = (observed, None)
        \<and> d = evaluate_withdrawal (xo_policy_digest env) (claim_request u be evidence item due name) observed \<and> wd_status d = ConditionTrue)"

lemma retain_claim_ge: "map_get pos k \<le> map_get (retain_claim name d now pos) k"
  by (simp add: retain_claim_def fold_retain_ge)

lemma failed_unknown [simp]: "wd_status (withdrawal_failed n v c) = ConditionUnknown" "wd_cache (withdrawal_failed n v c) = []"
  by (simp_all add: withdrawal_failed_def Let_def new_decision_def)

lemma probe_names_free:
  assumes "probe_names env u be evidence item due ns k pos w = (k', pos', w')" and "wd_status w' = ConditionTrue"
  shows "wd_status w = ConditionTrue \<and> set (wd_cache w) \<subseteq> set (wd_cache w') \<and> (\<forall>key. map_get pos key \<le> map_get pos' key)
    \<and> (\<forall>name \<in> set ns. \<exists>d. found_free env u be evidence item due name d \<and> set (wd_cache d) \<subseteq> set (wd_cache w'))"
  using assms(1)
proof (induction ns arbitrary: k pos w)
  case Nil
  then show ?case using assms(2) by simp
next
  case (Cons name ns)
  let ?req = "claim_request u be evidence item due name"
  obtain observed err where pr: "xo_probe env k ?req = (observed, err)" by fastforce
  let ?seen = "evaluate_withdrawal (xo_policy_digest env) ?req observed"
  let ?one = "case err of None \<Rightarrow> ?seen | Some e \<Rightarrow> withdrawal_failed name ''required-views'' (external_failure_code e)"
  let ?w = "w\<lparr>wd_cache := wd_cache w @ wd_cache ?one,
     wd_decision := (if wd_status ?one = ConditionUnknown \<or> (wd_status ?one = ConditionFalse \<and> wd_status w = ConditionTrue)
                     then wd_decision ?one else wd_decision w)\<rparr>"
  have run: "probe_names env u be evidence item due ns (Suc k) (retain_claim name ?seen (xo_clock env k) pos) ?w = (k', pos', w')"
    using Cons.prems by (simp add: pr Let_def)
  note ih = Cons.IH [OF run]
  have ok: "wd_status w = ConditionTrue \<and> wd_status ?one = ConditionTrue"
    using ih by (cases "wd_status ?one") (auto split: if_splits)
  then have err: "err = None" by (cases err) auto
  then have "found_free env u be evidence item due name ?seen" using pr ok by (auto simp: found_free_def)
  moreover have "set (wd_cache ?seen) \<subseteq> set (wd_cache w')" using ih err by auto
  moreover have "map_get pos key \<le> map_get pos' key" for key
    using ih retain_claim_ge [of pos key name ?seen "xo_clock env k"] by (meson order_trans)
  ultimately show ?case using ih ok by auto
qed

lemma observe_claim_free:
  assumes "observe_claim env u be evidence zone item e k = (k', pos, w)" and "wd_status w = ConditionTrue"
  shows "d_status zone = ConditionTrue \<and> (\<forall>key. map_get (xw_positive e) key \<le> map_get pos key)
    \<and> (\<forall>name \<in> set (xw_names e). \<exists>d. found_free env u be evidence item (ns_next (xw_schedule e)) name d \<and> set (wd_cache d) \<subseteq> set (wd_cache w))"
proof -
  have zone: "d_status zone = ConditionTrue"
    using assms by (auto simp: observe_claim_def split: if_splits)
  with assms(1) have "probe_names env u be evidence item (ns_next (xw_schedule e)) (xw_names e) k (xw_positive e)
      \<lparr>wd_decision = new_decision ConditionTrue ''WithdrawalVerified'' [], wd_cache = []\<rparr> = (k', pos, w)"
    by (simp add: observe_claim_def)
  from probe_names_free [OF this assms(2)] zone show ?thesis by blast
qed

section \<open>The verdict\<close>

lemma add_floor_simps [simp]:
  "xw_positive (add_floor p v e) = xw_positive e" "xw_negative (add_floor p v e) = xw_negative e"
  "xw_window_start (add_floor p v e) = xw_window_start e"
  by (simp_all add: add_floor_def)

lemma window_frame:
  "withdrawal_window s e w now = (s', e', d) \<Longrightarrow> xw_positive e' = xw_positive e \<and> xw_floor e' = xw_floor e \<and> xw_views e' = xw_views e
     \<and> xw_policy e' = xw_policy e"
  by (auto simp: withdrawal_window_def Let_def split: if_splits)

lemma claim_verdict_positive:
  assumes "claim_verdict env be views zone item started now w (e, s) = (e', s', r)" and "d_status r = ConditionTrue"
  shows "wd_status w = ConditionTrue" and "started \<le> now \<and> time_sub now started \<le> 300 * second"
    and "absent_before s e now" and "caches_expired s e w now" and "\<not> policy_weakened e (xb_policy be) views"
    and "xw_policy e \<noteq> [] \<longrightarrow> xw_policy e = xb_fingerprint be \<and> uws_required_views s = views"
    and "xw_positive e' = xw_positive e"
    and "uws_required_views s' = views \<and> xw_policy e' = xb_fingerprint be" and "uws_verified_at s' = Some now"
proof -
  let ?w1 = "if now < started \<or> 300 * second < time_sub now started
                then w\<lparr>wd_decision := wd_decision (withdrawal_failed (uw_name item) ''required-views'' ''timeout'')\<rparr> else w"
  obtain e1 s1 where stale: "(if stale_probe s now then (forget e, invalidate_status s) else (e, s)) = (e1, s1)" by fastforce
  let ?changed = "xw_policy e1 \<noteq> [] \<and> (xw_policy e1 \<noteq> xb_fingerprint be \<or> uws_required_views s1 \<noteq> views)"
  let ?weak = "policy_weakened e1 (xb_policy be) views"
  obtain e2 s2 w2 where ch: "(if ?changed \<or> ?weak then (forget e1, invalidate_status s1, ?w1\<lparr>wd_decision := external_policy_changed (uw_name item)\<rparr>)
      else (e1, s1, ?w1)) = (e2, s2, w2)" by (metis prod_cases3)
  let ?e4 = "(if d_status zone = ConditionTrue \<and> \<not> ?weak then add_floor (xb_policy be) views e2 else e2)\<lparr>xw_policy := xb_fingerprint be\<rparr>"
  let ?s3 = "s2\<lparr>uws_policy := xo_views_digest env (xb_fingerprint be) views, uws_required_views := views\<rparr>"
  obtain s4 e5 r0 where win: "withdrawal_window ?s3 ?e4 w2 now = (s4, e5, r0)" by (metis prod_cases3)
  have out: "e' = e5" "s' = s4" "d_status r = d_status r0"
    using assms(1) unfolding claim_verdict_def Let_def prod.case stale ch win by (auto split: if_splits)
  have r0: "d_status r0 = ConditionTrue" using out assms(2) by simp
  note pos = window_positive [OF win r0]
  have same: "\<not> ?changed" "\<not> ?weak" "e2 = e1" "s2 = s1" "w2 = ?w1"
    using pos(1) ch by (auto simp: external_policy_changed_def new_decision_def split: if_splits)
  have fresh: "\<not> stale_probe s now"
    using pos(2) stale same(4) by (auto simp: absent_before_def split: if_splits)
  then have e1: "e1 = e" "s1 = s" using stale by auto
  have time: "\<not> (now < started \<or> 300 * second < time_sub now started)" using pos(1) same(5) by (auto split: if_splits)
  then have w: "w2 = w" using same(5) by auto
  show "wd_status w = ConditionTrue" using pos(1) w by simp
  show "started \<le> now \<and> time_sub now started \<le> 300 * second" using time by auto
  show "absent_before s e now" using pos(2) same(3,4) e1 by (auto simp: absent_before_def split: if_splits)
  show "caches_expired s e w now" using pos(3) same(3,4) e1 w by (auto simp: caches_expired_def split: if_splits)
  show "\<not> policy_weakened e (xb_policy be) views" using same(2) e1 by simp
  show "xw_policy e \<noteq> [] \<longrightarrow> xw_policy e = xb_fingerprint be \<and> uws_required_views s = views" using same(1) e1 by blast
  show "xw_positive e' = xw_positive e" using window_frame [OF win] out(1) same(3) e1 by (simp split: if_splits)
  show "uws_verified_at s' = Some now" using pos(4) out(2) by simp
  show "uws_required_views s' = views \<and> xw_policy e' = xb_fingerprint be"
    using window_frame [OF win] out win by (auto simp: withdrawal_window_def Let_def split: if_splits)
qed

section \<open>A claim reported as withdrawn\<close>

text \<open>What the code relies on of \<open>meta.SetStatusCondition\<close>, \<open>RemoveStatusCondition\<close> and the search.\<close>

definition external_laws :: "('c, 'a) external_env_scheme \<Rightarrow> bool" where
  "external_laws env \<longleftrightarrow> condition_laws env
     \<and> (\<forall>cs t k. co_find_condition env (xo_remove_condition env cs t) k = (if k = t then None else co_find_condition env cs k))"

lemma status_at_external:
  "external_laws env \<Longrightarrow> status_at env (set_external env cs k st r m g now) t = (if t = k then Some st else status_at env cs t)"
  unfolding status_at_def set_external_def external_laws_def
  using condition_lawsD(1) [of env cs "\<lparr>c_type = k, c_status = st, c_reason = r, c_message = m, c_observed = g, c_transition = now\<rparr>"]
    condition_lawsD(2) [of env t "\<lparr>c_type = k, c_status = st, c_reason = r, c_message = m, c_observed = g, c_transition = now\<rparr>" cs]
  by auto

lemma status_at_xo_remove:
  "external_laws env \<Longrightarrow> status_at env (xo_remove_condition env cs t) k = (if k = t then None else status_at env cs k)"
  by (simp add: status_at_def external_laws_def)

lemma withdrawn_bind [simp]: "external_laws env \<Longrightarrow> withdrawn env (bind_external_waiver env item now s) = withdrawn env s"
  by (auto simp: withdrawn_def bind_external_waiver_def Let_def status_at_external status_at_xo_remove split: option.splits)

lemma withdrawn_set_claim [simp]: "external_laws env \<Longrightarrow> withdrawn env (set_claim_conditions env d now s) = (d_status d = ConditionTrue)"
  by (auto simp: withdrawn_def set_claim_conditions_def Let_def status_at_external)

lemma claim_withdrawn_frame [simp]:
  "withdrawn env (s\<lparr>uws_digest := x\<rparr>) = withdrawn env s" "withdrawn env (s\<lparr>uws_provider := p\<rparr>) = withdrawn env s"
  "withdrawn env (s\<lparr>uws_checked_names := ns\<rparr>) = withdrawn env s" "withdrawn env (s\<lparr>uws_sampled := b\<rparr>) = withdrawn env s"
  "withdrawn env (invalidate_status s) = withdrawn env s"
  by (simp_all add: withdrawn_def)

lemma bind_external_verified [simp]: "uws_verified_at (bind_external_waiver env item now s) = uws_verified_at s"
  "uws_required_views (bind_external_waiver env item now s) = uws_required_views s"
  by (auto simp: bind_external_waiver_def Let_def split: option.splits)

lemma set_claim_verified [simp]: "uws_verified_at (set_claim_conditions env d now s) = uws_verified_at s"
  "uws_required_views (set_claim_conditions env d now s) = uws_required_views s"
  by (simp_all add: set_claim_conditions_def Let_def)

lemma retain_item_kept: "map_of pos k = Some t \<Longrightarrow> \<exists>t'. map_of (retain_item name now c pos) k = Some t' \<and> t \<le> t'"
  by (auto simp: retain_item_def Let_def map_get_def split: option.splits)

lemma retain_claim_kept: "map_of pos k = Some t \<Longrightarrow> \<exists>t'. map_of (retain_claim name d now pos) k = Some t' \<and> t \<le> t'"
proof -
  have "map_of pos k = Some t \<Longrightarrow> \<exists>t'. map_of (fold (retain_item name now) cs pos) k = Some t' \<and> t \<le> t'" for cs t pos
  proof (induction cs arbitrary: pos t)
    case (Cons c cs)
    from retain_item_kept [OF Cons.prems, of name now c] obtain t' where t': "map_of (retain_item name now c pos) k = Some t'" "t \<le> t'" by blast
    from Cons.IH [OF t'(1)] obtain t'' where "map_of (fold (retain_item name now) cs (retain_item name now c pos)) k = Some t''" "t' \<le> t''" by blast
    with t'(2) show ?case by simp
  qed simp
  then show "map_of pos k = Some t \<Longrightarrow> \<exists>t'. map_of (retain_claim name d now pos) k = Some t' \<and> t \<le> t'"
    by (simp add: retain_claim_def)
qed

lemma probe_names_kept:
  "probe_names env u be evidence item due ns k pos w = (k', pos', w') \<Longrightarrow> map_of pos key = Some t \<Longrightarrow> \<exists>t'. map_of pos' key = Some t' \<and> t \<le> t'"
proof (induction ns arbitrary: k pos w t)
  case (Cons name ns)
  obtain observed err where pr: "xo_probe env k (claim_request u be evidence item due name) = (observed, err)" by fastforce
  from retain_claim_kept [OF Cons.prems(2)] obtain t' where t': "map_of (retain_claim name (evaluate_withdrawal (xo_policy_digest env)
      (claim_request u be evidence item due name) observed) (xo_clock env k) pos) key = Some t'" "t \<le> t'" by blast
  from Cons.prems(1) have "\<exists>w2. probe_names env u be evidence item due ns (Suc k) (retain_claim name (evaluate_withdrawal (xo_policy_digest env)
      (claim_request u be evidence item due name) observed) (xo_clock env k) pos) w2 = (k', pos', w')" by (auto simp: pr Let_def)
  with Cons.IH [OF _ t'(1)] t'(2) show ?case by (meson order_trans)
qed auto

text \<open>What a probe of a claim must have found for the claim to be reported as withdrawn at a time.\<close>

definition retirement_observed :: "('c, 'a) external_env_scheme \<Rightarrow> zone_unit \<Rightarrow> external_binding \<Rightarrow> zone_evidence option \<Rightarrow> unit_withdrawal
    \<Rightarrow> claim_evidence \<Rightarrow> unit_withdrawal_status \<Rightarrow> gotime \<Rightarrow> bool" where
  "retirement_observed env u be evidence item e s now \<longleftrightarrow>
     absent_before s e now \<and> \<not> policy_weakened e (xb_policy be) (required_external_views (xb_policy be) evidence)
   \<and> (xw_policy e \<noteq> [] \<longrightarrow> xw_policy e = xb_fingerprint be)
   \<and> (\<forall>key t. map_of (xw_positive e) key = Some t \<longrightarrow> t \<le> now)
   \<and> (\<forall>name \<in> set (xw_names e). \<exists>d. found_free env u be evidence item (ns_next (xw_schedule e)) name d
        \<and> (\<forall>c \<in> set (wd_cache d). \<forall>t. ce_negative c = Some t \<longrightarrow> xw_window_start e + seconds t \<le> now))"

text \<open>
  The external controller reports a claim as withdrawn only after a probe found the zone verified and each of
  the claim's names free of the address in every required view, under the policy of all earlier probes or a
  stronger one, when an earlier probe saw the absence and no cache can still hold the address or a negative
  answer from before it.
\<close>

lemma probe_external_claim_verified:
  assumes laws: "external_laws env"
    and probe: "probe_external_claim env u be evidence zone item k (e, s) = (e', s', k')"
    and positive: "withdrawn env s'"
  shows "d_status zone = ConditionTrue \<and> uws_verified_at s' = Some (xo_clock env (k' - 1))
    \<and> retirement_observed env u be evidence item e s (xo_clock env (k' - 1))"
proof -
  let ?views = "required_external_views (xb_policy be) evidence"
  obtain k1 pos w where seen: "observe_claim env u be evidence zone item e (Suc k) = (k1, pos, w)" by (metis prod_cases3)
  let ?now = "xo_clock env k1"
  obtain e1 s1 r where verdict: "claim_verdict env be ?views zone item (xo_clock env k) ?now w (e\<lparr>xw_positive := pos\<rparr>, s) = (e1, s1, r)"
    by (metis prod_cases3)
  have k': "k' = Suc k1" and s': "withdrawn env s' = (d_status r = ConditionTrue)" "uws_verified_at s' = uws_verified_at s1"
    using probe seen verdict laws by (auto simp: probe_external_claim_def Let_def)
  note v = claim_verdict_positive [OF verdict iffD1 [OF s'(1) positive]]
  note free = observe_claim_free [OF seen v(1)]
  have verified: "uws_verified_at s1 = Some ?now" using v(9) .
  have kept: "t \<le> ?now" if "map_of (xw_positive e) key = Some t" for key t
  proof -
    have "probe_names env u be evidence item (ns_next (xw_schedule e)) (xw_names e) (Suc k) (xw_positive e)
        \<lparr>wd_decision = new_decision ConditionTrue ''WithdrawalVerified'' [], wd_cache = []\<rparr> = (k1, pos, w)"
      using seen free by (simp add: observe_claim_def)
    from probe_names_kept [OF this that] obtain t' where "map_of pos key = Some t'" "t \<le> t'" by blast
    with v(4) show ?thesis by (fastforce simp: caches_expired_def dest: map_of_SomeD)
  qed
  have "\<exists>d. found_free env u be evidence item (ns_next (xw_schedule e)) name d
      \<and> (\<forall>c \<in> set (wd_cache d). \<forall>t. ce_negative c = Some t \<longrightarrow> xw_window_start e + seconds t \<le> ?now)" if "name \<in> set (xw_names e)" for name
  proof -
    from free that obtain d where "found_free env u be evidence item (ns_next (xw_schedule e)) name d" "set (wd_cache d) \<subseteq> set (wd_cache w)" by blast
    with v(4) show ?thesis by (intro exI [of _ d]) (auto simp: caches_expired_def)
  qed
  moreover have "absent_before s e ?now" "\<not> policy_weakened e (xb_policy be) ?views" "xw_policy e \<noteq> [] \<longrightarrow> xw_policy e = xb_fingerprint be"
    using v(3,5,6) by (auto simp: absent_before_def policy_weakened_def)
  ultimately show ?thesis using free kept verified s'(2) k' by (simp add: retirement_observed_def)
qed

end
