(* ===== verification/External_Pass.thy ===== *)
theory External_Pass
  imports External_Controller External_Window
begin

text \<open>
  Whole passes of the external controller: what a written status that reports a claim as withdrawn rests on,
  whichever way the pass went.
\<close>

section \<open>Preparation\<close>

lemma stale_frame [simp]:
  "stale_probe (s\<lparr>uws_conditions := cs\<rparr>) now = stale_probe s now" "stale_probe (s\<lparr>uws_checked_names := ns\<rparr>) now = stale_probe s now"
  "stale_probe (s\<lparr>uws_sampled := b\<rparr>) now = stale_probe s now" "stale_probe (invalidate_status s) now = stale_probe s now"
  "stale_probe (set_claim_conditions env d now' s) now = stale_probe s now"
  by (simp_all add: stale_probe_def set_claim_conditions_def Let_def cong: option.case_cong)

lemma withdrawn_unknown [simp]: "d_status (unreadable n) = ConditionUnknown" "d_status (external_policy_changed n) = ConditionUnknown"
  by (simp_all add: unreadable_def external_policy_changed_def)

lemma withdrawn_conditions [simp]: "withdrawn env (s\<lparr>uws_conditions := cs\<rparr>) = (status_at env cs ''Withdrawn'' = Some ConditionTrue)"
  by (simp add: withdrawn_def)

lemma set_claim_status [simp]:
  "external_laws env \<Longrightarrow> status_at env (uws_conditions (set_claim_conditions env d now s)) ''Withdrawn'' = Some (d_status d)"
  by (simp add: set_claim_conditions_def Let_def status_at_external)

lemma prepare_claim_withdrawn:
  assumes laws: "external_laws env" and run: "prepare_claim env u (Some fp) now st item = (e, s, c)" and w: "withdrawn env s"
  shows "uw_allowed item \<and> valid_external_withdrawal u item \<and> withdrawn env (claim_status item (old_result u item))
    \<and> \<not> stale_probe (claim_status item (old_result u item)) now \<and> (xw_policy e = [] \<or> xw_policy e = fp)"
proof -
  let ?s = "claim_status item (old_result u item)"
  obtain e0 s0 fresh where start: "claim_start env u st item ?s = (e0, s0, fresh)" by (metis prod_cases3)
  have s0: "withdrawn env s0 = withdrawn env ?s" "stale_probe s0 now = stale_probe ?s now"
    using start by (auto simp: claim_start_def Let_def split: if_splits)
  have "uw_allowed item \<and> valid_external_withdrawal u item"
    using run w laws status_at_xo_remove [OF laws] by (auto simp: prepare_claim_def start Let_def split: if_splits)
  moreover have "\<not> stale_probe s0 now" "xw_policy e = [] \<or> xw_policy e = fp" "withdrawn env s0"
    using run w laws calculation status_at_external [OF laws] by (auto simp: prepare_claim_def start Let_def withdrawn_def [of env s0] split: if_splits)
  ultimately show ?thesis using s0 by simp
qed

lemma prepare_claim_state:
  assumes "map_of (xs_withdrawals st) (unit_withdrawal_key item) = map_of (xs_withdrawals st') (unit_withdrawal_key item)"
    and "xs_publications st = xs_publications st'"
  shows "prepare_claim env u fp now st item = prepare_claim env u fp now st' item"
proof -
  have "claim_start env u st item s = claim_start env u st' item s" for s
    by (simp add: claim_start_def stored_evidence_def Let_def assms)
  then show ?thesis by (simp add: prepare_claim_def)
qed

lemma prepare_claim_unit:
  assumes "unit_rspec u = unit_rspec v" and "unit_meta u = unit_meta v"
    and "ust_withdrawals (unit_rstatus u) = ust_withdrawals (unit_rstatus v)"
  shows "prepare_claim env u fp now st item = prepare_claim env v fp now st item"
proof -
  have old: "old_result u item = old_result v item" by (simp add: old_result_def assms)
  have ident: "external_identity env u item = external_identity env v item" by (simp add: external_identity_def assms)
  have names: "withdrawal_names env u item = withdrawal_names env v item"
    by (simp add: fun_eq_iff withdrawal_names_def qualified_name_def Let_def assms)
  have valid: "valid_external_withdrawal u item = valid_external_withdrawal v item" by (simp add: valid_external_withdrawal_def assms)
  have digest: "external_result_digest env u item = external_result_digest env v item"
    by (simp add: fun_eq_iff external_result_digest_def ident assms)
  show ?thesis unfolding prepare_claim_def claim_start_def old ident names valid digest ..
qed

lemma prepare_claims_nth:
  assumes "prepare_claims env u fp now st items = (st', ss, c)" and "distinct (map unit_withdrawal_key items)"
  shows "length ss = length items \<and> xs_publications st' = xs_publications st
    \<and> (\<forall>key. key \<notin> set (map unit_withdrawal_key items) \<longrightarrow> map_of (xs_withdrawals st') key = map_of (xs_withdrawals st) key)
    \<and> (\<forall>i < length items. \<exists>c. prepare_claim env u fp now st (items ! i)
          = (stored_evidence st' (unit_withdrawal_key (items ! i)), ss ! i, c))"
  using assms
proof (induction items arbitrary: st st' ss c)
  case (Cons item items)
  let ?key = "unit_withdrawal_key item"
  obtain e s fresh where one: "prepare_claim env u fp now st item = (e, s, fresh)" by (metis prod_cases3)
  let ?st = "st\<lparr>xs_withdrawals := map_put (xs_withdrawals st) ?key e\<rparr>"
  obtain st1 ss1 c1 where rest: "prepare_claims env u fp now ?st items = (st1, ss1, c1)" by (metis prod_cases3)
  have out: "st' = st1" "ss = s # ss1" using Cons.prems(1) by (auto simp: one rest)
  note ih = Cons.IH [OF rest]
  have "\<exists>c. prepare_claim env u fp now st ((item # items) ! i) = (stored_evidence st1 (unit_withdrawal_key ((item # items) ! i)), (s # ss1) ! i, c)"
    if "i < length (item # items)" for i
  proof (cases i)
    case 0
    then show ?thesis using ih one Cons.prems(2) by (simp add: stored_evidence_def)
  next
    case (Suc j)
    then have j: "j < length items" using that by simp
    then have "unit_withdrawal_key (items ! j) \<noteq> ?key" using Cons.prems(2) by (metis distinct.simps(2) length_map list.simps(9) nth_map nth_mem)
    then have "prepare_claim env u fp now st (items ! j) = prepare_claim env u fp now ?st (items ! j)"
      by (intro prepare_claim_state) simp_all
    then show ?thesis using ih Cons.prems(2) j Suc by auto
  qed
  then show ?case using ih Cons.prems(2) out by auto
qed simp

text \<open>The prepared evidence and status of a claim are those of the claim alone.\<close>

lemma prepare_withdrawals_nth:
  assumes "prepare_withdrawals env u fp now st = (u', st', c)" and "distinct (map unit_withdrawal_key (un_withdrawals (unit_rspec u)))"
  shows "unit_rspec u' = unit_rspec u \<and> unit_meta u' = unit_meta u
    \<and> length (ust_withdrawals (unit_rstatus u')) = length (un_withdrawals (unit_rspec u))
    \<and> (\<forall>i < length (un_withdrawals (unit_rspec u)). \<exists>c. prepare_claim env u fp now st (un_withdrawals (unit_rspec u) ! i)
          = (stored_evidence st' (unit_withdrawal_key (un_withdrawals (unit_rspec u) ! i)), ust_withdrawals (unit_rstatus u') ! i, c))"
proof -
  let ?items = "un_withdrawals (unit_rspec u)"
  obtain st1 ss c1 where run: "prepare_claims env u fp now st ?items = (st1, ss, c1)" by (metis prod_cases3)
  have out: "u' = put_status (\<lambda>s. s\<lparr>ust_withdrawals := ss\<rparr>) u"
      "st' = st1\<lparr>xs_withdrawals := filter (\<lambda>p. fst p \<in> set (map unit_withdrawal_key ?items)) (xs_withdrawals st1)\<rparr>"
    using assms(1) by (auto simp: prepare_withdrawals_def run Let_def)
  have "stored_evidence st' (unit_withdrawal_key (?items ! i)) = stored_evidence st1 (unit_withdrawal_key (?items ! i))" if "i < length ?items" for i
  proof -
    have "unit_withdrawal_key (?items ! i) \<in> set (map unit_withdrawal_key ?items)" using that by simp
    from map_of_filter_key [OF this, of "xs_withdrawals st1"] show ?thesis by (simp add: stored_evidence_def out(2))
  qed
  with prepare_claims_nth [OF run assms(2)] show ?thesis by (simp add: out(1))
qed

section \<open>Probing\<close>

lemma retirement_unit:
  "unit_rspec u = unit_rspec v \<Longrightarrow> retirement_observed env u be evidence item e s now = retirement_observed env v be evidence item e s now"
  by (simp add: retirement_observed_def found_free_def claim_request_def)

lemma probe_due_claims_nth:
  assumes "probe_due_claims env be evidence zone is (u, st, k) = (u', st', k')" and "distinct is"
    and "distinct (map unit_withdrawal_key (un_withdrawals (unit_rspec u)))" and "set is \<subseteq> {..<length (un_withdrawals (unit_rspec u))}"
    and "length (ust_withdrawals (unit_rstatus u)) = length (un_withdrawals (unit_rspec u))"
  shows "unit_rspec u' = unit_rspec u \<and> length (ust_withdrawals (unit_rstatus u')) = length (ust_withdrawals (unit_rstatus u))
    \<and> (\<forall>i. i \<notin> set is \<longrightarrow> ust_withdrawals (unit_rstatus u') ! i = ust_withdrawals (unit_rstatus u) ! i)
    \<and> (\<forall>i \<in> set is. \<exists>v k e k'. unit_rspec v = unit_rspec u \<and> probe_external_claim env v be evidence zone (un_withdrawals (unit_rspec u) ! i) k
          (stored_evidence st (unit_withdrawal_key (un_withdrawals (unit_rspec u) ! i)), ust_withdrawals (unit_rstatus u) ! i)
          = (e, ust_withdrawals (unit_rstatus u') ! i, k'))"
  using assms
proof (induction "is" arbitrary: u st k)
  case (Cons i "is")
  let ?items = "un_withdrawals (unit_rspec u)" let ?ss = "ust_withdrawals (unit_rstatus u)" let ?key = "unit_withdrawal_key (?items ! i)"
  obtain e s k1 where one: "probe_external_claim env u be evidence zone (?items ! i) k (stored_evidence st ?key, ?ss ! i) = (e, s, k1)"
    by (metis prod_cases3)
  let ?u = "put_status (\<lambda>x. x\<lparr>ust_withdrawals := ?ss[i := s]\<rparr>) u"
  let ?st = "st\<lparr>xs_withdrawals := map_put (xs_withdrawals st) ?key e, xs_withdrawal_cursor := ?key\<rparr>"
  have run: "probe_due_claims env be evidence zone is (?u, ?st, k1) = (u', st', k')" using Cons.prems(1) by (simp add: one Let_def)
  have ih: "unit_rspec u' = unit_rspec u \<and> length (ust_withdrawals (unit_rstatus u')) = length ?ss
    \<and> (\<forall>j. j \<notin> set is \<longrightarrow> ust_withdrawals (unit_rstatus u') ! j = ?ss[i := s] ! j)
    \<and> (\<forall>j \<in> set is. \<exists>v k e k'. unit_rspec v = unit_rspec u \<and> probe_external_claim env v be evidence zone (?items ! j) k
          (stored_evidence ?st (unit_withdrawal_key (?items ! j)), ?ss[i := s] ! j) = (e, ust_withdrawals (unit_rstatus u') ! j, k'))"
    using Cons.IH [OF run] Cons.prems by simp
  have same: "stored_evidence ?st (unit_withdrawal_key (?items ! j)) = stored_evidence st (unit_withdrawal_key (?items ! j)) \<and> ?ss[i := s] ! j = ?ss ! j"
    if "j \<in> set is" for j
  proof -
    have "j \<noteq> i" "j < length ?items" "i < length ?items" using that Cons.prems(2,4) by auto
    then have "unit_withdrawal_key (?items ! j) \<noteq> ?key" using Cons.prems(3) by (metis length_map nth_eq_iff_index_eq nth_map)
    with \<open>j \<noteq> i\<close> show ?thesis by (simp add: stored_evidence_def)
  qed
  have "ust_withdrawals (unit_rstatus u') ! i = s" using ih Cons.prems(2,4,5) by auto
  with one have first: "\<exists>v k e k'. unit_rspec v = unit_rspec u \<and> probe_external_claim env v be evidence zone (?items ! i) k
      (stored_evidence st ?key, ?ss ! i) = (e, ust_withdrawals (unit_rstatus u') ! i, k')" by blast
  have others: "\<exists>v k e k'. unit_rspec v = unit_rspec u \<and> probe_external_claim env v be evidence zone (?items ! j) k
      (stored_evidence st (unit_withdrawal_key (?items ! j)), ?ss ! j) = (e, ust_withdrawals (unit_rstatus u') ! j, k')" if "j \<in> set is" for j
    using ih same [OF that] that by (metis (no_types, lifting))
  show ?case using ih first others by auto
qed auto

section \<open>Steps that leave the claims alone\<close>

definition claims_kept :: "zone_unit \<times> external_state \<Rightarrow> zone_unit \<times> external_state \<Rightarrow> bool" where
  "claims_kept a b \<longleftrightarrow> unit_rspec (fst b) = unit_rspec (fst a)
     \<and> ust_withdrawals (unit_rstatus (fst b)) = ust_withdrawals (unit_rstatus (fst a)) \<and> xs_withdrawals (snd b) = xs_withdrawals (snd a)"

abbreviation pass_claims :: "external_pass \<Rightarrow> zone_unit \<times> external_state" where
  "pass_claims p \<equiv> (ep_unit p, ep_state p)"

lemma claims_kept_trans: "claims_kept a b \<Longrightarrow> claims_kept b c \<Longrightarrow> claims_kept a c"
  by (simp add: claims_kept_def)

lemma claims_kept_fold:
  assumes "\<And>x a. claims_kept (g a) (g (f x a))"
  shows "claims_kept (g a) (g (fold f xs a))"
proof (induction xs arbitrary: a)
  case (Cons x xs)
  from claims_kept_trans [OF assms Cons] show ?case by simp
qed (simp add: claims_kept_def)

lemma update_sets_claims [simp]:
  "unit_rspec (update_sets f idx u) = unit_rspec u" "ust_withdrawals (unit_rstatus (update_sets f idx u)) = ust_withdrawals (unit_rstatus u)"
  by (simp_all add: update_sets_def)

lemma claims_kept_prepare: "claims_kept a (prepare_group env now g a)"
  by (cases a) (simp add: prepare_group_def claims_kept_def Let_def)

lemma claims_kept_zone: "settle_zone env be probed p = (q, d, ev) \<Longrightarrow> claims_kept (pass_claims p) (pass_claims q)"
  by (auto simp: settle_zone_def claims_kept_def set_zone_outcome_def Let_def split: if_splits prod.splits)

lemma retain_group_claims [simp]: "xs_withdrawals (retain_group env g req res now st) = xs_withdrawals st"
  by (simp add: retain_group_def Let_def)

lemma decide_group_claims: "decide_group env be zone ev now g u st k = (d, st', k') \<Longrightarrow> xs_withdrawals st' = xs_withdrawals st"
  by (auto simp: decide_group_def Let_def split: option.splits if_splits prod.splits)

lemma claims_kept_group: "claims_kept (pass_claims p) (pass_claims (settle_group env be zone ev now g p))"
proof -
  obtain d st k where d: "decide_group env be zone ev now g (ep_unit p) (ep_state p) (ep_tick p) = (d, st, k)" by (metis prod_cases3)
  from decide_group_claims [OF d] show ?thesis
    by (auto simp: settle_group_def claims_kept_def d set_group_outcome_def Let_def split: option.splits)
qed

lemma claims_kept_lose: "claims_kept (pass_claims p) (pass_claims (lose_group env policy zone g p))"
  unfolding lose_group_def by (rule claims_kept_fold) (simp add: lose_item_def claims_kept_def Let_def)

lemma lose_claims_withdrawn:
  assumes "external_laws env"
  shows "lose_claims env now items ss st = (ss', st') \<Longrightarrow> list_all2 (\<lambda>s s'. withdrawn env s' \<longrightarrow> withdrawn env s) ss ss'"
proof (induction items arbitrary: ss st ss' st')
  case (Cons item items)
  show ?case
  proof (cases ss)
    case (Cons s rest)
    obtain st1 ss1 st2 where run: "lose_claims env now items rest st1 = (ss1, st2)" and out: "\<exists>s'. ss' = s' # ss1 \<and> (withdrawn env s' \<longrightarrow> withdrawn env s)"
      using Cons.prems assms unfolding local.Cons
      by (auto simp: Let_def split: if_splits prod.splits)
    from Cons.IH [OF run] out show ?thesis by (auto simp: local.Cons)
  qed (use Cons.prems in simp)
qed (simp add: list.rel_refl)

lemma take_claims_order: "set (take_claims p c b is) \<subseteq> set is" "distinct is \<Longrightarrow> distinct (take_claims p c b is)"
proof -
  show sub: "set (take_claims p c b is) \<subseteq> set is" for b "is" by (induction "is" arbitrary: b) auto
  show "distinct is \<Longrightarrow> distinct (take_claims p c b is)" using sub by (induction "is" arbitrary: b) auto
qed

lemma due_order_distinct: "distinct due \<Longrightarrow> distinct (due_order items c due)"
proof -
  have "distinct xs \<Longrightarrow> distinct (dropWhile p xs @ takeWhile p xs)" for p and xs :: "nat list"
    by (metis distinct_append inf_commute takeWhile_dropWhile_id)
  then show "distinct due \<Longrightarrow> distinct (due_order items c due)" by (simp add: due_order_def Let_def)
qed

lemma select_claims_open:
  "distinct (select_claims u st policy now budget) \<and> set (select_claims u st policy now budget) \<subseteq> set (open_claims u)"
proof -
  have "distinct (open_claims u)" by (simp add: open_claims_def Let_def)
  then show ?thesis
    using take_claims_order due_order_distinct due_order_set by (simp add: select_claims_def Let_def) (metis order_trans)
qed

lemma valid_withdrawal_unit: "unit_rspec u = unit_rspec v \<Longrightarrow> valid_external_withdrawal u item = valid_external_withdrawal v item"
  by (simp add: valid_external_withdrawal_def)

lemma open_claims_unit: "unit_rspec u = unit_rspec v \<Longrightarrow> open_claims u = open_claims v"
  by (simp add: open_claims_def valid_withdrawal_unit [of u v])

section \<open>The claims of a pass\<close>

text \<open>The probes of a pass, as far as the claims are concerned.\<close>

lemma external_probes_claims:
  assumes "external_probes env be u0 = (p, save)"
  obtains u1 st1 c zone ev claims u6 st6 k6 u7 st7 k7 where
    "prepare_withdrawals env u0 (Some (xb_fingerprint be)) (xo_clock env 0)
       (load_external env (ust_provider (unit_rstatus u0)) (xb_fingerprint be)) = (u1, st1, c)"
    and "claims_kept (u1, st1) (u6, st6)"
    and "distinct claims" and "set claims \<subseteq> set (open_claims u0)"
    and "probe_due_claims env be ev zone claims (u6, st6, k6) = (u7, st7, k7)"
    and "unit_rspec (ep_unit p) = unit_rspec u7"
    and "ep_unit p = u7 \<or> d_status zone \<noteq> ConditionTrue \<and> (\<exists>now. ep_unit p = fst (invalidate_zone_claims env now (u7, st7)))"
proof -
  let ?now = "xo_clock env 0" let ?fp = "xb_fingerprint be" let ?groups = "group_names env u0 ?fp" let ?active = "map ng_name ?groups"
  obtain u1 st1 c where prep: "prepare_withdrawals env u0 (Some ?fp) ?now (load_external env (ust_provider (unit_rstatus u0)) ?fp) = (u1, st1, c)"
    by (metis prod_cases3)
  obtain u2 st2 where groups: "fold (prepare_group env ?now) ?groups (u1, st1) = (u2, st2)" by fastforce
  let ?st3 = "st2\<lparr>xs_names := filter (\<lambda>q. fst q \<in> set ?active) (xs_names st2)\<rparr>"
  obtain due claims where split: "split_budget u2 ?st3 ?fp ?now ?groups = (due, claims)" by fastforce
  let ?probed = "zone_is_due env u2 be ?st3 ?now \<or> ((due \<noteq> [] \<or> claims \<noteq> [])
      \<and> d_status (current_decision env (uzs_conditions (unit_zone u2))) = ConditionTrue)"
  obtain p4 zone ev where zone: "settle_zone env be ?probed \<lparr>ep_unit = u2, ep_state = ?st3, ep_tick = 1\<rparr> = (p4, zone, ev)" by (metis prod_cases3)
  let ?p5 = "fold (settle_group env be zone ev ?now) due p4"
  let ?lost = "?probed \<and> d_status zone \<noteq> ConditionTrue"
  let ?refused = "map ng_name (filter (\<lambda>g. validate_group env u2 g \<noteq> None) due)"
  let ?p6 = "if ?lost then fold (lose_group env (xb_policy be) zone) (filter (\<lambda>g. ng_name g \<notin> set ?refused) ?groups) ?p5 else ?p5"
  obtain u7 st7 k7 where claims: "probe_due_claims env be ev zone claims (ep_unit ?p6, ep_state ?p6, ep_tick ?p6) = (u7, st7, k7)" by (metis prod_cases3)
  have p: "ep_unit p = (if ?lost then fst (invalidate_zone_claims env (xo_clock env k7) (u7, st7)) else u7)"
    using assms unfolding external_probes_def Let_def prep groups split zone claims prod.case
    by (cases ?lost) (auto split: prod.splits)
  have "claims_kept (id (u1, st1)) (id (fold (prepare_group env ?now) ?groups (u1, st1)))"
    by (rule claims_kept_fold) (simp add: claims_kept_prepare)
  then have two: "claims_kept (u1, st1) (u2, st2)" by (simp add: groups)
  have "claims_kept (u2, ?st3) (pass_claims p4)" using claims_kept_zone [OF zone] by simp
  moreover have "claims_kept (pass_claims p4) (pass_claims ?p5)" by (rule claims_kept_fold) (rule claims_kept_group)
  moreover have "claims_kept (pass_claims ?p5) (pass_claims ?p6)"
    by (auto intro!: claims_kept_fold [where g = pass_claims] claims_kept_lose simp: claims_kept_def [of "pass_claims ?p5" "pass_claims ?p5"])
  ultimately have kept: "claims_kept (u1, st1) (pass_claims ?p6)" using two by (simp add: claims_kept_def)
  have u1: "unit_rspec u1 = unit_rspec u0" using prep by (auto simp: prepare_withdrawals_def Let_def split: prod.splits)
  have "claims = select_claims u2 ?st3 ?fp ?now max_names_per_pass \<or> claims = select_claims u2 ?st3 ?fp ?now (max_names_per_pass div 2)"
    using split by (auto simp: split_budget_def Let_def split: if_splits)
  then have order: "distinct claims" "set claims \<subseteq> set (open_claims u2)" using select_claims_open by metis+
  then have bound: "set claims \<subseteq> set (open_claims u0)"
    using open_claims_unit [of u2 u0] two u1 by (simp add: claims_kept_def)
  have spec: "unit_rspec (ep_unit p) = unit_rspec u7" by (simp add: p invalidate_zone_claims_def split: prod.split)
  show thesis by (rule that [OF prep kept order(1) bound claims spec]) (use p in auto)
qed

text \<open>What a claim reported as withdrawn rests on: this pass observed it, or an earlier one did under the same policy.\<close>

definition external_claim_backed :: "('c, 'a) external_env_scheme \<Rightarrow> zone_unit \<Rightarrow> external_binding \<Rightarrow> unit_withdrawal \<Rightarrow> unit_withdrawal_status
    \<Rightarrow> bool" where
  "external_claim_backed env u be item s' \<longleftrightarrow>
     (let now = xo_clock env 0; fp = xb_fingerprint be; old = claim_status item (old_result u item);
          (e, s, _) = prepare_claim env u (Some fp) now (load_external env (ust_provider (unit_rstatus u)) fp) item
      in uw_allowed item \<and> valid_external_withdrawal u item
       \<and> ((\<exists>evidence t. uws_verified_at s' = Some t \<and> retirement_observed env u be evidence item e s t)
          \<or> (withdrawn env old \<and> \<not> stale_probe old now \<and> (xw_policy e = [] \<or> xw_policy e = fp))))"

lemma external_claim_backed_cong:
  assumes "unit_rspec u = unit_rspec v" and "unit_meta u = unit_meta v"
    and "ust_withdrawals (unit_rstatus u) = ust_withdrawals (unit_rstatus v)" and "ust_provider (unit_rstatus u) = ust_provider (unit_rstatus v)"
  shows "external_claim_backed env u be item s = external_claim_backed env v be item s"
proof -
  note valid_withdrawal_unit [OF assms(1)]
  moreover have "old_result u item = old_result v item" by (simp add: old_result_def assms)
  ultimately show ?thesis
    using prepare_claim_unit [OF assms(1-3), of env] retirement_unit [OF assms(1), of env] assms(4) by (simp add: external_claim_backed_def)
qed

lemma external_probes_backed:
  assumes laws: "external_laws env" and distinct: "distinct (map unit_withdrawal_key (un_withdrawals (unit_rspec u0)))"
    and run: "external_probes env be u0 = (p, save)" and i: "i < length (un_withdrawals (unit_rspec u0))"
    and w: "withdrawn env (ust_withdrawals (unit_rstatus (ep_unit p)) ! i)"
  shows "unit_rspec (ep_unit p) = unit_rspec u0"
    and "external_claim_backed env u0 be (un_withdrawals (unit_rspec u0) ! i) (ust_withdrawals (unit_rstatus (ep_unit p)) ! i)"
proof -
  let ?items = "un_withdrawals (unit_rspec u0)" let ?item = "?items ! i" let ?fp = "xb_fingerprint be"
  obtain u1 st1 c zone ev claims u6 st6 k6 u7 st7 k7 where
    prep: "prepare_withdrawals env u0 (Some ?fp) (xo_clock env 0) (load_external env (ust_provider (unit_rstatus u0)) ?fp) = (u1, st1, c)"
    and kept: "claims_kept (u1, st1) (u6, st6)" and claims: "distinct claims" "set claims \<subseteq> set (open_claims u0)"
    and probe: "probe_due_claims env be ev zone claims (u6, st6, k6) = (u7, st7, k7)"
    and final: "unit_rspec (ep_unit p) = unit_rspec u7"
      "ep_unit p = u7 \<or> d_status zone \<noteq> ConditionTrue \<and> (\<exists>now. ep_unit p = fst (invalidate_zone_claims env now (u7, st7)))"
    by (rule external_probes_claims [OF run])
  note prepared = prepare_withdrawals_nth [OF prep distinct]
  have same: "unit_rspec u6 = unit_rspec u0" "ust_withdrawals (unit_rstatus u6) = ust_withdrawals (unit_rstatus u1)"
      "xs_withdrawals st6 = xs_withdrawals st1" using kept prepared by (auto simp: claims_kept_def)
  have open_lt: "set (open_claims u0) \<subseteq> {..<length ?items}" by (auto simp: open_claims_def Let_def)
  have probed: "unit_rspec u7 = unit_rspec u0 \<and> length (ust_withdrawals (unit_rstatus u7)) = length ?items
    \<and> (\<forall>i. i \<notin> set claims \<longrightarrow> ust_withdrawals (unit_rstatus u7) ! i = ust_withdrawals (unit_rstatus u1) ! i)
    \<and> (\<forall>i \<in> set claims. \<exists>v k e k'. unit_rspec v = unit_rspec u0 \<and> probe_external_claim env v be ev zone (?items ! i) k
          (stored_evidence st1 (unit_withdrawal_key (?items ! i)), ust_withdrawals (unit_rstatus u1) ! i)
          = (e, ust_withdrawals (unit_rstatus u7) ! i, k'))"
    using probe_due_claims_nth [OF probe claims(1)] claims(2) open_lt distinct prepared
    by (simp add: same stored_evidence_def [of st6] stored_evidence_def [of st1] subset_trans)
  have before: "withdrawn env (ust_withdrawals (unit_rstatus u7) ! i)"
  proof (cases "ep_unit p = u7")
    case False
    then obtain now where "ep_unit p = fst (invalidate_zone_claims env now (u7, st7))" using final(2) by blast
    moreover obtain ss st' where lose: "lose_claims env now (un_withdrawals (unit_rspec u7)) (ust_withdrawals (unit_rstatus u7)) st7 = (ss, st')" by fastforce
    ultimately have "ust_withdrawals (unit_rstatus (ep_unit p)) = ss" by (simp add: invalidate_zone_claims_def)
    with lose_claims_withdrawn [OF laws lose] w i probed show ?thesis by (auto simp: list_all2_conv_all_nth)
  qed (use w in simp)
  obtain c' where claim: "prepare_claim env u0 (Some ?fp) (xo_clock env 0) (load_external env (ust_provider (unit_rstatus u0)) ?fp) ?item
      = (stored_evidence st1 (unit_withdrawal_key ?item), ust_withdrawals (unit_rstatus u1) ! i, c')" using prepared i by blast
  show "unit_rspec (ep_unit p) = unit_rspec u0" using final(1) probed by simp
  show "external_claim_backed env u0 be ?item (ust_withdrawals (unit_rstatus (ep_unit p)) ! i)"
  proof (cases "i \<in> set claims")
    case True
    from True claims(2) have ok: "uw_allowed ?item \<and> valid_external_withdrawal u0 ?item" by (auto simp: open_claims_def Let_def)
    from True probed obtain v k e k' where v: "unit_rspec v = unit_rspec u0" and one: "probe_external_claim env v be ev zone ?item k
        (stored_evidence st1 (unit_withdrawal_key ?item), ust_withdrawals (unit_rstatus u1) ! i) = (e, ust_withdrawals (unit_rstatus u7) ! i, k')" by blast
    note seen = probe_external_claim_verified [OF laws one before]
    have "ep_unit p = u7" using seen final(2) by blast
    with seen ok retirement_unit [OF v, of env] show ?thesis unfolding external_claim_backed_def Let_def claim by auto
  next
    case False
    with before probed have "withdrawn env (ust_withdrawals (unit_rstatus u1) ! i)" by simp
    from prepare_claim_withdrawn [OF laws claim this] show ?thesis by (simp add: external_claim_backed_def claim)
  qed
qed

section \<open>Whole passes\<close>

lemma external_claims_frame [simp]:
  "ust_withdrawals (unit_rstatus (set_aggregate env now u)) = ust_withdrawals (unit_rstatus u)" "unit_rspec (set_aggregate env now u) = unit_rspec u"
  "ust_withdrawals (unit_rstatus (prepare_results u)) = ust_withdrawals (unit_rstatus u)" "unit_rspec (prepare_results u) = unit_rspec u"
  "unit_meta (prepare_results u) = unit_meta u" "ust_provider (unit_rstatus (prepare_results u)) = ust_provider (unit_rstatus u)"
  "ust_withdrawals (unit_rstatus (complete_deletions u)) = ust_withdrawals (unit_rstatus u)" "unit_rspec (complete_deletions u) = unit_rspec u"
  "unit_meta (complete_deletions u) = unit_meta u" "ust_provider (unit_rstatus (complete_deletions u)) = ust_provider (unit_rstatus u)"
  by (simp_all add: set_aggregate_def prepare_results_def complete_deletions_def Let_def split: prod.split)

lemma patched_withdrawals: "patch_external w base u t = (Some st, out) \<Longrightarrow> ust_withdrawals st = ust_withdrawals (unit_rstatus u)"
  by (auto simp: patch_external_def Let_def split: if_splits)

lemma reject_external_fails:
  assumes laws: "external_laws env" and distinct: "distinct (map unit_withdrawal_key (un_withdrawals (unit_rspec u)))"
    and i: "i < length (un_withdrawals (unit_rspec u))"
  shows "\<not> withdrawn env (ust_withdrawals (unit_rstatus (reject_external env r now u)) ! i)"
proof -
  have fails: "\<not> withdrawn env (reject_external_claim env now item s)" for item s
    by (simp add: reject_external_claim_def Let_def status_at_external [OF laws] status_at_xo_remove [OF laws] laws)
  have claims: "\<not> withdrawn env (ust_withdrawals (unit_rstatus (reject_external_withdrawals env now v)) ! i)"
    if "unit_rspec v = unit_rspec u" for v
  proof -
    let ?prior = "prior_state env v"
    obtain u1 st1 c where prep: "prepare_withdrawals env v None now (?prior\<lparr>xs_zone := empty_name_schedule, xs_names := []\<rparr>) = (u1, st1, c)"
      by (metis prod_cases3)
    have "length (ust_withdrawals (unit_rstatus u1)) = length (un_withdrawals (unit_rspec u))"
      using prepare_withdrawals_nth [OF prep] distinct by (simp add: that)
    moreover have "ust_withdrawals (unit_rstatus (reject_external_withdrawals env now v))
        = map2 (reject_external_claim env now) (un_withdrawals (unit_rspec u)) (ust_withdrawals (unit_rstatus u1))"
      by (simp add: reject_external_withdrawals_def Let_def prep that)
    ultimately show ?thesis using i fails by simp
  qed
  show ?thesis unfolding reject_external_def Let_def by (simp add: claims)
qed


end
