(* ===== verification/External_Instance.thy ===== *)
theory External_Instance
  imports External_Pass Hosted_Instance
begin

text \<open>
  A concrete environment of the external controller, where its laws hold, and a pass over a unit with one
  withdrawal claim whose second probe confirms the absence.
\<close>

definition demo_external_policy :: policy where
  "demo_external_policy = \<lparr>p_mode = ''Recursive'', p_servers = [''10.0.0.1:53''], p_expected_ns = []\<rparr>"

definition demo_external_env :: "external_state \<Rightarrow> unit external_env" where
  "demo_external_env st = \<lparr>co_decl = demo_decl_env, co_contract = demo_contract_env, co_zone_context = (\<lambda>_. ()),
     co_set_context = (\<lambda>_ _. ()), co_cel = (\<lambda>_ _ _ _ _ _. Some True),
     co_find_condition = (\<lambda>cs t. find (\<lambda>c. c_type c = t) cs),
     co_set_condition = (\<lambda>cs c. if \<exists>x \<in> set cs. c_type x = c_type c
        then map (\<lambda>x. if c_type x = c_type c then c else x) cs else cs @ [c]),
     xo_controller = ''p/controller'', xo_binding = \<lparr>pr_name = ''p'', pr_version = ''v1''\<rparr>, xo_class_context = (\<lambda>_. ()),
     xo_unmarshal = (\<lambda>_. Inr \<lparr>xp_mode = [], xp_servers = [], xp_expected = []\<rparr>), xo_empty_object = (\<lambda>_. True),
     xo_effective = (\<lambda>_. (demo_external_policy, None)), xo_fingerprint = (\<lambda>_ _ _ _ _ _ _ _. ''f''),
     xo_group_digest = (\<lambda>_ _. ''g''), xo_item_digest = (\<lambda>_ _. ''i''), xo_wildcard_digest = (\<lambda>_ _ _. ''w''),
     xo_claim_digest = (\<lambda>_ _ _ _ n a. n @ a), xo_retire_digest = (\<lambda>_ _ _. ''r''), xo_views_digest = (\<lambda>_ _. ''v''),
     xo_policy_digest = (\<lambda>_. []), xo_result_digest = (\<lambda>_ _ _ _. ''d''), xo_state_json = (\<lambda>_. ''s''), xo_read_state = (\<lambda>_. st),
     xo_public_json = (\<lambda>_ _ _ _ _ _ _. []), xo_views_json = (\<lambda>_. []), xo_format = (\<lambda>_. []),
     xo_clock = (\<lambda>n. 2000 * second + int n), xo_jitter = (\<lambda>_ d. d),
     xo_remove_condition = (\<lambda>cs t. filter (\<lambda>c. c_type c \<noteq> t) cs), xo_probe = (\<lambda>_ _. (Probe_Withdrawal.demo_result, None))\<rparr>"

definition demo_evidence :: claim_evidence where
  "demo_evidence = empty_evidence\<lparr>xw_identity := ''www192.0.2.1'', xw_policy := ''f'', xw_names := [''www.example.com''],
     xw_window_start := 1000 * second\<rparr>"

definition demo_external_state :: external_state where
  "demo_external_state = \<lparr>xs_policy = ''f'', xs_cursor = [], xs_zone = empty_name_schedule, xs_names = [],
     xs_withdrawals = [(''ns/c'', demo_evidence)], xs_withdrawal_cursor = [], xs_publications = []\<rparr>"

definition demo_absent_status :: unit_withdrawal_status where
  "demo_absent_status = (claim_status demo_claim empty_withdrawal_result)\<lparr>uws_absent_since := Some (1000 * second),
     uws_last_probe := Some (1000 * second), uws_next_probe := Some (1900 * second), uws_required_views := [''recursive/10.0.0.1:53'']\<rparr>"

definition demo_external_unit :: zone_unit where
  "demo_external_unit = demo_live_unit [demo_claim] (empty_unit_status\<lparr>ust_provider := Some \<lparr>ps_data = [], ps_state = ''s''\<rparr>,
     ust_withdrawals := [demo_absent_status]\<rparr>)"

definition demo_external_world :: external_world where
  "demo_external_world = \<lparr>ew_unit = Inr (Some demo_external_unit), ew_cache = demo_reader, ew_live = demo_reader,
     ew_live_unit = Inr (Some demo_external_unit), ew_patch = None\<rparr>"

abbreviation "demo_verify_env \<equiv> demo_external_env demo_external_state"

lemma demo_external_laws: "external_laws (demo_external_env st)"
proof -
  have "condition_laws (demo_external_env st)"
    using demo_condition_laws unfolding condition_laws_def demo_external_env_def demo_core_env_def core_env.select_convs .
  moreover have remove: "find (\<lambda>c. c_type c = k) (filter (\<lambda>c. c_type c \<noteq> t) cs) = (if k = t then None else find (\<lambda>c. c_type c = k) cs)" for cs t k
    by (induction cs) auto
  have "co_find_condition (demo_external_env st) (xo_remove_condition (demo_external_env st) cs t) k
      = (if k = t then None else co_find_condition (demo_external_env st) cs k)" for cs t k
    unfolding demo_external_env_def external_env.select_convs core_env.select_convs by (rule remove)
  ultimately show ?thesis by (simp add: external_laws_def)
qed

fun pass_reports_withdrawn :: "unit external_env \<Rightarrow> external_outcome \<Rightarrow> bool" where
  "pass_reports_withdrawn env (Some st, _) = withdrawn env (ust_withdrawals st ! 0)"
| "pass_reports_withdrawn env (None, _) = False"

lemma pass_reports_withdrawnD: "pass_reports_withdrawn env r \<Longrightarrow> \<exists>st out. r = (Some st, out) \<and> withdrawn env (ust_withdrawals st ! 0)"
  by (erule pass_reports_withdrawn.elims) auto

lemma demo_confirming_pass: "pass_reports_withdrawn demo_verify_env (reconcile_external demo_verify_env demo_external_world)"
  by code_simp


end
