(* ===== verification/Spec2Isabelle.thy ===== *)
theory Spec2Isabelle
  imports Probe_Resolve Hosted_Exclusion External_Verification Core_Withdrawals Hosted_Render Hosted_Watch
    Hosted_Publication Hosted_Instance External_Instance
begin

text \<open>
  Verification library of dns-api, an operator that composes DNS zones and record sets declared in a
  Kubernetes cluster into zone units, has providers publish them, and verifies on the wire that a retired
  address is gone. Paths below are relative to the root of the repository.

  \<^bold>\<open>The parts and how they interact.\<close> A \<open>Zone\<close> names a \<open>ZoneClass\<close>, the class names a provider.
  Record sets and withdrawal claims of any admitted namespace name a zone. The core controller composes them into
  one \<open>ZoneUnit\<close> and projects the provider's results back. A provider controller reads the unit: the hosted
  provider renders it into a \<open>HostedZone\<close> snapshot, its servers answer queries from the snapshots and
  acknowledge the revision they serve, and the controller turns acknowledgements and probes into the results of the
  unit. Prober, evaluators and policy are libraries of these controllers.

  \<^bold>\<open>Theories and sources.\<close>
  \<^item> \<open>Prelude\<close>, \<open>Netaddr\<close>, \<open>Dns_Msg\<close>: what the source uses of Go's standard library (strings,
    slices, maps as association lists, times as nanoseconds, \<open>net/netip\<close>) and the shape of DNS messages; the
    lemmas the components share.
  \<^item> \<open>Api_Types\<close>, \<open>Api_Units\<close>: the resources of \<open>pkg/go/api/dns/v1alpha1\<close> and
    \<open>pkg/go/api/hosted/v1alpha1\<close>, one record per struct, one datatype per enumeration.
  \<^item> \<open>Probe_Types\<close>, \<open>Probe_Evaluate\<close>, \<open>Probe_Wire\<close>, \<open>Probe_Resolve\<close>, \<open>Probe_Withdrawal\<close>:
    \<open>internal/go/core/dnsprobe\<close>. The zone verdict is compared with its specification; a probe session never
    exceeds its query budget and resolves completely; a withdrawal is decided only on complete, authoritative views.
  \<^item> \<open>Core_Declaration\<close>: \<open>internal/go/core/declaration\<close>, the grants by namespace policies and the waivers.
  \<^item> \<open>Provider_Contract\<close>: \<open>internal/go/core/providercontract\<close>, conversion of provider payloads through
    the provider's endpoint, validation of what comes back, defaults.
  \<^item> \<open>Core_Composition\<close>, \<open>Core_Reconcile\<close>, \<open>Core_Withdrawals\<close>:
    \<open>internal/go/core/controllers/zoneunit\<close>. Composition drops conflicts deterministically and accounts for
    every claim; finalizers go only after confirmation; a status reports success only on evidence of the unit.
  \<^item> \<open>Hosted_Withdrawal\<close>, \<open>Hosted_Exclusion\<close>, \<open>Hosted_Window\<close>:
    \<open>internal/go/providers/hosted/withdrawal\<close>, the evidence state of one claim, its exclusion from the
    snapshot, and runs of passes that hand their state on.
  \<^item> \<open>Hosted_Render\<close>: \<open>internal/go/providers/hosted/render\<close>, from a unit to a snapshot, its serial and digest.
  \<^item> \<open>Hosted_Zone\<close>, \<open>Hosted_Answer\<close>, \<open>Hosted_Watch\<close>: \<open>internal/go/providers/hosted/server\<close>, the
    compiled zone and the index of apexes, the answer to a query, the arbitration of apexes under interleaved
    notifications.
  \<^item> \<open>Hosted_Unit\<close>, \<open>Hosted_Unit_Withdrawals\<close>, \<open>Hosted_Rotation\<close>, \<open>Hosted_Publication\<close>,
    \<open>Hosted_Controller\<close>: \<open>internal/go/providers/hosted/controllers/zoneunit\<close>, the receipts of record
    sets, the scheduling and probing of withdrawal claims, the horizons of published addresses, and one whole pass of
    the controller with its writes. Success is reported on served evidence only, no due claim starves, and no horizon
    is shortened. \<open>Hosted_Instance\<close> is a concrete environment of the controller where its laws hold.
  \<^item> \<open>External_Verification\<close>: \<open>internal/go/providers/external/verification\<close>, what a foreign zone must
    answer for a declared record set.
  \<^item> \<open>External_Unit\<close>, \<open>External_Claims\<close>, \<open>External_Controller\<close>, \<open>External_Window\<close>, \<open>External_Pass\<close>:
    \<open>internal/go/providers/external/config\<close> and \<open>controllers/zoneunit\<close>. The provider publishes nothing: it
    groups the names of a unit, probes those that are due together with the due withdrawal claims, at most 32 names a
    pass, keeps horizons of cached answers and a floor of the policy in a private state, and reports what it saw if
    its inputs are still the same after the probes. The lemmas show what a claim reported as withdrawn rests
    on. \<open>External_Instance\<close> is a concrete environment and a pass that confirms an absence.

  \<^bold>\<open>How the code is read.\<close> Strings are lists of bytes. \<open>ToLower\<close> and \<open>TrimSpace\<close> are those of
  ASCII, the only inputs validation lets through. A Go map is an association list; where the code iterates over a
  map the model takes the list's order, and the results do not depend on it unless a lemma says so. \<open>SortFunc\<close>
  is a stable sort, which the code's distinct keys make immaterial. Serials, times to live and widths are words of
  the source's width. Times and durations are integers of nanoseconds; the wrap-around of a signed 64-bit duration
  is not modelled except where the source clamps. Errors are the left side of a sum. A handler returns the list of
  the writes it makes together with its result; where the source stops at a failing write, the list is the prefix
  up to it. The n-th reading of the clock and of the jitter in one pass is a parameter indexed by n.

  \<^bold>\<open>Parameters.\<close> Code outside the repository is an argument of the definitions, gathered in records:
  \<open>dns_lib\<close> and \<open>msg_lib\<close> (the DNS library: name checks, parsing of records, packing), \<open>core_env\<close>
  (condition lists of apimachinery, label selectors, schema validation), \<open>render_env\<close> (hash, quoting, decoding
  of the previous receipt), \<open>watch_lib\<close>, \<open>wd_env\<close> (digests, the resolver's probe), \<open>hosted_env\<close>
  (JSON of the persisted state, digests, clock, jitter, the evaluator behind its interface). Laws on them appear as
  named predicates (\<open>condition_laws\<close>, \<open>hosted_laws\<close>, \<open>digest_laws\<close>, \<open>state_roundtrip\<close>); each
  has a concrete instance in a witness.

  \<^bold>\<open>Bounds and fuel.\<close> The answer loop follows at most 8 aliases and its fuel is that bound. Walks up the
  ancestors of a name take fuel one more than the labels of the name can need (\<open>lineage_complete\<close>).
  Resolution of aliases in the snapshot's exclusion and publication horizons visits at most 9 owners, as the source's
  loops do. A provider pass probes at most 32 names, a zone carries at most 256 withdrawal claims, a record set 64
  values, a snapshot 10000 record sets.

  \<^bold>\<open>Not modelled.\<close> The wiring of processes (\<open>app\<close>, managers, watches, event filters), metrics, the token
  buckets, generated deep copies and scheme registration, the sockets of the servers and the goroutine that writes
  acknowledgements; the admission webhooks; the conversion endpoints; the Route 53 and Cloudflare providers, whose
  results come from remote services; the endpoint, gateway and service
  applications; the user interfaces in TypeScript.
\<close>

end
